theory Spec2Isabelle
  imports Main "HOL-Library.Word"
begin

unbundle bit_operations_syntax

section \<open>The writer of cstore files (cstore\_writer.c)\<close>

text \<open>
  A shallow embedding of \<^verbatim>\<open>src/cstore_writer.c\<close>. Buffers (\<^verbatim>\<open>StringInfo\<close>) are byte lists,
  structs are records, C arrays are lists whose length is the allocated length, and a read
  or write outside an allocation is an error value. Offsets and lengths that the source
  declares \<^verbatim>\<open>uint64\<close> and block numbers that it declares \<^verbatim>\<open>uint32\<close> are words, so that
  their arithmetic wraps as in C. Row, block and column counters (\<^verbatim>\<open>uint32\<close> in the
  source) are natural numbers: they count rows of one stripe and stay far below
  \<open>2 ^ 32\<close>. Memory contexts, buffer pins and locks, and critical sections are not
  modelled; \<^verbatim>\<open>MarkBufferDirty\<close> and the write-ahead-log calls are kept as an event log.
\<close>

subsection \<open>Errors\<close>

type_synonym byte = "8 word"
type_synonym bytes = "byte list"
type_synonym uint32 = "32 word"
type_synonym uint64 = "64 word"
type_synonym Oid = nat

datatype error =
    DivisionByZero        \<comment> \<open>integer division by a zero \<^verbatim>\<open>blockRowCount\<close>\<close>
  | OutOfBounds           \<comment> \<open>an array index outside the allocated array\<close>
  | NullPointer           \<comment> \<open>a NULL buffer or struct is dereferenced\<close>
  | OutOfMemory           \<comment> \<open>a \<^verbatim>\<open>StringInfo\<close> would exceed \<^verbatim>\<open>MaxAllocSize\<close>\<close>
  | AssertionFailed       \<comment> \<open>an \<^verbatim>\<open>Assert\<close> fails in a build with assertion checking\<close>
  | ReadBeyondEOF         \<comment> \<open>\<^verbatim>\<open>ReadBufferExtended\<close> of a block the fork does not have\<close>
  | MemoryFault           \<comment> \<open>a \<^verbatim>\<open>memcpy\<close> with a negative size or outside the page\<close>
  | SelfDeadlock          \<comment> \<open>\<^verbatim>\<open>LockBuffer\<close> on the header buffer that is already locked\<close>
  | BadDatum              \<comment> \<open>a datum that does not fit the column's (length, by-value) type\<close>
  | NoSuchFork            \<comment> \<open>the blocks of a fork that does not exist are counted\<close>

definition bindE :: "error + 'a \<Rightarrow> ('a \<Rightarrow> error + 'b) \<Rightarrow> error + 'b" where
  "bindE m f = (case m of Inl e \<Rightarrow> Inl e | Inr x \<Rightarrow> f x)"

definition nth_chk :: "'a list \<Rightarrow> nat \<Rightarrow> error + 'a" where
  "nth_chk xs i = (if i < length xs then Inr (xs ! i) else Inl OutOfBounds)"

definition store_chk :: "'a list \<Rightarrow> nat \<Rightarrow> 'a \<Rightarrow> error + 'a list" where
  "store_chk xs i v = (if i < length xs then Inr (xs[i := v]) else Inl OutOfBounds)"

definition deref :: "'a option \<Rightarrow> error + 'a" where
  "deref p = (case p of None \<Rightarrow> Inl NullPointer | Some x \<Rightarrow> Inr x)"

fun mapE :: "('a \<Rightarrow> error + 'b) \<Rightarrow> 'a list \<Rightarrow> error + 'b list" where
  "mapE f [] = Inr []"
| "mapE f (x # xs) = bindE (f x) (\<lambda>y. bindE (mapE f xs) (\<lambda>ys. Inr (y # ys)))"

fun foldE :: "('a \<Rightarrow> 's \<Rightarrow> error + 's) \<Rightarrow> 'a list \<Rightarrow> 's \<Rightarrow> error + 's" where
  "foldE f [] s = Inr s"
| "foldE f (x # xs) s = bindE (f x s) (foldE f xs)"

subsection \<open>Pages and forks\<close>

text \<open>
  PostgreSQL's page geometry: \<^verbatim>\<open>BLCKSZ\<close> is the default 8192 and
  \<^verbatim>\<open>SizeOfPageHeaderData\<close> the 24 bytes of the page header.
\<close>

definition BLCKSZ :: nat where
  "BLCKSZ = 8192"

definition SizeOfPageHeaderData :: nat where
  "SizeOfPageHeaderData = 24"

text \<open>
  Modelled from the spec: \<^verbatim>\<open>CSTORE_PAGE_DATA_SIZE\<close> is declared in \<^verbatim>\<open>cstore_fdw.h\<close>, which
  is not part of the sources at hand; the payload capacity per page is the page size less
  the page header.
\<close>

definition CSTORE_PAGE_DATA_SIZE :: nat where
  "CSTORE_PAGE_DATA_SIZE = BLCKSZ - SizeOfPageHeaderData"

text \<open>
  Modelled from the spec: \<^verbatim>\<open>CSTORE_POSTSCRIPT_SIZE_MAX\<close> and
  \<^verbatim>\<open>CSTORE_POSTSCRIPT_SIZE_LENGTH\<close> are declared in \<^verbatim>\<open>cstore_fdw.h\<close>; the postscript size is
  one byte and must stay below 256.
\<close>

definition CSTORE_POSTSCRIPT_SIZE_MAX :: nat where
  "CSTORE_POSTSCRIPT_SIZE_MAX = 256"

definition CSTORE_POSTSCRIPT_SIZE_LENGTH :: nat where
  "CSTORE_POSTSCRIPT_SIZE_LENGTH = 1"

definition PD_PAGE_FULL :: "16 word" where
  "PD_PAGE_FULL = 2"

text \<open>
  A page: the header fields the writer uses, and the content area that
  \<^verbatim>\<open>PageGetContents\<close> points to, as an array of bytes indexed from 0.
\<close>

record Page =
  pd_lower :: nat
  pd_upper :: nat
  pd_flags :: "16 word"
  contents :: "nat \<Rightarrow> byte"

text \<open>The zero-filled page that \<^verbatim>\<open>ReadBufferExtended\<close> returns for \<^verbatim>\<open>P_NEW\<close>.\<close>

definition ZeroPage :: Page where
  "ZeroPage = \<lparr>pd_lower = 0, pd_upper = 0, pd_flags = 0, contents = (\<lambda>_. 0)\<rparr>"

text \<open>\<^verbatim>\<open>PageInit(page, BLCKSZ, 0)\<close>: an empty page with no special space.\<close>

definition PageInit :: Page where
  "PageInit = \<lparr>pd_lower = SizeOfPageHeaderData, pd_upper = BLCKSZ, pd_flags = 0,
               contents = (\<lambda>_. 0)\<rparr>"

definition memcpy :: "(nat \<Rightarrow> byte) \<Rightarrow> nat \<Rightarrow> bytes \<Rightarrow> (nat \<Rightarrow> byte)" where
  "memcpy dst off src = (\<lambda>i. if off \<le> i \<and> i < off + length src then src ! (i - off) else dst i)"

text \<open>The bytes a reader takes from a page: the content area up to \<^verbatim>\<open>pd_lower\<close>.\<close>

definition payload :: "Page \<Rightarrow> bytes" where
  "payload p = map (contents p) [0..<pd_lower p - SizeOfPageHeaderData]"

text \<open>The logical byte stream of a fork: the payloads of its pages, concatenated.\<close>

definition forkStream :: "Page list \<Rightarrow> bytes" where
  "forkStream pages = concat (map payload pages)"

datatype ForkNumber = DATA_FORKNUM | FOOTER_FORKNUM

datatype BufferEvent =
    MarkBufferDirty ForkNumber nat
  | LogNewPage ForkNumber nat
  | LogSmgrCreate ForkNumber

fun eventFork :: "BufferEvent \<Rightarrow> ForkNumber" where
  "eventFork (MarkBufferDirty f b) = f"
| "eventFork (LogNewPage f b) = f"
| "eventFork (LogSmgrCreate f) = f"

fun eventBlock :: "BufferEvent \<Rightarrow> nat option" where
  "eventBlock (MarkBufferDirty f b) = Some b"
| "eventBlock (LogNewPage f b) = Some b"
| "eventBlock (LogSmgrCreate f) = None"

text \<open>
  The relation as the writer sees it: the data fork (absent until created), the footer
  fork, and the log of buffer events in the order the calls are made.
\<close>

record Relation =
  dataFork :: "Page list option"
  footerFork :: "Page list"
  bufferEvents :: "BufferEvent list"

subsection \<open>The data model of a write session\<close>

datatype CompressionType = COMPRESSION_NONE | COMPRESSION_PG_LZ

text \<open>
  A \<^verbatim>\<open>Datum\<close> is a machine word. Where the column type is passed by reference the word is
  a pointer, and the model carries the bytes of the object it points to.
\<close>

datatype Datum = DatumWord uint64 | DatumPointer bytes

text \<open>A comparison function (\<^verbatim>\<open>FmgrInfo\<close>), called with the collation and two datums.\<close>

type_synonym FmgrInfo = "Oid \<Rightarrow> Datum \<Rightarrow> Datum \<Rightarrow> int"

record FormData_pg_attribute =
  attisdropped :: bool
  atttypid :: Oid
  attbyval :: bool
  attlen :: int
  attcollation :: Oid
  attalign :: char

type_synonym TupleDesc = "FormData_pg_attribute list"

record StripeMetadata =
  fileOffset :: uint64
  skipListLength :: uint64
  dataLength :: uint64
  footerLength :: uint64

record TableFooter =
  stripeMetadataList :: "StripeMetadata list"
  blockRowCount :: nat

record ColumnBlockSkipNode =
  rowCount :: nat
  hasMinMax :: bool
  minimumValue :: Datum
  maximumValue :: Datum
  valueBlockOffset :: uint64
  valueLength :: uint64
  existsBlockOffset :: uint64
  existsLength :: uint64
  valueCompressionType :: CompressionType

record StripeSkipList =
  blockSkipNodeArray :: "ColumnBlockSkipNode list list"
  columnCount_sl :: nat
  blockCount :: nat

record ColumnBlockBuffers =
  existsBuffer :: "bytes option"
  valueBuffer :: "bytes option"
  valueCompressionType_bb :: CompressionType

record StripeBuffers =
  columnCount_sb :: nat
  rowCount_sb :: nat
  columnBuffersArray :: "ColumnBlockBuffers list list"

record ColumnBlockData =
  existsArray :: "bool list"
  valueBuffer_bd :: "bytes option"

record StripeFooter =
  columnCount_sf :: nat
  skipListSizeArray :: "uint64 list"
  existsSizeArray :: "uint64 list"
  valueSizeArray :: "uint64 list"

record TableWriteState =
  tableFooter :: TableFooter
  compressionType :: CompressionType
  stripeMaxRowCount :: nat
  logging :: bool
  tupleDescriptor :: TupleDesc
  currentFileOffset :: uint64
  comparisonFunctionArray :: "FmgrInfo option list"
  stripeBuffers :: "StripeBuffers option"
  stripeSkipList :: "StripeSkipList option"
  blockDataArray :: "ColumnBlockData list"
  activeBlockNumber :: nat
  relation :: Relation

text \<open>
  The collaborators whose code is outside \<^verbatim>\<open>cstore_writer.c\<close> are parameters of the model:
  the metadata serializer, the footer reader, the codec, the catalog lookup of comparison
  functions, the length of a variable-length datum, and whether \<^verbatim>\<open>Assert\<close> is compiled in.
  \<^verbatim>\<open>CompressBuffer\<close> returns the compressed bytes when it returns true in the source.
\<close>

record Host =
  USE_ASSERT_CHECKING :: bool
  CStoreReadFooter :: "Relation \<Rightarrow> TableFooter option"
  GetFunctionInfoOrNull :: "Oid \<Rightarrow> FmgrInfo option"
  CompressBuffer :: "bytes \<Rightarrow> CompressionType \<Rightarrow> bytes option"
  VARSIZE_ANY :: "bytes \<Rightarrow> nat"
  SerializeColumnSkipList :: "ColumnBlockSkipNode list \<Rightarrow> nat \<Rightarrow> bool \<Rightarrow> int \<Rightarrow> bytes"
  SerializeStripeFooter :: "StripeFooter \<Rightarrow> bytes"
  SerializeTableFooter :: "TableFooter \<Rightarrow> bytes"
  SerializePostScript :: "nat \<Rightarrow> bytes"
  SerializeTableFooterMetadata :: "uint32 \<Rightarrow> uint32 \<Rightarrow> bytes"
  DeserializeTableFooterMetadata :: "(nat \<Rightarrow> byte) \<Rightarrow> nat \<Rightarrow> uint32 \<times> uint32"

definition Assert :: "Host \<Rightarrow> bool \<Rightarrow> error + unit" where
  "Assert host condition =
     (if USE_ASSERT_CHECKING host \<and> \<not> condition then Inl AssertionFailed else Inr ())"

subsection \<open>String buffers\<close>

text \<open>
  PostgreSQL's \<^verbatim>\<open>enlargeStringInfo\<close> raises an error when the buffer would reach
  \<^verbatim>\<open>MaxAllocSize\<close> (\<^verbatim>\<open>0x3fffffff\<close>); every \<^verbatim>\<open>StringInfo\<close> is shorter than that.
\<close>

definition MaxAllocSize :: nat where
  "MaxAllocSize = 1073741823"

definition appendBinaryStringInfo :: "bytes \<Rightarrow> bytes \<Rightarrow> error + bytes" where
  "appendBinaryStringInfo str data =
     (if MaxAllocSize \<le> length str + length data then Inl OutOfMemory else Inr (str @ data))"

text \<open>The four bytes of an \<^verbatim>\<open>int32\<close> in memory (little-endian host) and back.\<close>

definition int32_bytes :: "uint32 \<Rightarrow> bytes" where
  "int32_bytes w = [ucast w, ucast (drop_bit 8 w), ucast (drop_bit 16 w), ucast (drop_bit 24 w)]"


subsection \<open>CStoreWriteFooter\<close>

text \<open>
  Lines 389--401: the footer stream is laid out with a placeholder for its length, then the
  serialized table footer, the serialized postscript and the one-byte postscript size.
\<close>

definition LayoutWholeFooter :: "Host \<Rightarrow> TableFooter \<Rightarrow> error + bytes" where
  "LayoutWholeFooter host footer =
     bindE (appendBinaryStringInfo [] (int32_bytes 0)) (\<lambda>wholeFooter.
     let tableFooterBuffer = SerializeTableFooter host footer in
     bindE (appendBinaryStringInfo wholeFooter tableFooterBuffer) (\<lambda>wholeFooter.
     let postscriptBuffer = SerializePostScript host (length tableFooterBuffer) in
     bindE (appendBinaryStringInfo wholeFooter postscriptBuffer) (\<lambda>wholeFooter.
     bindE (Assert host (length postscriptBuffer < CSTORE_POSTSCRIPT_SIZE_MAX)) (\<lambda>_.
     let postscriptSize = (of_nat (length postscriptBuffer) :: byte) in
     appendBinaryStringInfo wholeFooter (replicate CSTORE_POSTSCRIPT_SIZE_LENGTH postscriptSize)))))"

text \<open>Line 462: the length of the whole stream is copied over the placeholder.\<close>

definition PatchDataLength :: "bytes \<Rightarrow> bytes" where
  "PatchDataLength wholeFooter =
     int32_bytes (of_nat (length wholeFooter)) @ drop 4 wholeFooter"

text \<open>Line 404: the number of pages the stream needs.\<close>

definition ActualBlockCount :: "bytes \<Rightarrow> uint32" where
  "ActualBlockCount wholeFooter =
     of_int ((int (length wholeFooter) - 1) div int CSTORE_PAGE_DATA_SIZE + 1)"

text \<open>
  Lines 434--435: the header page is parsed. A header that fails to parse yields the
  starting block 0.
\<close>

definition ParseHeaderPage :: "Host \<Rightarrow> Page \<Rightarrow> uint32 \<times> uint32" where
  "ParseHeaderPage host headerPage =
     (let headerDataLength =
            nat ((int (pd_lower headerPage) - int SizeOfPageHeaderData) mod 2 ^ 32)
      in DeserializeTableFooterMetadata host (contents headerPage) headerDataLength)"

text \<open>
  Lines 428--459: where the new footer starts. The header page is parsed only when the fork
  has blocks.
\<close>

definition NewStartingBlock :: "Host \<Rightarrow> nat \<Rightarrow> Page \<Rightarrow> uint32 \<Rightarrow> uint32" where
  "NewStartingBlock host originalBlockCount headerPage actualBlockCount =
     (if originalBlockCount = 0 then 1
      else
        let (startingBlock, blockCount) = ParseHeaderPage host headerPage
        in if startingBlock = 0 then 1
           else if actualBlockCount < startingBlock then 1
           else startingBlock + blockCount)"

text \<open>
  Lines 464--513: the loop that writes the stream page by page. The block is read in place
  when it lies below the block count taken at entry, and allocated with \<^verbatim>\<open>P_NEW\<close>
  otherwise; block 0 is the header buffer, which this function already holds locked.
\<close>

function WriteFooterPages ::
  "bytes \<Rightarrow> bool \<Rightarrow> nat \<Rightarrow> uint32 \<Rightarrow> nat \<Rightarrow> nat \<Rightarrow> int \<Rightarrow> Page list \<times> BufferEvent list
     \<Rightarrow> error + (Page list \<times> BufferEvent list)" where
  "WriteFooterPages wholeFooter loggingEnabled originalBlockCount newStartingBlock
       actualBlockCount currentBlockNumber dataOffset (pages, events) =
    (if currentBlockNumber < actualBlockCount then
       let blockNumber = (of_nat currentBlockNumber + newStartingBlock :: uint32);
           isNew = (originalBlockCount \<le> unat blockNumber)
       in if \<not> isNew \<and> unat blockNumber = 0 then Inl SelfDeadlock
          else if \<not> isNew \<and> length pages \<le> unat blockNumber then Inl ReadBeyondEOF
          else
            let actualBlockNumber = (if isNew then length pages else unat blockNumber);
                pages0 = (if isNew then pages @ [ZeroPage] else pages);
                blockDataSize = int CSTORE_PAGE_DATA_SIZE;
                remaining = int (length wholeFooter) - dataOffset;
                copySize = (if remaining \<le> blockDataSize then remaining else blockDataSize)
            in if copySize < 0 \<or> dataOffset < 0 then Inl MemoryFault
               else
                 let page = PageInit
                       \<lparr>pd_lower := SizeOfPageHeaderData + nat copySize,
                        contents := memcpy (contents PageInit) 0
                                      (take (nat copySize) (drop (nat dataOffset) wholeFooter))\<rparr>;
                     events0 = events @ [MarkBufferDirty FOOTER_FORKNUM actualBlockNumber]
                                 @ (if loggingEnabled
                                    then [LogNewPage FOOTER_FORKNUM actualBlockNumber] else [])
                 in WriteFooterPages wholeFooter loggingEnabled originalBlockCount
                      newStartingBlock actualBlockCount (currentBlockNumber + 1)
                      (dataOffset + copySize) (pages0[actualBlockNumber := page], events0)
     else Inr (pages, events))"
  by pat_completeness auto
termination
  by (relation "measure (\<lambda>(w, l, ob, ns, actualBlockCount, currentBlockNumber, r).
                           actualBlockCount - currentBlockNumber)") auto

declare WriteFooterPages.simps [simp del]

text \<open>
  The whole function. The header buffer is block 0, or a new block when the fork is empty;
  it is rewritten after the loop, and its change is logged whatever the logging setting.
\<close>

definition CStoreWriteFooter :: "Host \<Rightarrow> TableFooter \<Rightarrow> Relation \<Rightarrow> bool \<Rightarrow> error + Relation" where
  "CStoreWriteFooter host footer rel loggingEnabled =
     (let originalBlockCount = length (footerFork rel) in
      bindE (LayoutWholeFooter host footer) (\<lambda>wholeFooter0.
      let actualBlockCount = ActualBlockCount wholeFooter0;
          pages0 = (if 0 < originalBlockCount then footerFork rel
                    else footerFork rel @ [ZeroPage]);
          headerPage = pages0 ! 0;
          newStartingBlock =
            NewStartingBlock host originalBlockCount headerPage actualBlockCount;
          wholeFooter = PatchDataLength wholeFooter0
      in bindE (WriteFooterPages wholeFooter loggingEnabled originalBlockCount newStartingBlock
                  (unat actualBlockCount) 0 0 (pages0, bufferEvents rel)) (\<lambda>(pages1, events1).
         let tableFooterMetadata =
               SerializeTableFooterMetadata host newStartingBlock actualBlockCount
         in if CSTORE_PAGE_DATA_SIZE < length tableFooterMetadata then Inl MemoryFault
            else
              let headerPage1 = PageInit
                    \<lparr>pd_lower := SizeOfPageHeaderData + length tableFooterMetadata,
                     contents := memcpy (contents PageInit) 0 tableFooterMetadata\<rparr>
              in Inr (rel\<lparr>footerFork := pages1[0 := headerPage1],
                          bufferEvents := events1 @ [MarkBufferDirty FOOTER_FORKNUM 0,
                                                     LogNewPage FOOTER_FORKNUM 0]\<rparr>))))"

text \<open>
  The blocks an iteration of the page loop may touch, from iteration \<open>cur\<close> on: the block
  it addresses in place, or a block beyond the block count taken at entry; never block 0.
\<close>

definition footerTarget :: "nat \<Rightarrow> uint32 \<Rightarrow> nat \<Rightarrow> nat \<Rightarrow> nat \<Rightarrow> bool" where
  "footerTarget orig ns actual cur b \<longleftrightarrow>
     b \<noteq> 0 \<and> ((\<exists>k. cur \<le> k \<and> k < actual \<and> b = unat (of_nat k + ns)) \<or> orig \<le> b)"

subsection \<open>WriteToFile\<close>

text \<open>
  Lines 1077--1150: the loop of \<^verbatim>\<open>WriteToFile\<close>. The block count is the one taken before the
  loop; a block number at or beyond it selects \<^verbatim>\<open>P_NEW\<close>, which appends a page to the fork
  and initialises it. The active block number is stored after every iteration.
\<close>

function WriteToFile_loop ::
  "Host \<Rightarrow> bytes \<Rightarrow> bool \<Rightarrow> nat \<Rightarrow> nat \<Rightarrow> nat \<Rightarrow> nat \<times> Page list \<times> BufferEvent list
     \<Rightarrow> error + (nat \<times> Page list \<times> BufferEvent list)" where
  "WriteToFile_loop host data loggingOn blockCnt blockNumber dataOffset (active, pages, events) =
    (if dataOffset < length data then
       let isNew = (blockCnt \<le> blockNumber)
       in if \<not> isNew \<and> length pages \<le> blockNumber then Inl ReadBeyondEOF
          else
            let bn = (if isNew then length pages else blockNumber);
                page = (if isNew then PageInit else pages ! blockNumber);
                pages0 = (if isNew then pages @ [page] else pages)
            in if USE_ASSERT_CHECKING host \<and> \<not> 0 < pd_lower page then Inl AssertionFailed
               else
                 let remainingCapacity = int (pd_upper page) - int (pd_lower page);
                     copySize0 = int (length data) - int dataOffset;
                     copySize = (if remainingCapacity < copySize0 then remainingCapacity
                                 else copySize0);
                     pageOffset = int (pd_lower page) - int SizeOfPageHeaderData
                 in if copySize < 0 then Inl MemoryFault
                    else if 0 < copySize \<and> (pageOffset < 0
                              \<or> int CSTORE_PAGE_DATA_SIZE < pageOffset + copySize)
                    then Inl MemoryFault
                    else
                      let lower = pd_lower page + nat copySize;
                          page1 = page
                            \<lparr>pd_lower := lower,
                             pd_flags := (if pd_upper page \<le> lower
                                          then pd_flags page OR PD_PAGE_FULL else pd_flags page),
                             contents := memcpy (contents page) (nat pageOffset)
                                           (take (nat copySize) (drop dataOffset data))\<rparr>;
                          events0 = events @ [MarkBufferDirty DATA_FORKNUM bn]
                                      @ (if loggingOn then [LogNewPage DATA_FORKNUM bn] else [])
                      in WriteToFile_loop host data loggingOn blockCnt (bn + 1)
                           (dataOffset + nat copySize) (bn, pages0[bn := page1], events0)
     else Inr (active, pages, events))"
  by pat_completeness auto
termination
  by (relation "measures [\<lambda>(h, data, l, blockCnt, blockNumber, dataOffset, s).
                             length data - dataOffset,
                          \<lambda>(h, data, l, blockCnt, blockNumber, dataOffset, s).
                             blockCnt - blockNumber]")
    (auto simp: PageInit_def BLCKSZ_def SizeOfPageHeaderData_def Let_def split: if_splits)

declare WriteToFile_loop.simps [simp del]

text \<open>
  \<^verbatim>\<open>WriteToFile\<close>. The data is the content of a \<^verbatim>\<open>StringInfo\<close> or of one allocation, which
  is shorter than \<^verbatim>\<open>MaxAllocSize\<close>, so that the \<^verbatim>\<open>int\<close> and \<^verbatim>\<open>uint32\<close> arithmetic of
  the source does not wrap; a longer list is no such buffer and the model rejects it.
\<close>

definition WriteToFile :: "Host \<Rightarrow> TableWriteState \<Rightarrow> bytes \<Rightarrow> error + TableWriteState" where
  "WriteToFile host ws data =
     (case dataFork (relation ws) of
        None \<Rightarrow> Inl NoSuchFork
      | Some pages \<Rightarrow>
          if length data = 0 then Inr ws
          else if MaxAllocSize \<le> length data then Inl OutOfMemory
          else bindE (WriteToFile_loop host data (logging ws) (length pages)
                        (activeBlockNumber ws) 0
                        (activeBlockNumber ws, pages, bufferEvents (relation ws)))
                 (\<lambda>(active, pages1, events1).
                    Inr (ws\<lparr>activeBlockNumber := active,
                            relation := (relation ws)\<lparr>dataFork := Some pages1,
                                                      bufferEvents := events1\<rparr>\<rparr>)))"

text \<open>
  The bytes a call adds to the pages of a fork: for each page of the new fork, its payload
  beyond the payload the page had before (a page that did not exist had none).
\<close>

definition newBytesAt :: "Page list \<Rightarrow> Page list \<Rightarrow> nat \<Rightarrow> bytes" where
  "newBytesAt old new i =
     drop (if i < length old then length (payload (old ! i)) else 0) (payload (new ! i))"

definition appendedBytes :: "Page list \<Rightarrow> Page list \<Rightarrow> bytes" where
  "appendedBytes old new = concat (map (newBytesAt old new) [0..<length new])"

definition wf_page :: "Page \<Rightarrow> bool" where
  "wf_page p \<longleftrightarrow>
     SizeOfPageHeaderData \<le> pd_lower p \<and> pd_lower p \<le> pd_upper p \<and> pd_upper p \<le> BLCKSZ"

subsection \<open>Serializing values\<close>

text \<open>
  Lines 829--851: \<^verbatim>\<open>SerializeBoolArray\<close> packs eight flags into a byte, the flag of index
  \<open>i\<close> into bit \<open>i mod 8\<close> of byte \<open>i div 8\<close>.
\<close>

definition SerializeBoolArray :: "bool list \<Rightarrow> nat \<Rightarrow> error + bytes" where
  "SerializeBoolArray boolArray boolArrayLength =
     (let byteCount = (boolArrayLength + 7) div 8
      in if length boolArray < boolArrayLength then Inl OutOfBounds
         else Inr (foldl (\<lambda>buffer boolArrayIndex.
                            if boolArray ! boolArrayIndex
                            then let byteIndex = boolArrayIndex div 8;
                                     bitIndex = boolArrayIndex mod 8
                                 in buffer[byteIndex := (buffer ! byteIndex) OR push_bit bitIndex 1]
                            else buffer)
                     (replicate byteCount 0) [0..<boolArrayLength]))"

text \<open>
  PostgreSQL's \<^verbatim>\<open>att_addlength_datum\<close> at offset 0: the length of a datum is the type length
  when that is positive, the length in the header of a variable-length datum when it is
  \<open>-1\<close>, and the length of the string and its terminating NUL otherwise.
\<close>

definition att_addlength_datum :: "Host \<Rightarrow> int \<Rightarrow> Datum \<Rightarrow> error + nat" where
  "att_addlength_datum host attlength datum =
     (if 0 < attlength then Inr (nat attlength)
      else case datum of
             DatumWord w \<Rightarrow> Inl BadDatum
           | DatumPointer bs \<Rightarrow>
               if attlength = - 1 then Inr (VARSIZE_ANY host bs)
               else Inr (length (takeWhile (\<lambda>b. b \<noteq> 0) bs) + 1))"

text \<open>PostgreSQL's \<^verbatim>\<open>att_align_nominal\<close>: the length rounded up to the type's alignment.\<close>

definition att_align_nominal :: "nat \<Rightarrow> char \<Rightarrow> nat" where
  "att_align_nominal len attalignment =
     (let a = (if attalignment = CHR ''i'' then 4
               else if attalignment = CHR ''c'' then 1
               else if attalignment = CHR ''d'' then 8
               else 2)
      in ((len + a - 1) div a) * a)"

text \<open>
  PostgreSQL's \<^verbatim>\<open>store_att_byval\<close>: the low bytes of the word, for the lengths 1, 2, 4 and
  8, and an error for any other length.
\<close>

definition store_att_byval :: "uint64 \<Rightarrow> int \<Rightarrow> error + bytes" where
  "store_att_byval w attlength =
     (if attlength \<in> {1, 2, 4, 8}
      then Inr (map (\<lambda>i. ucast (drop_bit (8 * i) w)) [0..<nat attlength])
      else Inl BadDatum)"

text \<open>
  The bytes behind a datum that is passed by reference. The pointer carries the object it
  points to; an object whose size is not the length of the datum does not fit the column.
\<close>

definition DatumGetPointer :: "Datum \<Rightarrow> nat \<Rightarrow> error + bytes" where
  "DatumGetPointer datum datumLength =
     (case datum of
        DatumWord w \<Rightarrow> Inl BadDatum
      | DatumPointer bs \<Rightarrow> if length bs = datumLength then Inr bs else Inl BadDatum)"

text \<open>Lines 859--889: \<^verbatim>\<open>SerializeSingleDatum\<close>.\<close>

definition SerializeSingleDatum ::
  "Host \<Rightarrow> bytes \<Rightarrow> Datum \<Rightarrow> bool \<Rightarrow> int \<Rightarrow> char \<Rightarrow> error + bytes" where
  "SerializeSingleDatum host datumBuffer datum datumTypeByValue datumTypeLength datumTypeAlign =
     bindE (att_addlength_datum host datumTypeLength datum) (\<lambda>datumLength.
     let datumLengthAligned = att_align_nominal datumLength datumTypeAlign in
     if MaxAllocSize \<le> length datumBuffer + datumLengthAligned then Inl OutOfMemory
     else
       bindE (if 0 < datumTypeLength then
                (if datumTypeByValue then
                   (case datum of
                      DatumWord w \<Rightarrow> store_att_byval w datumTypeLength
                    | DatumPointer bs \<Rightarrow> Inl BadDatum)
                 else DatumGetPointer datum datumLength)
              else
                bindE (Assert host (\<not> datumTypeByValue)) (\<lambda>_.
                DatumGetPointer datum datumLength)) (\<lambda>stored.
       Inr (datumBuffer @ stored @ replicate (datumLengthAligned - length stored) 0)))"

text \<open>Lines 1022--1041: \<^verbatim>\<open>DatumCopy\<close>.\<close>

definition DatumCopy :: "Host \<Rightarrow> Datum \<Rightarrow> bool \<Rightarrow> int \<Rightarrow> error + Datum" where
  "DatumCopy host datum datumTypeByValue datumTypeLength =
     (if datumTypeByValue then Inr datum
      else
        bindE (att_addlength_datum host datumTypeLength datum) (\<lambda>datumLength.
        bindE (DatumGetPointer datum datumLength) (\<lambda>datumData.
        Inr (DatumPointer datumData))))"

subsection \<open>Block statistics\<close>

text \<open>Lines 963--1018: \<^verbatim>\<open>UpdateBlockSkipNodeMinMax\<close>.\<close>

definition UpdateBlockSkipNodeMinMax ::
  "Host \<Rightarrow> ColumnBlockSkipNode \<Rightarrow> Datum \<Rightarrow> bool \<Rightarrow> int \<Rightarrow> Oid \<Rightarrow> FmgrInfo option
     \<Rightarrow> error + ColumnBlockSkipNode" where
  "UpdateBlockSkipNodeMinMax host blockSkipNode columnValue columnTypeByValue columnTypeLength
       columnCollation comparisonFunction =
     (let previousMinimum = minimumValue blockSkipNode;
          previousMaximum = maximumValue blockSkipNode
      in case comparisonFunction of
           None \<Rightarrow> Inr blockSkipNode
         | Some compare \<Rightarrow>
             bindE
               (if \<not> hasMinMax blockSkipNode then
                  bindE (DatumCopy host columnValue columnTypeByValue columnTypeLength)
                    (\<lambda>currentMinimum.
                  bindE (DatumCopy host columnValue columnTypeByValue columnTypeLength)
                    (\<lambda>currentMaximum.
                  Inr (currentMinimum, currentMaximum)))
                else
                  let minimumComparison = compare columnCollation columnValue previousMinimum;
                      maximumComparison = compare columnCollation columnValue previousMaximum
                  in bindE (if minimumComparison < 0
                            then DatumCopy host columnValue columnTypeByValue columnTypeLength
                            else Inr previousMinimum) (\<lambda>currentMinimum.
                     bindE (if 0 < maximumComparison
                            then DatumCopy host columnValue columnTypeByValue columnTypeLength
                            else Inr previousMaximum) (\<lambda>currentMaximum.
                     Inr (currentMinimum, currentMaximum))))
               (\<lambda>(currentMinimum, currentMaximum).
                  Inr (blockSkipNode\<lparr>hasMinMax := True,
                                      minimumValue := currentMinimum,
                                      maximumValue := currentMaximum\<rparr>)))"

subsection \<open>Stripe buffers\<close>

definition emptyBlockBuffers :: ColumnBlockBuffers where
  "emptyBlockBuffers =
     \<lparr>existsBuffer = None, valueBuffer = None, valueCompressionType_bb = COMPRESSION_NONE\<rparr>"

text \<open>The skip node that \<^verbatim>\<open>palloc0\<close> yields: all fields zero.\<close>

definition emptySkipNode :: ColumnBlockSkipNode where
  "emptySkipNode =
     \<lparr>rowCount = 0, hasMinMax = False, minimumValue = DatumWord 0, maximumValue = DatumWord 0,
      valueBlockOffset = 0, valueLength = 0, existsBlockOffset = 0, existsLength = 0,
      valueCompressionType = COMPRESSION_NONE\<rparr>"

text \<open>
  Lines 552--584 and 593--614. Both take the stripe's maximal row count as a \<^verbatim>\<open>uint32\<close>
  and divide by the block row count, which the callers have checked to be nonzero in the
  model (the division is the first thing the source does with it). The number of blocks is
  a \<^verbatim>\<open>uint32\<close> too: the quotient plus one wraps to 0 at \<open>2^32\<close>.
\<close>

definition CreateEmptyStripeBuffers :: "nat \<Rightarrow> nat \<Rightarrow> nat \<Rightarrow> StripeBuffers" where
  "CreateEmptyStripeBuffers stripeMaxRows blockRows columnCnt =
     (let maxBlockCount = (((stripeMaxRows mod 2 ^ 32) div blockRows) + 1) mod 2 ^ 32
      in \<lparr>columnCount_sb = columnCnt, rowCount_sb = 0,
          columnBuffersArray = replicate columnCnt (replicate maxBlockCount emptyBlockBuffers)\<rparr>)"

definition CreateEmptyStripeSkipList :: "nat \<Rightarrow> nat \<Rightarrow> nat \<Rightarrow> StripeSkipList" where
  "CreateEmptyStripeSkipList stripeMaxRows blockRows columnCnt =
     (let maxBlockCount = (((stripeMaxRows mod 2 ^ 32) div blockRows) + 1) mod 2 ^ 32
      in \<lparr>blockSkipNodeArray = replicate columnCnt (replicate maxBlockCount emptySkipNode),
          columnCount_sl = columnCnt, blockCount = 0\<rparr>)"

text \<open>
  Modelled from the spec: \<^verbatim>\<open>CreateEmptyBlockDataArray\<close> is defined outside
  \<^verbatim>\<open>cstore_writer.c\<close>. For each column of the mask it allocates the block data: the exists
  array is a flat boolean vector of the given block row count, zero-filled, and the value
  buffer is not yet allocated.
\<close>

definition CreateEmptyBlockDataArray :: "nat \<Rightarrow> bool list \<Rightarrow> nat \<Rightarrow> ColumnBlockData list" where
  "CreateEmptyBlockDataArray columnCnt columnMask blockRows =
     map (\<lambda>columnIndex. \<lparr>existsArray = replicate blockRows False, valueBuffer_bd = None\<rparr>)
       [0..<columnCnt]"

text \<open>
  Lines 897--954: \<^verbatim>\<open>SerializeBlockData\<close>, its two loops over the columns.
  \<^verbatim>\<open>CopyStringInfo\<close> copies the bytes; \<^verbatim>\<open>resetStringInfo\<close> empties the working buffer.
\<close>

definition SerializeBlockExists ::
  "TableWriteState \<Rightarrow> nat \<Rightarrow> nat \<Rightarrow> nat \<Rightarrow> ColumnBlockBuffers list list
     \<Rightarrow> error + ColumnBlockBuffers list list" where
  "SerializeBlockExists ws blockIndex rowCnt columnIndex buffersArray =
     bindE (nth_chk buffersArray columnIndex) (\<lambda>columnBuffers.
     bindE (nth_chk columnBuffers blockIndex) (\<lambda>blockBuffers.
     bindE (nth_chk (blockDataArray ws) columnIndex) (\<lambda>blockData.
     bindE (SerializeBoolArray (existsArray blockData) rowCnt) (\<lambda>serialized.
     Inr (buffersArray[columnIndex :=
            columnBuffers[blockIndex := blockBuffers\<lparr>existsBuffer := Some serialized\<rparr>]])))))"

definition SerializeBlockValues ::
  "Host \<Rightarrow> CompressionType \<Rightarrow> nat \<Rightarrow> nat
     \<Rightarrow> ColumnBlockBuffers list list \<times> ColumnBlockData list
     \<Rightarrow> error + (ColumnBlockBuffers list list \<times> ColumnBlockData list)" where
  "SerializeBlockValues host requestedCompressionType blockIndex columnIndex state =
     (case state of (buffersArray, blockDatas) \<Rightarrow>
     bindE (nth_chk buffersArray columnIndex) (\<lambda>columnBuffers.
     bindE (nth_chk columnBuffers blockIndex) (\<lambda>blockBuffers.
     bindE (nth_chk blockDatas columnIndex) (\<lambda>blockData.
     bindE (deref (valueBuffer_bd blockData)) (\<lambda>serializedValueBuffer.
     let (stored, actualCompressionType) =
           (case CompressBuffer host serializedValueBuffer requestedCompressionType of
              Some compressed \<Rightarrow> (compressed, COMPRESSION_PG_LZ)
            | None \<Rightarrow> (serializedValueBuffer, COMPRESSION_NONE))
     in Inr (buffersArray[columnIndex :=
               columnBuffers[blockIndex :=
                 blockBuffers\<lparr>valueCompressionType_bb := actualCompressionType,
                              valueBuffer := Some stored\<rparr>]],
             blockDatas[columnIndex := blockData\<lparr>valueBuffer_bd := Some []\<rparr>]))))))"

definition SerializeBlockData :: "Host \<Rightarrow> TableWriteState \<Rightarrow> nat \<Rightarrow> nat \<Rightarrow> error + TableWriteState" where
  "SerializeBlockData host ws blockIndex rowCnt =
     bindE (deref (stripeBuffers ws)) (\<lambda>buffers.
     let columnCnt = columnCount_sb buffers in
     bindE (foldE (SerializeBlockExists ws blockIndex rowCnt) [0..<columnCnt]
              (columnBuffersArray buffers)) (\<lambda>buffersArray1.
     bindE (foldE (SerializeBlockValues host (compressionType ws) blockIndex) [0..<columnCnt]
              (buffersArray1, blockDataArray ws)) (\<lambda>(buffersArray2, blockDatas).
     Inr (ws\<lparr>stripeBuffers := Some (buffers\<lparr>columnBuffersArray := buffersArray2\<rparr>),
             blockDataArray := blockDatas\<rparr>))))"

subsection \<open>FlushStripe\<close>

text \<open>Lines 655--680: sizes and positions of the block buffers go into the skip nodes.\<close>

definition UpdateBlockOffsets ::
  "ColumnBlockBuffers list \<Rightarrow> nat \<Rightarrow> ColumnBlockSkipNode list \<times> uint64 \<times> uint64
     \<Rightarrow> error + (ColumnBlockSkipNode list \<times> uint64 \<times> uint64)" where
  "UpdateBlockOffsets columnBuffers blockIndex state =
     (case state of (nodes, currentExistsBlockOffset, currentValueBlockOffset) \<Rightarrow>
     bindE (nth_chk columnBuffers blockIndex) (\<lambda>blockBuffers.
     bindE (deref (existsBuffer blockBuffers)) (\<lambda>existsBytes.
     bindE (deref (valueBuffer blockBuffers)) (\<lambda>valueBytes.
     bindE (nth_chk nodes blockIndex) (\<lambda>blockSkipNode.
     let existsBufferSize = (of_nat (length existsBytes) :: uint64);
         valueBufferSize = (of_nat (length valueBytes) :: uint64)
     in Inr (nodes[blockIndex := blockSkipNode
                      \<lparr>existsBlockOffset := currentExistsBlockOffset,
                       existsLength := existsBufferSize,
                       valueBlockOffset := currentValueBlockOffset,
                       valueLength := valueBufferSize,
                       valueCompressionType := valueCompressionType_bb blockBuffers\<rparr>],
             currentExistsBlockOffset + existsBufferSize,
             currentValueBlockOffset + valueBufferSize))))))"

definition UpdateColumnOffsets ::
  "StripeBuffers \<Rightarrow> nat \<Rightarrow> nat \<Rightarrow> ColumnBlockSkipNode list list
     \<Rightarrow> error + ColumnBlockSkipNode list list" where
  "UpdateColumnOffsets buffers blockCnt columnIndex columnSkipNodeArray =
     bindE (nth_chk columnSkipNodeArray columnIndex) (\<lambda>nodes.
     bindE (nth_chk (columnBuffersArray buffers) columnIndex) (\<lambda>columnBuffers.
     bindE (foldE (UpdateBlockOffsets columnBuffers) [0..<blockCnt] (nodes, 0, 0))
       (\<lambda>(nodes1, currentExistsBlockOffset, currentValueBlockOffset).
     Inr (columnSkipNodeArray[columnIndex := nodes1]))))"

text \<open>Lines 763--786: \<^verbatim>\<open>CreateSkipListBufferArray\<close>.\<close>

definition CreateSkipListBufferArray ::
  "Host \<Rightarrow> StripeSkipList \<Rightarrow> TupleDesc \<Rightarrow> error + bytes list" where
  "CreateSkipListBufferArray host skipList tupleDesc =
     mapE (\<lambda>columnIndex.
             bindE (nth_chk (blockSkipNodeArray skipList) columnIndex) (\<lambda>nodes.
             bindE (nth_chk tupleDesc columnIndex) (\<lambda>attributeForm.
             Inr (SerializeColumnSkipList host nodes (blockCount skipList)
                    (attbyval attributeForm) (attlen attributeForm)))))
       [0..<columnCount_sl skipList]"

text \<open>Lines 791--821: \<^verbatim>\<open>CreateStripeFooter\<close>.\<close>

definition ColumnFooterSizes ::
  "StripeSkipList \<Rightarrow> bytes list \<Rightarrow> nat \<Rightarrow> error + (uint64 \<times> uint64 \<times> uint64)" where
  "ColumnFooterSizes skipList skipListBufferArray columnIndex =
     bindE (nth_chk (blockSkipNodeArray skipList) columnIndex) (\<lambda>nodes.
     bindE (foldE (\<lambda>blockIndex (existsSize, valueSize).
                     bindE (nth_chk nodes blockIndex) (\<lambda>node.
                     Inr (existsSize + existsLength node, valueSize + valueLength node)))
              [0..<blockCount skipList] (0, 0)) (\<lambda>(existsSize, valueSize).
     bindE (nth_chk skipListBufferArray columnIndex) (\<lambda>skipListBuffer.
     Inr (of_nat (length skipListBuffer), existsSize, valueSize))))"

definition CreateStripeFooter :: "StripeSkipList \<Rightarrow> bytes list \<Rightarrow> error + StripeFooter" where
  "CreateStripeFooter skipList skipListBufferArray =
     bindE (mapE (ColumnFooterSizes skipList skipListBufferArray) [0..<columnCount_sl skipList])
       (\<lambda>sizes.
     Inr \<lparr>columnCount_sf = columnCount_sl skipList,
          skipListSizeArray = map fst sizes,
          existsSizeArray = map (fst \<circ> snd) sizes,
          valueSizeArray = map (snd \<circ> snd) sizes\<rparr>)"

text \<open>
  Lines 626--685: what \<^verbatim>\<open>FlushStripe\<close> does before it writes. The last block is serialized
  when it is partial; the skip nodes receive sizes and positions; the skip list buffers and
  the stripe footer are created.
\<close>

definition PrepareStripe ::
  "Host \<Rightarrow> TableWriteState
     \<Rightarrow> error + (TableWriteState \<times> StripeBuffers \<times> StripeSkipList \<times> bytes list \<times> StripeFooter)" where
  "PrepareStripe host ws =
     bindE (deref (stripeBuffers ws)) (\<lambda>buffers0.
     bindE (deref (stripeSkipList ws)) (\<lambda>skipList0.
     let columnCnt = length (tupleDescriptor ws);
         blockCnt = blockCount skipList0;
         blockRows = blockRowCount (tableFooter ws)
     in if blockRows = 0 then Inl DivisionByZero
        else
          let lastBlockIndex = rowCount_sb buffers0 div blockRows;
              lastBlockRowCount = rowCount_sb buffers0 mod blockRows
          in bindE (if 0 < lastBlockRowCount
                    then SerializeBlockData host ws lastBlockIndex lastBlockRowCount
                    else Inr ws) (\<lambda>ws1.
             bindE (deref (stripeBuffers ws1)) (\<lambda>buffers.
             bindE (foldE (UpdateColumnOffsets buffers blockCnt) [0..<columnCnt]
                      (blockSkipNodeArray skipList0)) (\<lambda>nodes.
             let skipList = skipList0\<lparr>blockSkipNodeArray := nodes\<rparr> in
             bindE (CreateSkipListBufferArray host skipList (tupleDescriptor ws1))
               (\<lambda>skipListBufferArray.
             bindE (CreateStripeFooter skipList skipListBufferArray) (\<lambda>stripeFooter.
             Inr (ws1\<lparr>stripeSkipList := Some skipList\<rparr>, buffers, skipList,
                  skipListBufferArray, stripeFooter))))))))"

text \<open>Lines 702--706: the skip list buffers are written, column by column.\<close>

definition FlushSkipListBuffer ::
  "Host \<Rightarrow> bytes list \<Rightarrow> nat \<Rightarrow> TableWriteState \<Rightarrow> error + TableWriteState" where
  "FlushSkipListBuffer host skipListBufferArray columnIndex ws =
     bindE (nth_chk skipListBufferArray columnIndex) (\<lambda>skipListBuffer.
     WriteToFile host ws skipListBuffer)"

text \<open>
  Lines 709--731: the data buffers are written: for each column, the exists buffers of all
  its blocks, and then the value buffers of all its blocks.
\<close>

definition FlushExistsBuffer ::
  "Host \<Rightarrow> ColumnBlockBuffers list \<Rightarrow> nat \<Rightarrow> TableWriteState \<Rightarrow> error + TableWriteState" where
  "FlushExistsBuffer host columnBuffers blockIndex ws =
     bindE (nth_chk columnBuffers blockIndex) (\<lambda>blockBuffers.
     bindE (deref (existsBuffer blockBuffers)) (\<lambda>existsBytes.
     WriteToFile host ws existsBytes))"

definition FlushValueBuffer ::
  "Host \<Rightarrow> ColumnBlockBuffers list \<Rightarrow> nat \<Rightarrow> TableWriteState \<Rightarrow> error + TableWriteState" where
  "FlushValueBuffer host columnBuffers blockIndex ws =
     bindE (nth_chk columnBuffers blockIndex) (\<lambda>blockBuffers.
     bindE (deref (valueBuffer blockBuffers)) (\<lambda>valueBytes.
     WriteToFile host ws valueBytes))"

definition FlushColumnData ::
  "Host \<Rightarrow> StripeBuffers \<Rightarrow> nat \<Rightarrow> nat \<Rightarrow> TableWriteState \<Rightarrow> error + TableWriteState" where
  "FlushColumnData host buffers blockCnt columnIndex ws =
     bindE (nth_chk (columnBuffersArray buffers) columnIndex) (\<lambda>columnBuffers.
     bindE (foldE (FlushExistsBuffer host columnBuffers) [0..<blockCnt] ws) (\<lambda>ws1.
     foldE (FlushValueBuffer host columnBuffers) [0..<blockCnt] ws1))"

text \<open>Lines 737--742: the lengths of the skip list and data sections.\<close>

definition AddColumnLengths ::
  "StripeFooter \<Rightarrow> nat \<Rightarrow> uint64 \<times> uint64 \<Rightarrow> error + (uint64 \<times> uint64)" where
  "AddColumnLengths stripeFooter columnIndex lengths =
     (case lengths of (skipListLen, dataLen) \<Rightarrow>
     bindE (nth_chk (skipListSizeArray stripeFooter) columnIndex) (\<lambda>skipListSize.
     bindE (nth_chk (existsSizeArray stripeFooter) columnIndex) (\<lambda>existsSize.
     bindE (nth_chk (valueSizeArray stripeFooter) columnIndex) (\<lambda>valueSize.
     Inr (skipListLen + skipListSize, dataLen + existsSize + valueSize)))))"

text \<open>Lines 624--755: \<^verbatim>\<open>FlushStripe\<close>.\<close>

definition FlushStripe ::
  "Host \<Rightarrow> TableWriteState \<Rightarrow> error + (StripeMetadata \<times> TableWriteState)" where
  "FlushStripe host ws =
     bindE (PrepareStripe host ws)
       (\<lambda>(ws1, buffers, skipList, skipListBufferArray, stripeFooter).
     let columnCnt = length (tupleDescriptor ws1);
         stripeFooterBuffer = SerializeStripeFooter host stripeFooter
     in bindE (foldE (FlushSkipListBuffer host skipListBufferArray) [0..<columnCnt] ws1)
          (\<lambda>ws2.
        bindE (foldE (FlushColumnData host buffers (blockCount skipList)) [0..<columnCnt] ws2)
          (\<lambda>ws3.
        bindE (WriteToFile host ws3 stripeFooterBuffer) (\<lambda>ws4.
        bindE (foldE (AddColumnLengths stripeFooter) [0..<columnCnt] (0, 0))
          (\<lambda>(skipListLen, dataLen).
        let stripeMetadata =
              \<lparr>fileOffset = currentFileOffset ws4,
               skipListLength = skipListLen,
               dataLength = dataLen,
               footerLength = of_nat (length stripeFooterBuffer)\<rparr>
        in Inr (stripeMetadata,
                ws4\<lparr>currentFileOffset :=
                      currentFileOffset ws4 + skipListLen + dataLen
                        + of_nat (length stripeFooterBuffer)\<rparr>))))))"

subsection \<open>The write session\<close>

text \<open>Lines 1049--1056: \<^verbatim>\<open>AppendStripeMetadata\<close>.\<close>

definition AppendStripeMetadata :: "TableFooter \<Rightarrow> StripeMetadata \<Rightarrow> TableFooter" where
  "AppendStripeMetadata footer stripeMetadata =
     footer\<lparr>stripeMetadataList := stripeMetadataList footer @ [stripeMetadata]\<rparr>"

text \<open>Lines 188--204: \<^verbatim>\<open>EnsureDataForkExists\<close>.\<close>

definition EnsureDataForkExists :: "Relation \<Rightarrow> bool \<Rightarrow> Relation" where
  "EnsureDataForkExists rel loggingOn =
     (case dataFork rel of
        Some pages \<Rightarrow> rel
      | None \<Rightarrow> rel\<lparr>dataFork := Some [],
                    bufferEvents := bufferEvents rel
                      @ (if loggingOn then [LogSmgrCreate DATA_FORKNUM] else [])\<rparr>)"

text \<open>
  Lines 81--181: \<^verbatim>\<open>CStoreBeginWrite\<close>. The footer is the one found on the footer fork, or a
  new one with the block row count of the call. The block data arrays are sized with the
  block row count of the call. The number of the active block is held in an \<^verbatim>\<open>int32\<close>:
  the low 32 bits of the quotient, which \<^verbatim>\<open>WriteToFile\<close> compares and passes on as a
  \<^verbatim>\<open>BlockNumber\<close>, that is unsigned.
\<close>

definition CStoreBeginWrite ::
  "Host \<Rightarrow> Relation \<Rightarrow> CompressionType \<Rightarrow> nat \<Rightarrow> nat \<Rightarrow> bool \<Rightarrow> TupleDesc \<Rightarrow> TableWriteState" where
  "CStoreBeginWrite host rel compression stripeMaxRows blockRows loggingOn tupleDesc =
     (let footer = (case CStoreReadFooter host rel of
                      None \<Rightarrow> \<lparr>stripeMetadataList = [], blockRowCount = blockRows\<rparr>
                    | Some existing \<Rightarrow> existing);
          offset = (if stripeMetadataList footer \<noteq> []
                    then let lastStripe = last (stripeMetadataList footer);
                             lastStripeSize = skipListLength lastStripe
                               + dataLength lastStripe + footerLength lastStripe
                         in fileOffset lastStripe + lastStripeSize
                    else 0);
          blockNumber = unat (ucast (offset div of_nat CSTORE_PAGE_DATA_SIZE) :: 32 word);
          columnCnt = length tupleDesc;
          comparisonFunctions =
            map (\<lambda>attributeForm.
                   if \<not> attisdropped attributeForm
                   then GetFunctionInfoOrNull host (atttypid attributeForm) else None)
              tupleDesc;
          columnMaskArray = replicate columnCnt True;
          blockData = CreateEmptyBlockDataArray columnCnt columnMaskArray blockRows
      in \<lparr>tableFooter = footer,
          compressionType = compression,
          stripeMaxRowCount = stripeMaxRows,
          logging = loggingOn,
          tupleDescriptor = tupleDesc,
          currentFileOffset = offset,
          comparisonFunctionArray = comparisonFunctions,
          stripeBuffers = None,
          stripeSkipList = None,
          blockDataArray = blockData,
          activeBlockNumber = blockNumber,
          relation = EnsureDataForkExists rel loggingOn\<rparr>)"

text \<open>
  \<^verbatim>\<open>MemoryContextReset\<close> of the stripe context frees the stripe's allocations; the working
  value buffers of the block data live there and are gone until the next stripe is set up.
\<close>

definition ResetStripeContext :: "TableWriteState \<Rightarrow> TableWriteState" where
  "ResetStripeContext ws =
     ws\<lparr>blockDataArray := map (\<lambda>blockData. blockData\<lparr>valueBuffer_bd := None\<rparr>) (blockDataArray ws)\<rparr>"

text \<open>Lines 229--248 of \<^verbatim>\<open>CStoreWriteRow\<close>: the stripe is set up when there is none.\<close>

definition InitStripe :: "TableWriteState \<Rightarrow> error + TableWriteState" where
  "InitStripe ws =
     (let columnCnt = length (tupleDescriptor ws);
          blockRows = blockRowCount (tableFooter ws)
      in if length (blockDataArray ws) < columnCnt then Inl OutOfBounds
         else
           Inr (ws\<lparr>stripeBuffers :=
                     Some (CreateEmptyStripeBuffers (stripeMaxRowCount ws) blockRows columnCnt),
                   stripeSkipList :=
                     Some (CreateEmptyStripeSkipList (stripeMaxRowCount ws) blockRows columnCnt),
                   blockDataArray :=
                     map (\<lambda>blockData. blockData\<lparr>valueBuffer_bd := Some []\<rparr>)
                       (take columnCnt (blockDataArray ws))
                     @ drop columnCnt (blockDataArray ws)\<rparr>))"

text \<open>
  Lines 255--285: one column of the row. A null clears the exists flag of the row; a value
  sets it, is serialized into the value buffer and updates the minimum and maximum of the
  block; the row count of the block's skip node is incremented in both cases.
\<close>

definition WriteColumn ::
  "Host \<Rightarrow> TableWriteState \<Rightarrow> nat \<Rightarrow> nat \<Rightarrow> Datum list \<Rightarrow> bool list \<Rightarrow> nat
     \<Rightarrow> ColumnBlockData list \<times> ColumnBlockSkipNode list list
     \<Rightarrow> error + (ColumnBlockData list \<times> ColumnBlockSkipNode list list)" where
  "WriteColumn host ws blockIndex blockRowIndex columnValues columnNulls columnIndex state =
     (case state of (blockDatas, skipNodes) \<Rightarrow>
     bindE (nth_chk blockDatas columnIndex) (\<lambda>blockData.
     bindE (nth_chk columnNulls columnIndex) (\<lambda>isNull.
     bindE (if isNull then
              bindE (store_chk (existsArray blockData) blockRowIndex False) (\<lambda>flags.
              bindE (nth_chk skipNodes columnIndex) (\<lambda>columnNodes.
              bindE (nth_chk columnNodes blockIndex) (\<lambda>blockSkipNode.
              Inr (blockData\<lparr>existsArray := flags\<rparr>, columnNodes, blockSkipNode))))
            else
              bindE (nth_chk (comparisonFunctionArray ws) columnIndex) (\<lambda>comparisonFunction.
              bindE (nth_chk (tupleDescriptor ws) columnIndex) (\<lambda>attributeForm.
              bindE (store_chk (existsArray blockData) blockRowIndex True) (\<lambda>flags.
              bindE (deref (valueBuffer_bd blockData)) (\<lambda>valueBytes.
              bindE (nth_chk columnValues columnIndex) (\<lambda>columnValue.
              bindE (SerializeSingleDatum host valueBytes columnValue (attbyval attributeForm)
                       (attlen attributeForm) (attalign attributeForm)) (\<lambda>valueBytes1.
              bindE (nth_chk skipNodes columnIndex) (\<lambda>columnNodes.
              bindE (nth_chk columnNodes blockIndex) (\<lambda>blockSkipNode.
              bindE (UpdateBlockSkipNodeMinMax host blockSkipNode columnValue
                       (attbyval attributeForm) (attlen attributeForm)
                       (attcollation attributeForm) comparisonFunction) (\<lambda>blockSkipNode1.
              Inr (blockData\<lparr>existsArray := flags, valueBuffer_bd := Some valueBytes1\<rparr>,
                   columnNodes, blockSkipNode1)))))))))))
       (\<lambda>(blockData1, columnNodes, blockSkipNode1).
     Inr (blockDatas[columnIndex := blockData1],
          skipNodes[columnIndex :=
            columnNodes[blockIndex :=
              blockSkipNode1\<lparr>rowCount := rowCount blockSkipNode1 + 1\<rparr>]])))))"

text \<open>
  Lines 218--296: the row goes into the buffers of the stripe. The block index and the row's
  index in the block come from the block row count of the table footer.
\<close>

definition InsertRow ::
  "Host \<Rightarrow> TableWriteState \<Rightarrow> Datum list \<Rightarrow> bool list \<Rightarrow> error + TableWriteState" where
  "InsertRow host ws columnValues columnNulls =
     (let columnCnt = length (tupleDescriptor ws);
          blockRows = blockRowCount (tableFooter ws)
      in if blockRows = 0 then Inl DivisionByZero
         else
           bindE (if stripeBuffers ws = None then InitStripe ws else Inr ws) (\<lambda>ws1.
           bindE (deref (stripeBuffers ws1)) (\<lambda>buffers.
           bindE (deref (stripeSkipList ws1)) (\<lambda>skipList.
           let blockIndex = rowCount_sb buffers div blockRows;
               blockRowIndex = rowCount_sb buffers mod blockRows
           in bindE (foldE (WriteColumn host ws1 blockIndex blockRowIndex columnValues columnNulls)
                       [0..<columnCnt] (blockDataArray ws1, blockSkipNodeArray skipList))
                (\<lambda>(blockDatas, skipNodes).
              let ws2 = ws1\<lparr>blockDataArray := blockDatas,
                            stripeSkipList :=
                              Some (skipList\<lparr>blockSkipNodeArray := skipNodes,
                                             blockCount := blockIndex + 1\<rparr>)\<rparr>
              in bindE (if blockRowIndex = blockRows - 1
                        then SerializeBlockData host ws2 blockIndex blockRows
                        else Inr ws2) (\<lambda>ws3.
                 bindE (deref (stripeBuffers ws3)) (\<lambda>buffers3.
                 Inr (ws3\<lparr>stripeBuffers :=
                            Some (buffers3\<lparr>rowCount_sb := rowCount_sb buffers3 + 1\<rparr>)\<rparr>))))))))"

text \<open>
  Lines 297--316: the stripe is flushed when it has reached the maximal row count, and its
  metadata is appended to the table footer.
\<close>

definition FlushAndAppend :: "Host \<Rightarrow> TableWriteState \<Rightarrow> error + TableWriteState" where
  "FlushAndAppend host ws =
     bindE (FlushStripe host ws) (\<lambda>(stripeMetadata, ws1).
     let ws2 = ResetStripeContext ws1 in
     Inr (ws2\<lparr>stripeBuffers := None, stripeSkipList := None,
              tableFooter := AppendStripeMetadata (tableFooter ws2) stripeMetadata\<rparr>))"

definition CStoreWriteRow ::
  "Host \<Rightarrow> TableWriteState \<Rightarrow> Datum list \<Rightarrow> bool list \<Rightarrow> error + TableWriteState" where
  "CStoreWriteRow host ws columnValues columnNulls =
     bindE (InsertRow host ws columnValues columnNulls) (\<lambda>ws1.
     bindE (deref (stripeBuffers ws1)) (\<lambda>buffers.
     if stripeMaxRowCount ws1 \<le> rowCount_sb buffers
     then FlushAndAppend host ws1
     else Inr ws1))"

text \<open>
  Lines 327--352: \<^verbatim>\<open>CStoreEndWrite\<close> flushes a pending stripe and writes the footer; the
  write state is freed and the relation is what remains.
\<close>

definition FlushPending :: "Host \<Rightarrow> TableWriteState \<Rightarrow> error + TableWriteState" where
  "FlushPending host ws =
     (if stripeBuffers ws \<noteq> None
      then bindE (FlushStripe host ws) (\<lambda>(stripeMetadata, ws1).
           let ws2 = ResetStripeContext ws1 in
           Inr (ws2\<lparr>tableFooter := AppendStripeMetadata (tableFooter ws2) stripeMetadata\<rparr>))
      else Inr ws)"

definition CStoreEndWrite :: "Host \<Rightarrow> TableWriteState \<Rightarrow> error + Relation" where
  "CStoreEndWrite host ws =
     bindE (FlushPending host ws) (\<lambda>ws1.
     CStoreWriteFooter host (tableFooter ws1) (relation ws1) (logging ws1))"

subsection \<open>Views of the write state\<close>

text \<open>The logical byte stream of the data fork of a session.\<close>

definition dataStream :: "TableWriteState \<Rightarrow> bytes" where
  "dataStream ws = (case dataFork (relation ws) of None \<Rightarrow> [] | Some pages \<Rightarrow> forkStream pages)"

text \<open>
  The data fork exists, its pages are well formed, and no page lies beyond the active block:
  what \<^verbatim>\<open>WriteToFile\<close> writes then goes to the end of the stream.
\<close>

definition forkInv :: "TableWriteState \<Rightarrow> bool" where
  "forkInv ws \<longleftrightarrow>
     (case dataFork (relation ws) of
        None \<Rightarrow> False
      | Some pages \<Rightarrow> list_all wf_page pages \<and> length pages \<le> activeBlockNumber ws + 1)"

text \<open>Two write states that differ in the relation and the active block number only.\<close>

definition sameSession :: "TableWriteState \<Rightarrow> TableWriteState \<Rightarrow> bool" where
  "sameSession ws ws' \<longleftrightarrow>
     tableFooter ws' = tableFooter ws
   \<and> compressionType ws' = compressionType ws
   \<and> stripeMaxRowCount ws' = stripeMaxRowCount ws
   \<and> logging ws' = logging ws
   \<and> tupleDescriptor ws' = tupleDescriptor ws
   \<and> currentFileOffset ws' = currentFileOffset ws
   \<and> comparisonFunctionArray ws' = comparisonFunctionArray ws
   \<and> stripeBuffers ws' = stripeBuffers ws
   \<and> stripeSkipList ws' = stripeSkipList ws
   \<and> blockDataArray ws' = blockDataArray ws"

text \<open>The end of a stripe in the data fork, and stripes that follow one another.\<close>

definition stripeEnd :: "StripeMetadata \<Rightarrow> uint64" where
  "stripeEnd m = fileOffset m + skipListLength m + dataLength m + footerLength m"

fun offsetsChained :: "StripeMetadata list \<Rightarrow> bool" where
  "offsetsChained [] = True"
| "offsetsChained [m] = True"
| "offsetsChained (m # n # rest) = (fileOffset n = stripeEnd m \<and> offsetsChained (n # rest))"

text \<open>
  The cursor of the session is the end of the last stripe of the footer, or 0 when the
  footer has no stripe.
\<close>

definition cursorInv :: "TableWriteState \<Rightarrow> bool" where
  "cursorInv ws \<longleftrightarrow>
     offsetsChained (stripeMetadataList (tableFooter ws))
   \<and> currentFileOffset ws =
       (if stripeMetadataList (tableFooter ws) = [] then 0
        else stripeEnd (last (stripeMetadataList (tableFooter ws))))"

subsection \<open>The rows of a stripe\<close>

text \<open>
  Rows inserted one after the other into the buffers of a stripe (the part of
  \<^verbatim>\<open>CStoreWriteRow\<close> before the stripe is flushed). A row is its values and its null flags.
\<close>

definition InsertRows ::
  "Host \<Rightarrow> TableWriteState \<Rightarrow> (Datum list \<times> bool list) list \<Rightarrow> error + TableWriteState" where
  "InsertRows host ws rows = foldE (\<lambda>row s. InsertRow host s (fst row) (snd row)) rows ws"

text \<open>
  The rows written into a block of a stripe: row \<open>i\<close> of the stripe goes to block
  \<open>i div R\<close>. The values written into a block of a column are those of its rows that are
  not null in the column.
\<close>

definition rowsOfBlock :: "nat \<Rightarrow> 'a list \<Rightarrow> nat \<Rightarrow> 'a list" where
  "rowsOfBlock blockRows rows b =
     map (\<lambda>i. rows ! i) (filter (\<lambda>i. i div blockRows = b) [0..<length rows])"

definition blockValues ::
  "nat \<Rightarrow> (Datum list \<times> bool list) list \<Rightarrow> nat \<Rightarrow> nat \<Rightarrow> Datum list" where
  "blockValues blockRows rows c b =
     map (\<lambda>row. fst row ! c) (filter (\<lambda>row. \<not> snd row ! c) (rowsOfBlock blockRows rows b))"

text \<open>
  A comparison function that implements a total order: the sign of a comparison flips with
  its arguments, and being less or equal is transitive.
\<close>

definition totalOrder :: "(Datum \<Rightarrow> Datum \<Rightarrow> int) \<Rightarrow> bool" where
  "totalOrder f \<longleftrightarrow>
     (\<forall>a b. (f a b < 0) = (0 < f b a))
   \<and> (\<forall>a b c. f a b \<le> 0 \<and> f b c \<le> 0 \<longrightarrow> f a c \<le> 0)"

text \<open>
  The image of a value in a value buffer, in the words of the documentation: the bytes of
  the value, which are the low bytes of the register for a value passed by value and the
  bytes of the object for a value passed by pointer, followed by zero bytes up to the
  alignment of the type.
\<close>

definition datumBytes :: "Datum \<Rightarrow> int \<Rightarrow> bytes" where
  "datumBytes datum typeLength =
     (case datum of
        DatumWord w \<Rightarrow> map (\<lambda>i. ucast (drop_bit (8 * i) w)) [0..<nat typeLength]
      | DatumPointer bs \<Rightarrow> bs)"

definition paddedDatum :: "Datum \<Rightarrow> int \<Rightarrow> char \<Rightarrow> bytes" where
  "paddedDatum datum typeLength typeAlign =
     (let stored = datumBytes datum typeLength
      in stored @ replicate (att_align_nominal (length stored) typeAlign - length stored) 0)"

text \<open>
  What a row does to one column, in the words of the documentation. A null clears the
  exists flag of the row and changes nothing else of the column: the value buffer and the
  minimum and maximum of the skip node stay as they are. A value sets the exists flag and
  its image is appended to the value buffer; where the column has a comparison function,
  the skip node has a minimum and a maximum from then on, which are the value when it is
  the first of the block or compares less than the minimum (greater than the maximum), and
  the ones before otherwise. In both cases the row count of the skip node grows by one.
\<close>

definition columnWritten ::
  "FormData_pg_attribute \<Rightarrow> FmgrInfo option \<Rightarrow> nat \<Rightarrow> Datum \<Rightarrow> bool
     \<Rightarrow> ColumnBlockData \<Rightarrow> ColumnBlockSkipNode \<Rightarrow> ColumnBlockData \<Rightarrow> ColumnBlockSkipNode \<Rightarrow> bool" where
  "columnWritten attributeForm comparisonFunction blockRowIndex columnValue isNull
       blockData node blockData' node' \<longleftrightarrow>
     (if isNull then
        blockData' = blockData\<lparr>existsArray := (existsArray blockData)[blockRowIndex := False]\<rparr>
      \<and> node' = node\<lparr>rowCount := rowCount node + 1\<rparr>
      else
        (case valueBuffer_bd blockData of
           None \<Rightarrow> False
         | Some valueBytes \<Rightarrow>
             blockData' = blockData
               \<lparr>existsArray := (existsArray blockData)[blockRowIndex := True],
                valueBuffer_bd := Some (valueBytes @ paddedDatum columnValue
                                          (attlen attributeForm) (attalign attributeForm))\<rparr>)
      \<and> node' =
          (case comparisonFunction of
             None \<Rightarrow> node\<lparr>rowCount := rowCount node + 1\<rparr>
           | Some compare \<Rightarrow>
               node\<lparr>rowCount := rowCount node + 1,
                    hasMinMax := True,
                    minimumValue :=
                      (if hasMinMax node
                          \<and> \<not> compare (attcollation attributeForm) columnValue (minimumValue node) < 0
                       then minimumValue node else columnValue),
                    maximumValue :=
                      (if hasMinMax node
                          \<and> \<not> 0 < compare (attcollation attributeForm) columnValue (maximumValue node)
                       then maximumValue node else columnValue)\<rparr>))"

text \<open>
  What the completion of a block does to one column, in the words of the documentation:
  the exists flags of the rows of the block are frozen into the exists buffer of the block,
  bit \<open>i mod 8\<close> of byte \<open>i div 8\<close> for row \<open>i\<close> and the bits beyond the rows zero; the
  value buffer is stored in the value buffer of the block, compressed when the codec
  compresses it; and the working value buffer is reset.
\<close>

definition blockFrozen ::
  "Host \<Rightarrow> CompressionType \<Rightarrow> nat \<Rightarrow> ColumnBlockData \<Rightarrow> ColumnBlockBuffers
     \<Rightarrow> ColumnBlockData \<Rightarrow> bool" where
  "blockFrozen host requestedCompressionType rowCnt blockData blockBuffers' blockData' \<longleftrightarrow>
     rowCnt \<le> length (existsArray blockData)
   \<and> (case existsBuffer blockBuffers' of
         None \<Rightarrow> False
       | Some bits \<Rightarrow>
           length bits = (rowCnt + 7) div 8
         \<and> list_all (\<lambda>i. bit (bits ! (i div 8)) (i mod 8)
                            = (i < rowCnt \<and> existsArray blockData ! i))
             [0..<8 * ((rowCnt + 7) div 8)])
   \<and> (case valueBuffer_bd blockData of
         None \<Rightarrow> False
       | Some valueBytes \<Rightarrow>
           (case CompressBuffer host valueBytes requestedCompressionType of
              Some compressed \<Rightarrow>
                valueBuffer blockBuffers' = Some compressed
              \<and> valueCompressionType_bb blockBuffers' = COMPRESSION_PG_LZ
            | None \<Rightarrow>
                valueBuffer blockBuffers' = Some valueBytes
              \<and> valueCompressionType_bb blockBuffers' = COMPRESSION_NONE))
   \<and> blockData' = blockData\<lparr>valueBuffer_bd := Some []\<rparr>"

text \<open>
  What the loop of \<^verbatim>\<open>WriteToFile\<close> has done when it returns, started at a block number and
  a data offset: the fork has grown, its pages are well formed, the pages before the
  starting block are unchanged, every page keeps the payload it had, the bytes added are the
  rest of the data, and when no page lay beyond the starting block the stream of the fork
  has grown by the rest of the data and ends in the active block.
\<close>

definition loopPost ::
  "bytes \<Rightarrow> nat \<Rightarrow> nat \<Rightarrow> Page list \<Rightarrow> nat \<times> Page list \<times> BufferEvent list \<Rightarrow> bool" where
  "loopPost data blockNumber dataOffset pages r \<longleftrightarrow>
     (case r of (active', pages', events') \<Rightarrow>
        length pages \<le> length pages'
      \<and> (\<forall>p \<in> set pages'. wf_page p)
      \<and> (\<forall>i < length pages. i < blockNumber \<longrightarrow> pages' ! i = pages ! i)
      \<and> (\<forall>i < length pages.
            take (length (payload (pages ! i))) (payload (pages' ! i)) = payload (pages ! i))
      \<and> appendedBytes pages pages' = drop dataOffset data
      \<and> (length pages \<le> blockNumber + 1 \<longrightarrow>
            forkStream pages' = forkStream pages @ drop dataOffset data
          \<and> (dataOffset < length data \<longrightarrow> length pages' = active' + 1)))"


text \<open>The data fork is in order and the session is the one of a given write state.\<close>

definition streamInv :: "TableWriteState \<Rightarrow> TableWriteState \<Rightarrow> bool" where
  "streamInv ws0 ws \<longleftrightarrow> forkInv ws \<and> sameSession ws0 ws"


text \<open>
  The invariant of the skip list of a stripe that holds the given rows: every node counts
  the rows of its block, and where the column has a comparison function the node bounds
  the values of its block.
\<close>

definition nodeInv ::
  "TableWriteState \<Rightarrow> (Datum list \<times> bool list) list \<Rightarrow> nat \<Rightarrow> nat \<Rightarrow> ColumnBlockSkipNode \<Rightarrow> bool" where
  "nodeInv s rows c b node \<longleftrightarrow>
     rowCount node = length (rowsOfBlock (blockRowCount (tableFooter s)) rows b)
   \<and> (\<forall>f. c < length (comparisonFunctionArray s) \<and> comparisonFunctionArray s ! c = Some f \<longrightarrow>
         (if hasMinMax node
          then totalOrder (f (attcollation (tupleDescriptor s ! c))) \<longrightarrow>
                 list_all (\<lambda>v. f (attcollation (tupleDescriptor s ! c)) (minimumValue node) v \<le> 0
                             \<and> 0 \<le> f (attcollation (tupleDescriptor s ! c)) (maximumValue node) v)
                   (blockValues (blockRowCount (tableFooter s)) rows c b)
          else blockValues (blockRowCount (tableFooter s)) rows c b = []))"

definition stripeRowsInv :: "TableWriteState \<Rightarrow> (Datum list \<times> bool list) list \<Rightarrow> bool" where
  "stripeRowsInv s rows \<longleftrightarrow>
     (\<exists>sb sl. stripeBuffers s = Some sb \<and> stripeSkipList s = Some sl
        \<and> rowCount_sb sb = length rows
        \<and> (\<forall>c < length (tupleDescriptor s). c < length (blockSkipNodeArray sl) \<longrightarrow>
             (\<forall>b < length (blockSkipNodeArray sl ! c).
                nodeInv s rows c b (blockSkipNodeArray sl ! c ! b))))"

text \<open>
  One column of a row, as \<^verbatim>\<open>WriteColumn\<close> computes it from the serializer of values and
  the update of the minimum and maximum.
\<close>

definition columnStep ::
  "Host \<Rightarrow> FormData_pg_attribute \<Rightarrow> FmgrInfo option \<Rightarrow> nat \<Rightarrow> Datum \<Rightarrow> bool
     \<Rightarrow> ColumnBlockData \<Rightarrow> ColumnBlockSkipNode \<Rightarrow> ColumnBlockData \<Rightarrow> ColumnBlockSkipNode \<Rightarrow> bool" where
  "columnStep host attributeForm comparisonFunction blockRowIndex columnValue isNull
       blockData node blockData' node' \<longleftrightarrow>
     (if isNull then
        blockData' = blockData\<lparr>existsArray := (existsArray blockData)[blockRowIndex := False]\<rparr>
      \<and> node' = node\<lparr>rowCount := rowCount node + 1\<rparr>
      else
        (case valueBuffer_bd blockData of
           None \<Rightarrow> False
         | Some valueBytes \<Rightarrow>
             (case SerializeSingleDatum host valueBytes columnValue (attbyval attributeForm)
                     (attlen attributeForm) (attalign attributeForm) of
                Inl e \<Rightarrow> False
              | Inr valueBytes1 \<Rightarrow>
                  blockData' = blockData\<lparr>existsArray := (existsArray blockData)[blockRowIndex := True],
                                         valueBuffer_bd := Some valueBytes1\<rparr>))
      \<and> (case UpdateBlockSkipNodeMinMax host node columnValue (attbyval attributeForm)
                 (attlen attributeForm) (attcollation attributeForm) comparisonFunction of
            Inl e \<Rightarrow> False
          | Inr node1 \<Rightarrow> node' = node1\<lparr>rowCount := rowCount node + 1\<rparr>))"

subsection \<open>Concrete inputs\<close>

text \<open>A toy serializer and small relations, on which the theorems are instantiated.\<close>

definition demoHost :: Host where
  "demoHost = \<lparr>USE_ASSERT_CHECKING = False,
     CStoreReadFooter = (\<lambda>rel. None),
     GetFunctionInfoOrNull = (\<lambda>typeId. None),
     CompressBuffer = (\<lambda>input kind. None),
     VARSIZE_ANY = length,
     SerializeColumnSkipList = (\<lambda>nodes n byval len. replicate n 1),
     SerializeStripeFooter = (\<lambda>sf. replicate (columnCount_sf sf) 2),
     SerializeTableFooter = (\<lambda>tf. replicate (length (stripeMetadataList tf)) 3),
     SerializePostScript = (\<lambda>n. [7, 7]),
     SerializeTableFooterMetadata = (\<lambda>s c. [ucast s, ucast c]),
     DeserializeTableFooterMetadata =
       (\<lambda>content n. if n = 2 then (ucast (content 0), ucast (content 1)) else (0, 0))\<rparr>"

definition demoFooter :: TableFooter where
  "demoFooter = \<lparr>stripeMetadataList = [], blockRowCount = 2\<rparr>"

definition demoHeaderPage :: Page where
  "demoHeaderPage = PageInit\<lparr>pd_lower := SizeOfPageHeaderData + 2,
                              contents := memcpy (contents PageInit) 0 [1, 1]\<rparr>"

definition demoRelation :: Relation where
  "demoRelation = \<lparr>dataFork = None, footerFork = [demoHeaderPage, PageInit], bufferEvents = []\<rparr>"





definition demoTupleDesc :: TupleDesc where
  "demoTupleDesc = [\<lparr>attisdropped = False, atttypid = 23, attbyval = True, attlen = 4,
                     attcollation = 0, attalign = CHR ''i''\<rparr>]"

definition demoState :: TableWriteState where
  "demoState = CStoreBeginWrite demoHost
                 \<lparr>dataFork = Some [PageInit], footerFork = [], bufferEvents = []\<rparr>
                 COMPRESSION_NONE 2 2 False demoTupleDesc"

definition noColumnsState :: TableWriteState where
  "noColumnsState = CStoreBeginWrite demoHost
                      \<lparr>dataFork = None, footerFork = [], bufferEvents = []\<rparr>
                      COMPRESSION_NONE 1 1 False []"

definition demoStripes :: "StripeMetadata list" where
  "demoStripes = [\<lparr>fileOffset = 0, skipListLength = 1, dataLength = 2, footerLength = 3\<rparr>,
                  \<lparr>fileOffset = 6, skipListLength = 1, dataLength = 1, footerLength = 1\<rparr>]"

definition resumeHost :: Host where
  "resumeHost = demoHost\<lparr>CStoreReadFooter :=
                  (\<lambda>rel. Some \<lparr>stripeMetadataList = demoStripes, blockRowCount = 4\<rparr>)\<rparr>"

text \<open>
  A comparison function in the manner of \<^verbatim>\<open>btint4cmp\<close>: the datums are compared as signed
  32-bit integers; an object behind a pointer counts as 0.
\<close>

definition datumInt4 :: "Datum \<Rightarrow> int" where
  "datumInt4 d = (case d of DatumWord w \<Rightarrow> sint (ucast w :: 32 word) | DatumPointer bs \<Rightarrow> 0)"

definition btint4cmp :: FmgrInfo where
  "btint4cmp collation a b =
     (if datumInt4 a > datumInt4 b then 1 else if datumInt4 a = datumInt4 b then 0 else - 1)"

definition compareHost :: Host where
  "compareHost = demoHost\<lparr>GetFunctionInfoOrNull := (\<lambda>typeId. Some btint4cmp)\<rparr>"

definition compareState :: TableWriteState where
  "compareState = CStoreBeginWrite compareHost
                    \<lparr>dataFork = Some [PageInit], footerFork = [], bufferEvents = []\<rparr>
                    COMPRESSION_NONE 10 2 False demoTupleDesc"

definition demoRows :: "(Datum list \<times> bool list) list" where
  "demoRows = [([DatumWord 5], [False]), ([DatumWord 0], [True]),
               ([DatumWord 3], [False]), ([DatumWord 9], [False])]"

definition tieNode :: ColumnBlockSkipNode where
  "tieNode = emptySkipNode\<lparr>rowCount := 1, hasMinMax := True,
                            minimumValue := DatumWord 3, maximumValue := DatumWord 3\<rparr>"

text \<open>
  A session over a footer fork that holds a footer with block row count 4, begun with
  block row count 2.
\<close>

definition resumeState :: TableWriteState where
  "resumeState = CStoreBeginWrite resumeHost demoRelation COMPRESSION_NONE 10 2 False demoTupleDesc"

section \<open>Properties\<close>

subsection \<open>The error monad\<close>

lemma bindE_Inr [simp]: "bindE (Inr x) f = f x"
  by (simp add: bindE_def)

lemma bindE_Inl [simp]: "bindE (Inl e) f = Inl e"
  by (simp add: bindE_def)

lemma bindE_eq_Inr: "bindE m f = Inr y \<longleftrightarrow> (\<exists>x. m = Inr x \<and> f x = Inr y)"
  by (cases m) simp_all

lemma footerTarget_mono: "footerTarget orig ns actual (Suc cur) b \<Longrightarrow> footerTarget orig ns actual cur b"
  unfolding footerTarget_def by (metis Suc_leD)

lemma WriteFooterPages_effect:
  "WriteFooterPages w l orig ns actual cur off (pages, events) = Inr (pages', events') \<Longrightarrow>
   orig \<le> length pages \<Longrightarrow> 0 < length pages \<Longrightarrow>
   (\<exists>new. events' = events @ new \<and>
      (\<forall>e \<in> set new. \<exists>b. eventBlock e = Some b \<and> footerTarget orig ns actual cur b)) \<and>
   length pages \<le> length pages' \<and>
   (\<forall>i < length pages. \<not> footerTarget orig ns actual cur i \<longrightarrow> pages' ! i = pages ! i)"
proof (induction "actual - cur" arbitrary: cur off pages events)
  case 0
  then show ?case by (simp add: WriteFooterPages.simps)
next
  case (Suc n)
  note prems1 = Suc.prems
  show ?case
  proof -
    have True: "cur < actual" using Suc.hyps(2) by simp
    define bn where "bn = (of_nat cur + ns :: uint32)"
    define isNew where "isNew = (orig \<le> unat bn)"
    define abn where "abn = (if isNew then length pages else unat bn)"
    define pages0 where "pages0 = (if isNew then pages @ [ZeroPage] else pages)"
    define remaining where "remaining = int (length w) - off"
    define copySize where "copySize = (if remaining \<le> int CSTORE_PAGE_DATA_SIZE then remaining else int CSTORE_PAGE_DATA_SIZE)"
    define page where "page = PageInit
                       \<lparr>pd_lower := SizeOfPageHeaderData + nat copySize,
                        contents := memcpy (contents PageInit) 0
                                      (take (nat copySize) (drop (nat off) w))\<rparr>"
    define events0 where "events0 = events @ [MarkBufferDirty FOOTER_FORKNUM abn]
                                 @ (if l then [LogNewPage FOOTER_FORKNUM abn] else [])"
    note defs = bn_def isNew_def abn_def pages0_def remaining_def copySize_def page_def events0_def
    from prems1(1) True
    have c1: "\<not> (\<not> isNew \<and> unat bn = 0)" and c2: "\<not> (\<not> isNew \<and> length pages \<le> unat bn)"
      and c3: "\<not> (copySize < 0 \<or> off < 0)"
      and rec: "WriteFooterPages w l orig ns actual (cur + 1) (off + copySize)
                  (pages0[abn := page], events0) = Inr (pages', events')"
      unfolding defs by (auto simp: WriteFooterPages.simps[of w l orig ns actual cur] Let_def split: if_splits)
    have tgt: "footerTarget orig ns actual cur abn"
      using c1 c2 True prems1(2,3) unfolding footerTarget_def abn_def isNew_def bn_def
      by (auto intro: exI[of _ cur])
    have len0: "length pages \<le> length (pages0[abn := page])" "orig \<le> length (pages0[abn := page])"
      "0 < length (pages0[abn := page])"
      using prems1(2,3) by (auto simp: pages0_def)
    have IH: "(\<exists>new. events' = events0 @ new \<and>
      (\<forall>e \<in> set new. \<exists>b. eventBlock e = Some b \<and> footerTarget orig ns actual (cur + 1) b)) \<and>
        length (pages0[abn := page]) \<le> length pages' \<and>
       (\<forall>i < length (pages0[abn := page]). \<not> footerTarget orig ns actual (cur + 1) i \<longrightarrow> pages' ! i = (pages0[abn := page]) ! i)"
      apply (rule Suc.hyps(1)[OF _ rec])
      using Suc.hyps(2) len0 by auto
    then obtain new where new: "events' = events0 @ new"
      "\<forall>e \<in> set new. \<exists>b. eventBlock e = Some b \<and> footerTarget orig ns actual (cur + 1) b"
      and len': "length (pages0[abn := page]) \<le> length pages'"
      and same: "\<forall>i < length (pages0[abn := page]). \<not> footerTarget orig ns actual (cur + 1) i \<longrightarrow> pages' ! i = (pages0[abn := page]) ! i"
      by blast
    have A: "\<exists>new'. events' = events @ new' \<and>
      (\<forall>e \<in> set new'. \<exists>b. eventBlock e = Some b \<and> footerTarget orig ns actual cur b)"
      apply (rule exI[of _ "[MarkBufferDirty FOOTER_FORKNUM abn]
                                 @ (if l then [LogNewPage FOOTER_FORKNUM abn] else []) @ new"])
      using new tgt by (auto simp: events0_def dest: footerTarget_mono)
    have C: "\<forall>i < length pages. \<not> footerTarget orig ns actual cur i \<longrightarrow> pages' ! i = pages ! i"
    proof (intro allI impI)
      fix i assume i: "i < length pages" and nt: "\<not> footerTarget orig ns actual cur i"
      have "\<not> footerTarget orig ns actual (cur + 1) i" using nt footerTarget_mono by auto
      moreover have "i < length (pages0[abn := page])" using i len0 by simp
      ultimately have "pages' ! i = (pages0[abn := page]) ! i" using same by blast
      moreover have "i \<noteq> abn" using nt tgt by auto
      ultimately show "pages' ! i = pages ! i" using i by (auto simp: pages0_def nth_append)
    qed
    from A len0 len' C show ?thesis by simp
  qed
qed

lemma length_int32_bytes [simp]: "length (int32_bytes w) = 4"
  by (simp add: int32_bytes_def)


lemma appendBinaryStringInfo_Inr:
  "appendBinaryStringInfo str data = Inr r \<longleftrightarrow> r = str @ data \<and> length str + length data < MaxAllocSize"
  by (auto simp: appendBinaryStringInfo_def)

lemma Assert_Inr: "Assert host c = Inr u \<longleftrightarrow> (USE_ASSERT_CHECKING host \<longrightarrow> c)"
  by (auto simp: Assert_def)

lemma LayoutWholeFooter_Inr:
  assumes "LayoutWholeFooter host footer = Inr w"
  shows "w = int32_bytes 0 @ SerializeTableFooter host footer
             @ SerializePostScript host (length (SerializeTableFooter host footer))
             @ [of_nat (length (SerializePostScript host (length (SerializeTableFooter host footer))))]"
    and "length w < MaxAllocSize"
    and "USE_ASSERT_CHECKING host \<Longrightarrow>
           length (SerializePostScript host (length (SerializeTableFooter host footer))) < CSTORE_POSTSCRIPT_SIZE_MAX"
  using assms
  by (auto simp: LayoutWholeFooter_def Let_def bindE_eq_Inr appendBinaryStringInfo_Inr Assert_Inr
      CSTORE_POSTSCRIPT_SIZE_LENGTH_def)

lemma payload_memcpy:
  "payload (PageInit\<lparr>pd_lower := SizeOfPageHeaderData + length bs,
                     contents := memcpy c 0 bs\<rparr>) = bs"
  by (auto simp: payload_def memcpy_def intro: nth_equalityI)

lemma unat_ActualBlockCount:
  assumes "0 < length w" "length w < MaxAllocSize"
  shows "unat (ActualBlockCount w) = (length w - 1) div CSTORE_PAGE_DATA_SIZE + 1"
    and "unat (ActualBlockCount w) \<le> length w"
proof -
  let ?n = "(length w - 1) div CSTORE_PAGE_DATA_SIZE + 1"
  have le: "?n \<le> length w"
    using assms(1) div_le_dividend[of "length w - 1" CSTORE_PAGE_DATA_SIZE] by linarith
  have "int (length w) - 1 = int (length w - 1)"
    using assms(1) by (cases w) auto
  then have eq: "(int (length w) - 1) div int CSTORE_PAGE_DATA_SIZE + 1 = int ?n"
    by (simp only: zdiv_int of_nat_add of_nat_1)
  have "ActualBlockCount w = of_nat ?n"
    unfolding ActualBlockCount_def eq by (simp only: of_int_of_nat_eq)
  then have "unat (ActualBlockCount w) = ?n mod 2 ^ LENGTH(32)"
    by (simp only: unat_of_nat)
  moreover have "?n < 2 ^ LENGTH(32)"
    using le assms(2) by (simp add: MaxAllocSize_def)
  ultimately have "unat (ActualBlockCount w) = ?n"
    by (simp only: mod_less)
  then show "unat (ActualBlockCount w) = ?n" and "unat (ActualBlockCount w) \<le> length w"
    using le by simp_all
qed

lemma CStoreWriteFooter_Inr:
  assumes "CStoreWriteFooter host footer rel l = Inr rel'"
  obtains w0 pages1 events1 where
    "LayoutWholeFooter host footer = Inr w0"
    "WriteFooterPages (PatchDataLength w0) l (length (footerFork rel))
        (NewStartingBlock host (length (footerFork rel))
           ((if footerFork rel \<noteq> [] then footerFork rel else footerFork rel @ [ZeroPage]) ! 0)
           (ActualBlockCount w0))
        (unat (ActualBlockCount w0)) 0 0
        (if footerFork rel \<noteq> [] then footerFork rel else footerFork rel @ [ZeroPage], bufferEvents rel)
      = Inr (pages1, events1)"
    "length (SerializeTableFooterMetadata host
        (NewStartingBlock host (length (footerFork rel))
           ((if footerFork rel \<noteq> [] then footerFork rel else footerFork rel @ [ZeroPage]) ! 0)
           (ActualBlockCount w0)) (ActualBlockCount w0)) \<le> CSTORE_PAGE_DATA_SIZE"
    "footerFork rel' = pages1[0 := PageInit
          \<lparr>pd_lower := SizeOfPageHeaderData + length (SerializeTableFooterMetadata host
        (NewStartingBlock host (length (footerFork rel))
           ((if footerFork rel \<noteq> [] then footerFork rel else footerFork rel @ [ZeroPage]) ! 0)
           (ActualBlockCount w0)) (ActualBlockCount w0)),
           contents := memcpy (contents PageInit) 0 (SerializeTableFooterMetadata host
        (NewStartingBlock host (length (footerFork rel))
           ((if footerFork rel \<noteq> [] then footerFork rel else footerFork rel @ [ZeroPage]) ! 0)
           (ActualBlockCount w0)) (ActualBlockCount w0))\<rparr>]"
    "bufferEvents rel' = events1 @ [MarkBufferDirty FOOTER_FORKNUM 0, LogNewPage FOOTER_FORKNUM 0]"
    "dataFork rel' = dataFork rel"
  using assms unfolding CStoreWriteFooter_def Let_def
  by (auto simp: bindE_eq_Inr split: if_splits prod.splits)

lemma demo_layout: "LayoutWholeFooter demoHost demoFooter = Inr [0,0,0,0,7,7,2]"
  by (simp add: LayoutWholeFooter_def demoHost_def demoFooter_def appendBinaryStringInfo_def
      int32_bytes_def Assert_def MaxAllocSize_def CSTORE_POSTSCRIPT_SIZE_LENGTH_def)

lemma demo_parse: "ParseHeaderPage demoHost demoHeaderPage = (1, 1)"
  by (simp add: ParseHeaderPage_def demoHost_def demoHeaderPage_def PageInit_def memcpy_def
      SizeOfPageHeaderData_def)

lemma demo_actual: "ActualBlockCount [0,0,0,0,7,7,2] = 1"
  by (simp add: ActualBlockCount_def CSTORE_PAGE_DATA_SIZE_def BLCKSZ_def SizeOfPageHeaderData_def)

lemma demo_write: "\<exists>rel'. CStoreWriteFooter demoHost demoFooter demoRelation False = Inr rel'"
  apply (simp add: CStoreWriteFooter_def demo_layout demo_actual NewStartingBlock_def Let_def)
  apply (simp add: demoRelation_def demo_parse)
  apply (simp add: WriteFooterPages.simps Let_def PatchDataLength_def)
  apply (simp add: demoHost_def CSTORE_PAGE_DATA_SIZE_def BLCKSZ_def SizeOfPageHeaderData_def)
  done

lemma unat_of_nat_add:
  assumes "k + unat x < 2 ^ 32"
  shows "unat (of_nat k + x :: uint32) = k + unat x"
proof -
  have k: "unat (of_nat k :: uint32) = k"
    using assms by (simp add: unat_of_nat)
  then have "unat (of_nat k :: uint32) + unat x < 2 ^ LENGTH(32)"
    using assms by simp
  then have "unat (of_nat k + x) = unat (of_nat k :: uint32) + unat x"
    by (simp only: unat_add_lem)
  with k show ?thesis by simp
qed

lemma footerTarget_outside_range:
  fixes s c ns actual :: uint32
  assumes run: "LayoutWholeFooter host footer = Inr w0"
    and actual: "actual = ActualBlockCount w0"
    and ns: "ns = (if s = 0 then 1 else if actual < s then 1 else s + c)"
    and valid: "s \<noteq> 0" "unat s + unat c \<le> orig" "orig < 2 ^ 31"
    and tgt: "footerTarget orig ns (unat actual) 0 b"
  shows "\<not> (unat s \<le> b \<and> b < unat s + unat c)"
proof -
  have w0: "0 < length w0" "length w0 < MaxAllocSize"
    using LayoutWholeFooter_Inr(1,2)[OF run] by simp_all
  have abound: "unat actual < 2 ^ 30"
    using unat_ActualBlockCount(2)[OF w0] w0(2) by (simp add: actual MaxAllocSize_def)
  from tgt consider (inplace) k where "k < unat actual" "b = unat (of_nat k + ns)" | (new) "orig \<le> b"
    unfolding footerTarget_def by blast
  then show ?thesis
  proof cases
    case new
    with valid(2) show ?thesis by simp
  next
    case inplace
    show ?thesis
    proof (cases "actual < s")
      case True
      then have "ns = 1" using ns by simp
      then have "b = k + 1"
        using inplace abound unat_of_nat_add[of k 1] by simp
      moreover have "unat actual < unat s" using True by (simp add: word_less_nat_alt)
      ultimately show ?thesis using inplace(1) by simp
    next
      case False
      then have nsc: "ns = s + c" using ns valid(1) by simp
      have "unat s + unat c < 2 ^ LENGTH(32)" using valid(2,3) by simp
      then have sc: "unat (s + c) = unat s + unat c" by (simp only: unat_add_lem)
      have "b = k + unat (s + c)"
        unfolding inplace(2) nsc
        by (rule unat_of_nat_add) (use sc inplace(1) abound valid(2,3) in simp)
      then show ?thesis using sc by simp
    qed
  qed
qed

subsection \<open>The footer fork is written before the header page\<close>

text \<open>
  Claim C4. When the header page locates a valid footer (a nonzero starting block and a
  range that lies inside the fork), every page that \<^verbatim>\<open>CStoreWriteFooter\<close> marks dirty
  before the header page lies outside that range and is not block 0; the header page is
  marked dirty and logged last; and the pages of the range are the same after the call as
  before it.
\<close>

theorem footer_written_before_header_swap:
  assumes run: "CStoreWriteFooter host footer rel loggingEnabled = Inr rel'"
    and nonempty: "footerFork rel \<noteq> []"
    and header: "ParseHeaderPage host (footerFork rel ! 0) = (curStartingBlock, curBlockCount)"
    and valid: "curStartingBlock \<noteq> 0"
      "unat curStartingBlock + unat curBlockCount \<le> length (footerFork rel)"
      "length (footerFork rel) < 2 ^ 31"
  shows "\<exists>writes. bufferEvents rel' =
            bufferEvents rel @ writes @ [MarkBufferDirty FOOTER_FORKNUM 0, LogNewPage FOOTER_FORKNUM 0]
          \<and> (\<forall>e \<in> set writes. \<exists>b. eventBlock e = Some b \<and> b \<noteq> 0
                 \<and> \<not> (unat curStartingBlock \<le> b \<and> b < unat curStartingBlock + unat curBlockCount))
          \<and> (\<forall>b. unat curStartingBlock \<le> b \<and> b < unat curStartingBlock + unat curBlockCount
                 \<longrightarrow> footerFork rel' ! b = footerFork rel ! b)"
proof -
  from run obtain w0 pages1 events1 where
    lay: "LayoutWholeFooter host footer = Inr w0" and
    loop: "WriteFooterPages (PatchDataLength w0) loggingEnabled (length (footerFork rel))
        (NewStartingBlock host (length (footerFork rel)) (footerFork rel ! 0) (ActualBlockCount w0))
        (unat (ActualBlockCount w0)) 0 0 (footerFork rel, bufferEvents rel) = Inr (pages1, events1)" and
    fork': "\<exists>hp. footerFork rel' = pages1[0 := hp]" and
    events': "bufferEvents rel' = events1 @ [MarkBufferDirty FOOTER_FORKNUM 0, LogNewPage FOOTER_FORKNUM 0]"
    using nonempty by (elim CStoreWriteFooter_Inr) auto
  let ?orig = "length (footerFork rel)"
  let ?actual = "ActualBlockCount w0"
  let ?ns = "NewStartingBlock host ?orig (footerFork rel ! 0) ?actual"
  have ns: "?ns = (if curStartingBlock = 0 then 1 else if ?actual < curStartingBlock then 1
                   else curStartingBlock + curBlockCount)"
    using nonempty header by (simp add: NewStartingBlock_def)
  have outside: "\<not> (unat curStartingBlock \<le> b \<and> b < unat curStartingBlock + unat curBlockCount)"
    if "footerTarget ?orig ?ns (unat ?actual) 0 b" for b
    using footerTarget_outside_range[OF lay refl ns valid that] .
  from WriteFooterPages_effect[OF loop] nonempty
  obtain writes where w: "events1 = bufferEvents rel @ writes"
    "\<forall>e \<in> set writes. \<exists>b. eventBlock e = Some b \<and> footerTarget ?orig ?ns (unat ?actual) 0 b"
    and same: "\<forall>i < ?orig. \<not> footerTarget ?orig ?ns (unat ?actual) 0 i \<longrightarrow> pages1 ! i = footerFork rel ! i"
    by auto
  have 1: "bufferEvents rel' =
            bufferEvents rel @ writes @ [MarkBufferDirty FOOTER_FORKNUM 0, LogNewPage FOOTER_FORKNUM 0]"
    using events' w(1) by simp
  have 2: "\<forall>e \<in> set writes. \<exists>b. eventBlock e = Some b \<and> b \<noteq> 0
                 \<and> \<not> (unat curStartingBlock \<le> b \<and> b < unat curStartingBlock + unat curBlockCount)"
    using w(2) outside unfolding footerTarget_def by blast
  have 3: "footerFork rel' ! b = footerFork rel ! b"
    if b: "unat curStartingBlock \<le> b \<and> b < unat curStartingBlock + unat curBlockCount" for b
  proof -
    have "b \<noteq> 0" using b valid(1) unat_gt_0[of curStartingBlock] by auto
    moreover have "b < ?orig" using b valid(2) by simp
    moreover have "\<not> footerTarget ?orig ?ns (unat ?actual) 0 b" using outside b by blast
    ultimately show ?thesis using same fork' by auto
  qed
  from 1 2 3 show ?thesis by blast
qed

theorem footer_written_before_header_swap_witness:
  "\<exists>rel'. CStoreWriteFooter demoHost demoFooter demoRelation False = Inr rel'
      \<and> footerFork demoRelation \<noteq> []
      \<and> ParseHeaderPage demoHost (footerFork demoRelation ! 0) = (1, 1)
      \<and> (1 :: uint32) \<noteq> 0
      \<and> unat (1 :: uint32) + unat (1 :: uint32) \<le> length (footerFork demoRelation)
      \<and> length (footerFork demoRelation) < 2 ^ 31
      \<and> (\<exists>writes. bufferEvents rel' =
            bufferEvents demoRelation @ writes
              @ [MarkBufferDirty FOOTER_FORKNUM 0, LogNewPage FOOTER_FORKNUM 0]
          \<and> (\<forall>e \<in> set writes. \<exists>b. eventBlock e = Some b \<and> b \<noteq> 0
                 \<and> \<not> (unat (1 :: uint32) \<le> b \<and> b < unat (1 :: uint32) + unat (1 :: uint32)))
          \<and> (\<forall>b. unat (1 :: uint32) \<le> b \<and> b < unat (1 :: uint32) + unat (1 :: uint32)
                 \<longrightarrow> footerFork rel' ! b = footerFork demoRelation ! b))"
proof -
  obtain rel' where run: "CStoreWriteFooter demoHost demoFooter demoRelation False = Inr rel'"
    using demo_write by blast
  have ne: "footerFork demoRelation \<noteq> []"
    by (simp add: demoRelation_def)
  have hdr: "ParseHeaderPage demoHost (footerFork demoRelation ! 0) = (1, 1)"
    by (simp add: demoRelation_def demo_parse)
  have v: "(1 :: uint32) \<noteq> 0" "unat (1 :: uint32) + unat (1 :: uint32) \<le> length (footerFork demoRelation)"
    "length (footerFork demoRelation) < 2 ^ 31"
    by (simp_all add: demoRelation_def)
  from footer_written_before_header_swap[OF run ne hdr v] run ne hdr v
  show ?thesis by blast
qed

subsection \<open>The starting block of the new footer\<close>

text \<open>
  Claim C5. The header page that \<^verbatim>\<open>CStoreWriteFooter\<close> writes records the starting block
  chosen by the four cases: block 1 when the fork is empty, block 1 when the parsed
  starting block is 0 (which is also what a header that fails to parse yields), block 1 when
  the new block count is less than the current starting block, and the block after the
  current range otherwise. The new range is disjoint from a valid current range.
\<close>

theorem new_footer_starting_block:
  assumes run: "CStoreWriteFooter host footer rel loggingEnabled = Inr rel'"
  shows "\<exists>w0 newStart.
           LayoutWholeFooter host footer = Inr w0
         \<and> newStart =
             (if footerFork rel = [] then 1
              else let (s, c) = ParseHeaderPage host (footerFork rel ! 0)
                   in if s = 0 then 1
                      else if ActualBlockCount w0 < s then 1
                      else s + c)
         \<and> 1 \<le> unat (ActualBlockCount w0)
         \<and> payload (footerFork rel' ! 0)
             = SerializeTableFooterMetadata host newStart (ActualBlockCount w0)
         \<and> (\<forall>s c. footerFork rel \<noteq> []
                 \<and> ParseHeaderPage host (footerFork rel ! 0) = (s, c)
                 \<and> s \<noteq> 0 \<and> unat s + unat c \<le> length (footerFork rel)
                 \<and> length (footerFork rel) < 2 ^ 31
               \<longrightarrow> {unat newStart ..< unat newStart + unat (ActualBlockCount w0)}
                     \<inter> {unat s ..< unat s + unat c} = {})"
proof -
  let ?pages0 = "if footerFork rel \<noteq> [] then footerFork rel else footerFork rel @ [ZeroPage]"
  from run obtain w0 pages1 events1 where
    lay: "LayoutWholeFooter host footer = Inr w0" and
    loop: "WriteFooterPages (PatchDataLength w0) loggingEnabled (length (footerFork rel))
        (NewStartingBlock host (length (footerFork rel)) (?pages0 ! 0) (ActualBlockCount w0))
        (unat (ActualBlockCount w0)) 0 0 (?pages0, bufferEvents rel) = Inr (pages1, events1)" and
    md: "length (SerializeTableFooterMetadata host
        (NewStartingBlock host (length (footerFork rel)) (?pages0 ! 0) (ActualBlockCount w0))
        (ActualBlockCount w0)) \<le> CSTORE_PAGE_DATA_SIZE" and
    fork': "footerFork rel' = pages1[0 := PageInit
          \<lparr>pd_lower := SizeOfPageHeaderData + length (SerializeTableFooterMetadata host
        (NewStartingBlock host (length (footerFork rel)) (?pages0 ! 0) (ActualBlockCount w0))
           (ActualBlockCount w0)),
           contents := memcpy (contents PageInit) 0 (SerializeTableFooterMetadata host
        (NewStartingBlock host (length (footerFork rel)) (?pages0 ! 0) (ActualBlockCount w0))
           (ActualBlockCount w0))\<rparr>]"
    by (elim CStoreWriteFooter_Inr)
  let ?actual = "ActualBlockCount w0"
  let ?ns = "NewStartingBlock host (length (footerFork rel)) (?pages0 ! 0) ?actual"
  have w0: "0 < length w0" "length w0 < MaxAllocSize"
    using LayoutWholeFooter_Inr(1,2)[OF lay] by simp_all
  have actual: "1 \<le> unat ?actual" "unat ?actual < 2 ^ 30"
    using unat_ActualBlockCount[OF w0] w0(2) by (simp_all add: MaxAllocSize_def)
  have ns: "?ns = (if footerFork rel = [] then 1
              else let (s, c) = ParseHeaderPage host (footerFork rel ! 0)
                   in if s = 0 then 1 else if ?actual < s then 1 else s + c)"
    by (simp add: NewStartingBlock_def)
  have p0: "length (footerFork rel) \<le> length ?pages0" "0 < length ?pages0" by auto
  from WriteFooterPages_effect[OF loop p0] p0(2) have "0 < length pages1" by linarith
  then have hdr: "payload (footerFork rel' ! 0) = SerializeTableFooterMetadata host ?ns ?actual"
    unfolding fork' by (simp add: payload_memcpy)
  have disj: "{unat ?ns ..< unat ?ns + unat ?actual} \<inter> {unat s ..< unat s + unat c} = {}"
    if ne: "footerFork rel \<noteq> []" and p: "ParseHeaderPage host (footerFork rel ! 0) = (s, c)"
      and v: "s \<noteq> 0" "unat s + unat c \<le> length (footerFork rel)" "length (footerFork rel) < 2 ^ 31"
    for s c
  proof (cases "?actual < s")
    case True
    then have "?ns = 1" using ns ne p by simp
    moreover have "unat ?actual < unat s" using True by (simp add: word_less_nat_alt)
    ultimately show ?thesis by auto
  next
    case False
    then have "?ns = s + c" using ns ne p v(1) by simp
    moreover have "unat s + unat c < 2 ^ LENGTH(32)" using v(2,3) by simp
    then have "unat (s + c) = unat s + unat c" by (simp only: unat_add_lem)
    ultimately show ?thesis by auto
  qed
  from lay ns actual(1) hdr disj show ?thesis by blast
qed

theorem new_footer_starting_block_witness:
  "\<exists>rel'. CStoreWriteFooter demoHost demoFooter demoRelation False = Inr rel'
     \<and> (\<exists>w0 newStart.
           LayoutWholeFooter demoHost demoFooter = Inr w0
         \<and> newStart =
             (if footerFork demoRelation = [] then 1
              else let (s, c) = ParseHeaderPage demoHost (footerFork demoRelation ! 0)
                   in if s = 0 then 1
                      else if ActualBlockCount w0 < s then 1
                      else s + c)
         \<and> newStart = 2
         \<and> payload (footerFork rel' ! 0)
             = SerializeTableFooterMetadata demoHost newStart (ActualBlockCount w0)
         \<and> footerFork demoRelation \<noteq> []
         \<and> ParseHeaderPage demoHost (footerFork demoRelation ! 0) = (1, 1)
         \<and> (1 :: uint32) \<noteq> 0
         \<and> unat (1 :: uint32) + unat (1 :: uint32) \<le> length (footerFork demoRelation)
         \<and> length (footerFork demoRelation) < 2 ^ 31
         \<and> {unat newStart ..< unat newStart + unat (ActualBlockCount w0)}
                     \<inter> {unat (1 :: uint32) ..< unat (1 :: uint32) + unat (1 :: uint32)} = {})"
proof -
  obtain rel' where run: "CStoreWriteFooter demoHost demoFooter demoRelation False = Inr rel'"
    using demo_write by blast
  have ne: "footerFork demoRelation \<noteq> []"
    by (simp add: demoRelation_def)
  have hdr: "ParseHeaderPage demoHost (footerFork demoRelation ! 0) = (1, 1)"
    by (simp add: demoRelation_def demo_parse)
  have v: "(1 :: uint32) \<noteq> 0" "unat (1 :: uint32) + unat (1 :: uint32) \<le> length (footerFork demoRelation)"
    "length (footerFork demoRelation) < 2 ^ 31"
    by (simp_all add: demoRelation_def)
  from new_footer_starting_block[OF run] obtain w0 newStart where
    a: "LayoutWholeFooter demoHost demoFooter = Inr w0"
    and b: "newStart =
             (if footerFork demoRelation = [] then 1
              else let (s, c) = ParseHeaderPage demoHost (footerFork demoRelation ! 0)
                   in if s = 0 then 1
                      else if ActualBlockCount w0 < s then 1
                      else s + c)"
    and c: "payload (footerFork rel' ! 0)
             = SerializeTableFooterMetadata demoHost newStart (ActualBlockCount w0)"
    and d: "\<forall>s c. footerFork demoRelation \<noteq> []
                 \<and> ParseHeaderPage demoHost (footerFork demoRelation ! 0) = (s, c)
                 \<and> s \<noteq> 0 \<and> unat s + unat c \<le> length (footerFork demoRelation)
                 \<and> length (footerFork demoRelation) < 2 ^ 31
               \<longrightarrow> {unat newStart ..< unat newStart + unat (ActualBlockCount w0)}
                     \<inter> {unat s ..< unat s + unat c} = {}"
    by blast
  have w0: "w0 = [0,0,0,0,7,7,2]" using a demo_layout by simp
  have two: "newStart = 2"
    unfolding b using ne hdr by (simp add: w0 demo_actual)
  from d ne hdr v have "{unat newStart ..< unat newStart + unat (ActualBlockCount w0)}
                     \<inter> {unat (1 :: uint32) ..< unat (1 :: uint32) + unat (1 :: uint32)} = {}"
    by blast
  with run a b c two ne hdr v show ?thesis by blast
qed


subsection \<open>The footer byte stream\<close>




lemma overflow_actual: "ActualBlockCount ([0,0,0,0] @ replicate 256 0 @ [0]) = 1"
  by (simp add: ActualBlockCount_def CSTORE_PAGE_DATA_SIZE_def BLCKSZ_def SizeOfPageHeaderData_def)


subsection \<open>A postscript of 256 bytes or more\<close>


subsection \<open>Pages and streams\<close>

lemma wf_page_PageInit: "wf_page PageInit"
  by (simp add: wf_page_def PageInit_def BLCKSZ_def SizeOfPageHeaderData_def)

lemma payload_PageInit [simp]: "payload PageInit = []"
  by (simp add: payload_def PageInit_def)

lemma payload_append_chunk:
  assumes "SizeOfPageHeaderData \<le> pd_lower page"
  shows "payload (page\<lparr>pd_lower := pd_lower page + length chunk, pd_flags := fl,
                       contents := memcpy (contents page)
                          (pd_lower page - SizeOfPageHeaderData) chunk\<rparr>)
         = payload page @ chunk"
proof -
  let ?o = "pd_lower page - SizeOfPageHeaderData"
  have "[0..<pd_lower page + length chunk - SizeOfPageHeaderData] = [0..<?o] @ [?o..<?o + length chunk]"
  proof -
    have "pd_lower page + length chunk - SizeOfPageHeaderData = ?o + length chunk"
      using assms by simp
    then show ?thesis by (simp only: upt_add_eq_append[OF le0])
  qed
  moreover have "map (memcpy (contents page) ?o chunk) [0..<?o] = map (contents page) [0..<?o]"
    by (simp add: memcpy_def)
  moreover have "map (memcpy (contents page) ?o chunk) [?o..<?o + length chunk] = chunk"
    by (auto simp: memcpy_def intro: nth_equalityI)
  ultimately show ?thesis by (simp add: payload_def)
qed

lemma forkStream_append [simp]: "forkStream (xs @ ys) = forkStream xs @ forkStream ys"
  by (simp add: forkStream_def)

lemma forkStream_update_last:
  assumes "pages \<noteq> []"
  shows "forkStream (pages[length pages - 1 := p]) = forkStream (butlast pages) @ payload p"
proof -
  have "pages[length pages - 1 := p] = butlast pages @ [p]"
    using assms by (induction pages rule: rev_induct) (simp_all add: list_update_append)
  then show ?thesis by (simp add: forkStream_def)
qed

lemma forkStream_butlast:
  assumes "pages \<noteq> []"
  shows "forkStream pages = forkStream (butlast pages) @ payload (last pages)"
  using assms by (induction pages rule: rev_induct) (simp_all add: forkStream_def)

lemma concat_map_Nil: "(\<And>x. x \<in> set xs \<Longrightarrow> f x = []) \<Longrightarrow> concat (map f xs) = []"
  by (induction xs) auto

lemma appendedBytes_step:
  assumes bn: "bn \<le> length pages" "bn < length final"
    and len1: "length pages1 = (if bn < length pages then length pages else length pages + 1)"
    and same1: "\<And>i. i < length pages \<Longrightarrow> i \<noteq> bn \<Longrightarrow> pages1 ! i = pages ! i"
    and keep: "\<And>i. i \<le> bn \<Longrightarrow> final ! i = pages1 ! i"
    and pay: "payload (pages1 ! bn) = (if bn < length pages then payload (pages ! bn) else []) @ chunk"
  shows "appendedBytes pages final = chunk @ appendedBytes pages1 final"
proof -
  have split: "[0..<length final] = [0..<bn] @ [bn] @ [Suc bn..<length final]"
    using bn(2) by (metis Suc_leI le0 upt_add_eq_append upt_conv_Cons less_imp_le_nat
        le_add_diff_inverse append_Cons append_Nil upt_rec)
  have low: "newBytesAt pages final i = []" "newBytesAt pages1 final i = []" if "i < bn" for i
  proof -
    have "i < length pages" using that bn(1) by simp
    moreover have "final ! i = pages1 ! i" using keep that by simp
    moreover have "pages1 ! i = pages ! i" using same1 that \<open>i < length pages\<close> by simp
    moreover have "i < length pages1" using len1 \<open>i < length pages\<close> by (simp split: if_splits)
    ultimately show "newBytesAt pages final i = []" "newBytesAt pages1 final i = []"
      by (simp_all add: newBytesAt_def)
  qed
  have mid: "newBytesAt pages final bn = chunk" "newBytesAt pages1 final bn = []"
  proof -
    have f: "final ! bn = pages1 ! bn" using keep by simp
    show "newBytesAt pages final bn = chunk"
      using pay by (simp add: newBytesAt_def f)
    have "bn < length pages1" using len1 bn(1) by (simp split: if_splits)
    then show "newBytesAt pages1 final bn = []"
      by (simp add: newBytesAt_def f)
  qed
  have high: "newBytesAt pages final i = newBytesAt pages1 final i" if "bn < i" for i
  proof (cases "i < length pages")
    case True
    then have "pages1 ! i = pages ! i" "i < length pages1"
      using same1 that len1 by (simp_all split: if_splits)
    then show ?thesis using True by (simp add: newBytesAt_def)
  next
    case False
    then have "\<not> i < length pages1" using len1 that bn(1) by (simp split: if_splits)
    then show ?thesis using False by (simp add: newBytesAt_def)
  qed
  have "appendedBytes pages final
        = concat (map (newBytesAt pages final) [0..<bn]) @ newBytesAt pages final bn
          @ concat (map (newBytesAt pages final) [Suc bn..<length final])"
    unfolding appendedBytes_def by (subst split) simp
  also have "concat (map (newBytesAt pages final) [0..<bn]) = []"
    by (rule concat_map_Nil) (simp add: low)
  also have "map (newBytesAt pages final) [Suc bn..<length final]
             = map (newBytesAt pages1 final) [Suc bn..<length final]"
    by (rule map_cong) (simp_all add: high)
  finally have a: "appendedBytes pages final
        = chunk @ concat (map (newBytesAt pages1 final) [Suc bn..<length final])"
    by (simp add: mid)
  have "appendedBytes pages1 final
        = concat (map (newBytesAt pages1 final) [0..<bn]) @ newBytesAt pages1 final bn
          @ concat (map (newBytesAt pages1 final) [Suc bn..<length final])"
    unfolding appendedBytes_def by (subst split) simp
  also have "concat (map (newBytesAt pages1 final) [0..<bn]) = []"
    by (rule concat_map_Nil) (simp add: low)
  finally have b: "appendedBytes pages1 final
        = concat (map (newBytesAt pages1 final) [Suc bn..<length final])"
    by (simp add: mid)
  from a b show ?thesis by simp
qed

lemma appendedBytes_same: "appendedBytes pages pages = []"
  unfolding appendedBytes_def by (rule concat_map_Nil) (simp add: newBytesAt_def)

lemma WriteToFile_loop_correct:
  "(\<forall>p \<in> set pages. wf_page p) \<Longrightarrow> blockCnt \<le> length pages \<Longrightarrow> dataOffset \<le> length data \<Longrightarrow>
   \<exists>r. WriteToFile_loop host data l blockCnt blockNumber dataOffset (active, pages, events) = Inr r
      \<and> loopPost data blockNumber dataOffset pages r"
proof (induction host data l blockCnt blockNumber dataOffset "(active, pages, events)"
    arbitrary: active pages events rule: WriteToFile_loop.induct)
  case (1 host data l blockCnt blockNumber dataOffset active pages events)
  note wf = "1.prems"(1) and bc = "1.prems"(2) and off = "1.prems"(3)
  show ?case
  proof (cases "dataOffset < length data")
    case False
    then have "drop dataOffset data = []" by simp
    then show ?thesis
      using False wf by (simp add: WriteToFile_loop.simps loopPost_def appendedBytes_same)
  next
    case lt: True
    define isNew where "isNew = (blockCnt \<le> blockNumber)"
    define bn where "bn = (if isNew then length pages else blockNumber)"
    define page where "page = (if isNew then PageInit else pages ! blockNumber)"
    define pages0 where "pages0 = (if isNew then pages @ [page] else pages)"
    define rc where "rc = int (pd_upper page) - int (pd_lower page)"
    define c0 where "c0 = int (length data) - int dataOffset"
    define cs where "cs = (if rc < c0 then rc else c0)"
    define po where "po = int (pd_lower page) - int SizeOfPageHeaderData"
    define lower where "lower = pd_lower page + nat cs"
    define chunk where "chunk = take (nat cs) (drop dataOffset data)"
    define page1 where "page1 = page\<lparr>pd_lower := lower,
              pd_flags := if pd_upper page \<le> lower then pd_flags page OR PD_PAGE_FULL
                else pd_flags page,
              contents := memcpy (contents page) (nat po) (take (nat cs) (drop dataOffset data))\<rparr>"
    define events0 where "events0 = events @ [MarkBufferDirty DATA_FORKNUM bn] @
         (if l then [LogNewPage DATA_FORKNUM bn] else [])"
    define pages1 where "pages1 = pages0[bn := page1]"
    have c1: "\<not> (\<not> isNew \<and> length pages \<le> blockNumber)"
      using bc by (auto simp: isNew_def)
    have wfp: "wf_page page"
      using wf c1 wf_page_PageInit by (auto simp: page_def)
    have c2: "\<not> (USE_ASSERT_CHECKING host \<and> \<not> 0 < pd_lower page)"
      using wfp by (auto simp: wf_page_def SizeOfPageHeaderData_def)
    have rc0: "0 \<le> rc" using wfp by (simp add: wf_page_def rc_def)
    have c3: "\<not> cs < 0" using rc0 lt by (auto simp: cs_def c0_def)
    have c4: "\<not> (0 < cs \<and> (po < 0 \<or> int CSTORE_PAGE_DATA_SIZE < po + cs))"
      using wfp by (auto simp: wf_page_def CSTORE_PAGE_DATA_SIZE_def cs_def rc_def po_def)
    have cs_le: "nat cs \<le> length data - dataOffset" using c3 by (auto simp: cs_def c0_def)
    have chunk_len: "length chunk = nat cs" using cs_le by (simp add: chunk_def)
    have po: "nat po = pd_lower page - SizeOfPageHeaderData"
      using wfp by (simp add: wf_page_def po_def)
    have pay1: "payload page1 = payload page @ chunk"
      using payload_append_chunk[of page chunk] wfp chunk_len
      by (simp add: wf_page_def po page1_def lower_def chunk_def)
    have wf1: "\<forall>p \<in> set pages1. wf_page p"
    proof -
      have "nat cs \<le> nat rc" using rc0 c3 by (auto simp: cs_def)
      then have "pd_lower page + nat cs \<le> pd_upper page"
        using wfp unfolding rc_def wf_page_def by linarith
      then have "wf_page page1"
        using wfp by (simp add: wf_page_def page1_def lower_def)
      moreover have "\<forall>p \<in> set pages0. wf_page p"
        using wf wfp by (auto simp: pages0_def)
      ultimately show ?thesis
        unfolding pages1_def using set_update_subset_insert[of pages0 bn page1] by auto
    qed
    have bc1: "blockCnt \<le> length pages1" using bc by (auto simp: pages1_def pages0_def)
    have off1: "dataOffset + nat cs \<le> length data" using cs_le lt by linarith
    from "1.hyps"[OF lt isNew_def c1 bn_def page_def pages0_def c2 rc_def c0_def cs_def po_def c3 c4
        lower_def page1_def events0_def wf1[unfolded pages1_def] bc1[unfolded pages1_def] off1]
    obtain r where
      run1: "WriteToFile_loop host data l blockCnt (bn + 1) (dataOffset + nat cs)
              (bn, pages1, events0) = Inr r"
      and post1: "loopPost data (bn + 1) (dataOffset + nat cs) pages1 r"
      unfolding pages1_def by blast
    obtain active' pages' events' where r: "r = (active', pages', events')"
      by (cases r) auto
    have run: "WriteToFile_loop host data l blockCnt blockNumber dataOffset (active, pages, events) = Inr r"
      apply (subst WriteToFile_loop.simps)
      using lt c1 c2 c3 c4 run1
      unfolding Let_def pages1_def events0_def page1_def lower_def po_def cs_def c0_def rc_def
        pages0_def page_def bn_def isNew_def
      by simp
    have bnle: "bn \<le> length pages" using c1 by (auto simp: bn_def)
    have len0: "length pages1 = (if bn < length pages then length pages else length pages + 1)"
      using c1 by (auto simp: pages1_def pages0_def bn_def)
    have bnlt1: "bn < length pages1" using c1 by (auto simp: pages1_def pages0_def bn_def)
    from post1 r have
      p_len: "length pages1 \<le> length pages'"
      and p_wf: "\<forall>p \<in> set pages'. wf_page p"
      and p_keep: "\<forall>i < length pages1. i < bn + 1 \<longrightarrow> pages' ! i = pages1 ! i"
      and p_pre: "\<forall>i < length pages1.
            take (length (payload (pages1 ! i))) (payload (pages' ! i)) = payload (pages1 ! i)"
      and p_app: "appendedBytes pages1 pages' = drop (dataOffset + nat cs) data"
      and p_str: "length pages1 \<le> bn + 1 + 1 \<longrightarrow>
            forkStream pages' = forkStream pages1 @ drop (dataOffset + nat cs) data
          \<and> (dataOffset + nat cs < length data \<longrightarrow> length pages' = active' + 1)"
      by (simp_all add: loopPost_def)
    have same1: "pages1 ! i = pages ! i" if "i < length pages" "i \<noteq> bn" for i
      using that by (auto simp: nth_append pages1_def pages0_def)
    have at_bn: "pages1 ! bn = page1" using bnlt1 by (simp add: pages1_def)
    have old_bn: "(if bn < length pages then payload (pages ! bn) else []) = payload page"
      using c1 by (auto simp: bn_def page_def)
    have g1: "length pages \<le> length pages'" using p_len len0 by (auto split: if_splits)
    have g3: "\<forall>i < length pages. i < blockNumber \<longrightarrow> pages' ! i = pages ! i"
    proof (intro allI impI)
      fix i assume i: "i < length pages" "i < blockNumber"
      then have "i < bn" using c1 by (auto simp: bn_def)
      then have "pages' ! i = pages1 ! i" using p_keep bnlt1 by simp
      also have "\<dots> = pages ! i" using same1 i \<open>i < bn\<close> by simp
      finally show "pages' ! i = pages ! i" .
    qed
    have g4: "\<forall>i < length pages.
            take (length (payload (pages ! i))) (payload (pages' ! i)) = payload (pages ! i)"
    proof (intro allI impI)
      fix i assume i: "i < length pages"
      then have i1: "i < length pages1" using len0 by (auto split: if_splits)
      show "take (length (payload (pages ! i))) (payload (pages' ! i)) = payload (pages ! i)"
      proof (cases "i = bn")
        case True
        then have "payload (pages1 ! i) = payload (pages ! i) @ chunk"
          using at_bn pay1 old_bn i by (auto split: if_splits)
        moreover have "take (length (payload (pages1 ! i))) (payload (pages' ! i)) = payload (pages1 ! i)"
          using p_pre i1 by blast
        ultimately have "take (length (payload (pages ! i) @ chunk)) (payload (pages' ! i))
                           = payload (pages ! i) @ chunk"
          by simp
        then have "take (length (payload (pages ! i)))
                     (take (length (payload (pages ! i) @ chunk)) (payload (pages' ! i)))
                   = take (length (payload (pages ! i))) (payload (pages ! i) @ chunk)"
          by simp
        then show ?thesis by (simp add: min_def)
      next
        case False
        then show ?thesis using p_pre i1 same1[OF i] by metis
      qed
    qed
    have g5: "appendedBytes pages pages' = drop dataOffset data"
    proof -
      have "appendedBytes pages pages' = chunk @ appendedBytes pages1 pages'"
      proof (rule appendedBytes_step[OF bnle])
        show "bn < length pages'" using bnlt1 p_len by linarith
        show "length pages1 = (if bn < length pages then length pages else length pages + 1)"
          by (rule len0)
        show "\<And>i. i < length pages \<Longrightarrow> i \<noteq> bn \<Longrightarrow> pages1 ! i = pages ! i"
          by (rule same1)
        show "\<And>i. i \<le> bn \<Longrightarrow> pages' ! i = pages1 ! i"
          using p_keep bnlt1 by simp
        show "payload (pages1 ! bn) = (if bn < length pages then payload (pages ! bn) else []) @ chunk"
          unfolding at_bn old_bn by (rule pay1)
      qed
      also have "\<dots> = chunk @ drop (dataOffset + nat cs) data" using p_app by simp
      also have "\<dots> = drop dataOffset data"
        unfolding chunk_def by (metis add.commute append_take_drop_id drop_drop)
      finally show ?thesis .
    qed
    have g6: "forkStream pages' = forkStream pages @ drop dataOffset data
          \<and> (dataOffset < length data \<longrightarrow> length pages' = active' + 1)"
      if tail: "length pages \<le> blockNumber + 1"
    proof -
      have l1: "length pages1 = bn + 1"
        using tail c1 by (auto simp: pages1_def pages0_def bn_def isNew_def)
      have s1: "forkStream pages1 = forkStream pages @ chunk"
      proof (cases isNew)
        case True
        then have "pages1 = pages @ [page1]" by (simp add: pages1_def pages0_def bn_def)
        then show ?thesis using pay1 True by (simp add: forkStream_def page_def)
      next
        case False
        then have b: "blockNumber = length pages - 1" "pages \<noteq> []" using tail c1 by auto
        have "forkStream pages1 = forkStream (butlast pages) @ payload page1"
          using False b forkStream_update_last[OF b(2)] by (simp add: pages1_def pages0_def bn_def)
        also have "\<dots> = forkStream (butlast pages) @ payload (last pages) @ chunk"
          using pay1 False b by (simp add: last_conv_nth page_def)
        finally show ?thesis using forkStream_butlast[OF b(2)] by simp
      qed
      from p_str l1 have
        a: "forkStream pages' = forkStream pages1 @ drop (dataOffset + nat cs) data"
        and b: "dataOffset + nat cs < length data \<longrightarrow> length pages' = active' + 1"
        by simp_all
      have "forkStream pages' = forkStream pages @ chunk @ drop (dataOffset + nat cs) data"
        using a s1 by simp
      also have "chunk @ drop (dataOffset + nat cs) data = drop dataOffset data"
        unfolding chunk_def by (metis add.commute append_take_drop_id drop_drop)
      finally have A: "forkStream pages' = forkStream pages @ drop dataOffset data" .
      have B: "length pages' = active' + 1"
      proof (cases "dataOffset + nat cs < length data")
        case True
        then show ?thesis using b by simp
      next
        case False
        then have "WriteToFile_loop host data l blockCnt (bn + 1) (dataOffset + nat cs)
              (bn, pages1, events0) = Inr (bn, pages1, events0)"
          by (subst WriteToFile_loop.simps) simp
        with run1 r have "active' = bn" "pages' = pages1" by simp_all
        then show ?thesis using l1 by simp
      qed
      from A B show ?thesis by simp
    qed
    have "loopPost data blockNumber dataOffset pages r"
      unfolding loopPost_def r using g1 p_wf g3 g4 g5 g6 by simp
    with run show ?thesis by blast
  qed
qed

lemma WriteToFile_Inr:
  assumes pages: "dataFork (relation ws) = Some pages"
    and wf: "\<forall>p \<in> set pages. wf_page p"
    and len: "length data < MaxAllocSize"
  shows "\<exists>ws' active' pages' events'.
           WriteToFile host ws data = Inr ws'
         \<and> ws' = ws\<lparr>activeBlockNumber := active',
                     relation := (relation ws)\<lparr>dataFork := Some pages', bufferEvents := events'\<rparr>\<rparr>
         \<and> loopPost data (activeBlockNumber ws) 0 pages (active', pages', events')
         \<and> (data = [] \<longrightarrow> ws' = ws)"
proof (cases "data = []")
  case True
  have "loopPost [] (activeBlockNumber ws) 0 pages (activeBlockNumber ws, pages, bufferEvents (relation ws))"
    using wf by (simp add: loopPost_def appendedBytes_same)
  moreover have "WriteToFile host ws [] = Inr ws"
    by (simp add: WriteToFile_def pages)
  moreover have "ws = ws\<lparr>activeBlockNumber := activeBlockNumber ws,
                     relation := (relation ws)\<lparr>dataFork := Some pages,
                        bufferEvents := bufferEvents (relation ws)\<rparr>\<rparr>"
    using pages by simp
  ultimately show ?thesis using True by blast
next
  case False
  from WriteToFile_loop_correct[OF wf order_refl, of 0 data host "logging ws" "activeBlockNumber ws"
      "activeBlockNumber ws" "bufferEvents (relation ws)"]
  obtain r where run: "WriteToFile_loop host data (logging ws) (length pages) (activeBlockNumber ws) 0
           (activeBlockNumber ws, pages, bufferEvents (relation ws)) = Inr r"
    and post: "loopPost data (activeBlockNumber ws) 0 pages r"
    by auto
  obtain active' pages' events' where r: "r = (active', pages', events')"
    by (cases r) auto
  have "WriteToFile host ws data = Inr (ws\<lparr>activeBlockNumber := active',
                     relation := (relation ws)\<lparr>dataFork := Some pages', bufferEvents := events'\<rparr>\<rparr>)"
    using False len run r by (simp add: WriteToFile_def pages)
  with post r False show ?thesis by blast
qed

subsection \<open>WriteToFile places all its input\<close>

text \<open>
  Claim C9. \<^verbatim>\<open>WriteToFile\<close> is a total function of the model: its loop terminates because
  an iteration either copies at least one byte or moves from a full page to the next block,
  and a page that \<^verbatim>\<open>PageInit\<close> has set up has room. On a data fork of well-formed pages,
  and for the content of a buffer, the call returns without error; every page keeps the
  payload it had, and the bytes added to the pages, in block order, are the input.
\<close>

theorem WriteToFile_copies_all:
  assumes pages: "dataFork (relation ws) = Some pages"
    and wf: "list_all wf_page pages"
    and len: "length data < MaxAllocSize"
  shows "\<exists>ws' pages'.
           WriteToFile host ws data = Inr ws'
         \<and> dataFork (relation ws') = Some pages'
         \<and> length pages \<le> length pages'
         \<and> (\<forall>i < length pages.
               take (length (payload (pages ! i))) (payload (pages' ! i)) = payload (pages ! i))
         \<and> appendedBytes pages pages' = data
         \<and> list_all wf_page pages'
         \<and> pd_lower PageInit < pd_upper PageInit"
proof -
  have wf': "\<forall>p \<in> set pages. wf_page p" using wf by (simp add: list_all_iff)
  from WriteToFile_Inr[OF pages wf' len] obtain ws' active' pages' events' where
    run: "WriteToFile host ws data = Inr ws'"
    and ws': "ws' = ws\<lparr>activeBlockNumber := active',
                     relation := (relation ws)\<lparr>dataFork := Some pages', bufferEvents := events'\<rparr>\<rparr>"
    and post: "loopPost data (activeBlockNumber ws) 0 pages (active', pages', events')"
    by blast
  have "dataFork (relation ws') = Some pages'" using ws' by simp
  moreover have "pd_lower PageInit < pd_upper PageInit"
    by (simp add: PageInit_def BLCKSZ_def SizeOfPageHeaderData_def)
  ultimately show ?thesis using run post by (auto simp: loopPost_def list_all_iff)
qed

theorem WriteToFile_copies_all_witness:
  "dataFork (relation demoState) = Some [PageInit]
   \<and> list_all wf_page [PageInit]
   \<and> length [1, 2, 3 :: byte] < MaxAllocSize
   \<and> (\<exists>ws' pages'.
           WriteToFile demoHost demoState [1, 2, 3] = Inr ws'
         \<and> dataFork (relation ws') = Some pages'
         \<and> appendedBytes [PageInit] pages' = [1, 2, 3])"
proof -
  have a: "dataFork (relation demoState) = Some [PageInit]"
    by (simp add: demoState_def CStoreBeginWrite_def EnsureDataForkExists_def Let_def)
  have b: "list_all wf_page [PageInit]"
    by (simp add: wf_page_def PageInit_def BLCKSZ_def SizeOfPageHeaderData_def)
  have c: "length [1, 2, 3 :: byte] < MaxAllocSize"
    by (simp add: MaxAllocSize_def)
  from WriteToFile_copies_all[OF a b c, of demoHost] a b c show ?thesis by blast
qed

lemma WriteToFile_stream:
  assumes run: "WriteToFile host ws data = Inr ws'" and inv: "forkInv ws"
  shows "forkInv ws' \<and> dataStream ws' = dataStream ws @ data \<and> sameSession ws ws'"
proof -
  from inv obtain pages where pages: "dataFork (relation ws) = Some pages"
    and wf: "\<forall>p \<in> set pages. wf_page p" and tail: "length pages \<le> activeBlockNumber ws + 1"
    by (auto simp: forkInv_def list_all_iff split: option.splits)
  have len: "length data < MaxAllocSize"
    using run by (auto simp: WriteToFile_def pages MaxAllocSize_def split: if_splits)
  from WriteToFile_Inr[OF pages wf len, of host] run obtain active' pages' events' where
    ws': "ws' = ws\<lparr>activeBlockNumber := active',
                     relation := (relation ws)\<lparr>dataFork := Some pages', bufferEvents := events'\<rparr>\<rparr>"
    and post: "loopPost data (activeBlockNumber ws) 0 pages (active', pages', events')"
    and empty: "data = [] \<longrightarrow> ws' = ws"
    by auto
  show ?thesis
  proof (cases "data = []")
    case True
    then show ?thesis using empty inv by (simp add: sameSession_def)
  next
    case False
    from post tail False have
      wf': "\<forall>p \<in> set pages'. wf_page p"
      and str: "forkStream pages' = forkStream pages @ data"
      and l: "length pages' = active' + 1"
      by (simp_all add: loopPost_def)
    have "forkInv ws'" using wf' l by (simp add: forkInv_def ws' list_all_iff)
    moreover have "dataStream ws' = dataStream ws @ data"
      using str by (simp add: dataStream_def ws' pages)
    moreover have "sameSession ws ws'" by (simp add: sameSession_def ws')
    ultimately show ?thesis by simp
  qed
qed

lemma foldE_append: "foldE f (xs @ ys) s = bindE (foldE f xs s) (foldE f ys)"
  by (induction xs arbitrary: s) (auto simp: bindE_def split: sum.splits)

lemma foldE_inv:
  assumes "foldE f xs s = Inr s'" and "P s"
    and "\<And>x t t'. x \<in> set xs \<Longrightarrow> P t \<Longrightarrow> f x t = Inr t' \<Longrightarrow> P t'"
  shows "P s'"
  using assms by (induction xs arbitrary: s) (auto simp: bindE_eq_Inr)

lemma foldE_emit:
  assumes "foldE f xs s = Inr s'" and "I s"
    and "\<And>x t t'. x \<in> set xs \<Longrightarrow> I t \<Longrightarrow> f x t = Inr t' \<Longrightarrow> I t' \<and> out t' = out t @ g x"
  shows "I s' \<and> out s' = out s @ concat (map g xs)"
  using assms
proof (induction xs arbitrary: s)
  case Nil
  then show ?case by simp
next
  case (Cons x xs)
  from Cons.prems(1) obtain t where t: "f x s = Inr t" "foldE f xs t = Inr s'"
    by (auto simp: bindE_eq_Inr)
  have st: "I t \<and> out t = out s @ g x" using Cons.prems(3)[of x s t] Cons.prems(2) t(1) by simp
  have "I s' \<and> out s' = out t @ concat (map g xs)"
    by (rule Cons.IH[OF t(2)]) (use st Cons.prems(3) in auto)
  with st show ?case by simp
qed

lemma sameSession_refl [simp]: "sameSession ws ws"
  by (simp add: sameSession_def)

lemma sameSession_trans: "sameSession a b \<Longrightarrow> sameSession b c \<Longrightarrow> sameSession a c"
  by (simp add: sameSession_def)

subsection \<open>Stripes\<close>

lemma nth_chk_Inr: "nth_chk xs i = Inr x \<longleftrightarrow> i < length xs \<and> x = xs ! i"
  by (auto simp: nth_chk_def)

lemma store_chk_Inr: "store_chk xs i v = Inr ys \<longleftrightarrow> i < length xs \<and> ys = xs[i := v]"
  by (auto simp: store_chk_def)

lemma deref_Inr: "deref p = Inr x \<longleftrightarrow> p = Some x"
  by (auto simp: deref_def split: option.splits)

lemma SerializeBlockData_frame:
  assumes "SerializeBlockData host ws blockIndex rowCnt = Inr ws'"
  shows "relation ws' = relation ws \<and> activeBlockNumber ws' = activeBlockNumber ws
       \<and> tableFooter ws' = tableFooter ws \<and> currentFileOffset ws' = currentFileOffset ws
       \<and> tupleDescriptor ws' = tupleDescriptor ws \<and> stripeSkipList ws' = stripeSkipList ws
       \<and> stripeMaxRowCount ws' = stripeMaxRowCount ws \<and> logging ws' = logging ws
       \<and> comparisonFunctionArray ws' = comparisonFunctionArray ws
       \<and> compressionType ws' = compressionType ws
       \<and> (\<exists>b b'. stripeBuffers ws = Some b \<and> stripeBuffers ws' = Some b'
              \<and> rowCount_sb b' = rowCount_sb b \<and> columnCount_sb b' = columnCount_sb b)"
proof -
  from assms obtain b a2 bd where b: "stripeBuffers ws = Some b"
    and ws': "ws' = ws\<lparr>stripeBuffers := Some (b\<lparr>columnBuffersArray := a2\<rparr>), blockDataArray := bd\<rparr>"
    unfolding SerializeBlockData_def Let_def
    by (auto simp: bindE_eq_Inr deref_Inr)
  show ?thesis unfolding ws' using b by simp
qed


lemma PrepareStripe_Inr:
  assumes "PrepareStripe host ws = Inr (ws1, buffers, skipList, bufs, sf)"
  obtains buffers0 skipList0 ws0 nodes where
    "stripeBuffers ws = Some buffers0" "stripeSkipList ws = Some skipList0"
    "blockRowCount (tableFooter ws) \<noteq> 0"
    "(if 0 < rowCount_sb buffers0 mod blockRowCount (tableFooter ws)
      then SerializeBlockData host ws (rowCount_sb buffers0 div blockRowCount (tableFooter ws))
             (rowCount_sb buffers0 mod blockRowCount (tableFooter ws))
      else Inr ws) = Inr ws0"
    "stripeBuffers ws0 = Some buffers"
    "foldE (UpdateColumnOffsets buffers (blockCount skipList0)) [0..<length (tupleDescriptor ws)]
       (blockSkipNodeArray skipList0) = Inr nodes"
    "skipList = skipList0\<lparr>blockSkipNodeArray := nodes\<rparr>"
    "CreateSkipListBufferArray host skipList (tupleDescriptor ws0) = Inr bufs"
    "CreateStripeFooter skipList bufs = Inr sf"
    "ws1 = ws0\<lparr>stripeSkipList := Some skipList\<rparr>"
proof -
  from assms obtain buffers0 where b0: "stripeBuffers ws = Some buffers0"
    unfolding PrepareStripe_def by (auto simp: bindE_eq_Inr deref_Inr)
  from assms obtain skipList0 where s0: "stripeSkipList ws = Some skipList0"
    unfolding PrepareStripe_def by (auto simp: bindE_eq_Inr deref_Inr)
  have nz: "blockRowCount (tableFooter ws) \<noteq> 0"
    using assms unfolding PrepareStripe_def
    by (auto simp: b0 s0 deref_def Let_def split: if_splits)
  let ?m = "(if 0 < rowCount_sb buffers0 mod blockRowCount (tableFooter ws)
      then SerializeBlockData host ws (rowCount_sb buffers0 div blockRowCount (tableFooter ws))
             (rowCount_sb buffers0 mod blockRowCount (tableFooter ws))
      else Inr ws)"
  have eq: "bindE ?m (\<lambda>ws1a.
             bindE (deref (stripeBuffers ws1a)) (\<lambda>buffers.
             bindE (foldE (UpdateColumnOffsets buffers (blockCount skipList0)) [0..<length (tupleDescriptor ws)]
                      (blockSkipNodeArray skipList0)) (\<lambda>nodes.
             bindE (CreateSkipListBufferArray host (skipList0\<lparr>blockSkipNodeArray := nodes\<rparr>) (tupleDescriptor ws1a))
               (\<lambda>skipListBufferArray.
             bindE (CreateStripeFooter (skipList0\<lparr>blockSkipNodeArray := nodes\<rparr>) skipListBufferArray) (\<lambda>stripeFooter.
             Inr (ws1a\<lparr>stripeSkipList := Some (skipList0\<lparr>blockSkipNodeArray := nodes\<rparr>)\<rparr>, buffers,
                  skipList0\<lparr>blockSkipNodeArray := nodes\<rparr>,
                  skipListBufferArray, stripeFooter))))))
          = Inr (ws1, buffers, skipList, bufs, sf)"
    using assms nz unfolding PrepareStripe_def by (simp add: b0 s0 deref_def Let_def)
  then obtain ws0 where w0: "?m = Inr ws0" and r1:
     "bindE (deref (stripeBuffers ws0)) (\<lambda>buffers.
             bindE (foldE (UpdateColumnOffsets buffers (blockCount skipList0)) [0..<length (tupleDescriptor ws)]
                      (blockSkipNodeArray skipList0)) (\<lambda>nodes.
             bindE (CreateSkipListBufferArray host (skipList0\<lparr>blockSkipNodeArray := nodes\<rparr>) (tupleDescriptor ws0))
               (\<lambda>skipListBufferArray.
             bindE (CreateStripeFooter (skipList0\<lparr>blockSkipNodeArray := nodes\<rparr>) skipListBufferArray) (\<lambda>stripeFooter.
             Inr (ws0\<lparr>stripeSkipList := Some (skipList0\<lparr>blockSkipNodeArray := nodes\<rparr>)\<rparr>, buffers,
                  skipList0\<lparr>blockSkipNodeArray := nodes\<rparr>,
                  skipListBufferArray, stripeFooter)))))
          = Inr (ws1, buffers, skipList, bufs, sf)"
    unfolding bindE_eq_Inr by blast
  from r1 obtain bfs where bf: "stripeBuffers ws0 = Some bfs" and r2:
     "bindE (foldE (UpdateColumnOffsets bfs (blockCount skipList0)) [0..<length (tupleDescriptor ws)]
                      (blockSkipNodeArray skipList0)) (\<lambda>nodes.
             bindE (CreateSkipListBufferArray host (skipList0\<lparr>blockSkipNodeArray := nodes\<rparr>) (tupleDescriptor ws0))
               (\<lambda>skipListBufferArray.
             bindE (CreateStripeFooter (skipList0\<lparr>blockSkipNodeArray := nodes\<rparr>) skipListBufferArray) (\<lambda>stripeFooter.
             Inr (ws0\<lparr>stripeSkipList := Some (skipList0\<lparr>blockSkipNodeArray := nodes\<rparr>)\<rparr>, bfs,
                  skipList0\<lparr>blockSkipNodeArray := nodes\<rparr>,
                  skipListBufferArray, stripeFooter))))
          = Inr (ws1, buffers, skipList, bufs, sf)"
    unfolding bindE_eq_Inr deref_Inr by blast
  from r2 obtain nodes where nd: "foldE (UpdateColumnOffsets bfs (blockCount skipList0)) [0..<length (tupleDescriptor ws)]
                      (blockSkipNodeArray skipList0) = Inr nodes" and r3:
     "bindE (CreateSkipListBufferArray host (skipList0\<lparr>blockSkipNodeArray := nodes\<rparr>) (tupleDescriptor ws0))
               (\<lambda>skipListBufferArray.
             bindE (CreateStripeFooter (skipList0\<lparr>blockSkipNodeArray := nodes\<rparr>) skipListBufferArray) (\<lambda>stripeFooter.
             Inr (ws0\<lparr>stripeSkipList := Some (skipList0\<lparr>blockSkipNodeArray := nodes\<rparr>)\<rparr>, bfs,
                  skipList0\<lparr>blockSkipNodeArray := nodes\<rparr>,
                  skipListBufferArray, stripeFooter)))
          = Inr (ws1, buffers, skipList, bufs, sf)"
    unfolding bindE_eq_Inr by blast
  from r3 obtain sl where sl: "CreateSkipListBufferArray host (skipList0\<lparr>blockSkipNodeArray := nodes\<rparr>) (tupleDescriptor ws0) = Inr sl"
    and r4: "bindE (CreateStripeFooter (skipList0\<lparr>blockSkipNodeArray := nodes\<rparr>) sl) (\<lambda>stripeFooter.
             Inr (ws0\<lparr>stripeSkipList := Some (skipList0\<lparr>blockSkipNodeArray := nodes\<rparr>)\<rparr>, bfs,
                  skipList0\<lparr>blockSkipNodeArray := nodes\<rparr>,
                  sl, stripeFooter))
          = Inr (ws1, buffers, skipList, bufs, sf)"
    unfolding bindE_eq_Inr by blast
  from r4 obtain ft where ft: "CreateStripeFooter (skipList0\<lparr>blockSkipNodeArray := nodes\<rparr>) sl = Inr ft"
    and r5: "(ws0\<lparr>stripeSkipList := Some (skipList0\<lparr>blockSkipNodeArray := nodes\<rparr>)\<rparr>, bfs,
                  skipList0\<lparr>blockSkipNodeArray := nodes\<rparr>, sl, ft)
          = (ws1, buffers, skipList, bufs, sf)"
    unfolding bindE_eq_Inr by blast
  from r5 have e: "ws1 = ws0\<lparr>stripeSkipList := Some skipList\<rparr>" "buffers = bfs"
    "skipList = skipList0\<lparr>blockSkipNodeArray := nodes\<rparr>" "bufs = sl" "sf = ft"
    by auto
  show ?thesis
    by (rule that[OF b0 s0 nz w0 bf[folded e(2)] nd[folded e(2)] e(3) sl[folded e(3) e(4)]
          ft[folded e(3) e(4) e(5)] e(1)])
qed

lemma PrepareStripe_frame:
  assumes "PrepareStripe host ws = Inr (ws1, buffers, skipList, bufs, sf)"
  shows "relation ws1 = relation ws \<and> activeBlockNumber ws1 = activeBlockNumber ws
       \<and> tableFooter ws1 = tableFooter ws \<and> currentFileOffset ws1 = currentFileOffset ws
       \<and> tupleDescriptor ws1 = tupleDescriptor ws
       \<and> stripeMaxRowCount ws1 = stripeMaxRowCount ws \<and> logging ws1 = logging ws"
proof (rule PrepareStripe_Inr[OF assms])
  fix buffers0 skipList0 ws0 nodes
  assume m: "(if 0 < rowCount_sb buffers0 mod blockRowCount (tableFooter ws)
      then SerializeBlockData host ws (rowCount_sb buffers0 div blockRowCount (tableFooter ws))
             (rowCount_sb buffers0 mod blockRowCount (tableFooter ws))
      else Inr ws) = Inr ws0"
    and w1: "ws1 = ws0\<lparr>stripeSkipList := Some skipList\<rparr>"
  have "relation ws0 = relation ws \<and> activeBlockNumber ws0 = activeBlockNumber ws
       \<and> tableFooter ws0 = tableFooter ws \<and> currentFileOffset ws0 = currentFileOffset ws
       \<and> tupleDescriptor ws0 = tupleDescriptor ws
       \<and> stripeMaxRowCount ws0 = stripeMaxRowCount ws \<and> logging ws0 = logging ws"
  proof (cases "0 < rowCount_sb buffers0 mod blockRowCount (tableFooter ws)")
    case True
    with m SerializeBlockData_frame show ?thesis by simp
  next
    case False
    with m show ?thesis by simp
  qed
  then show ?thesis unfolding w1 by simp
qed

lemma FlushStripe_Inr:
  assumes "FlushStripe host ws = Inr (md, ws')"
  obtains ws1 buffers skipList bufs sf ws2 ws3 ws4 skipListLen dataLen where
    "PrepareStripe host ws = Inr (ws1, buffers, skipList, bufs, sf)"
    "foldE (FlushSkipListBuffer host bufs) [0..<length (tupleDescriptor ws1)] ws1 = Inr ws2"
    "foldE (FlushColumnData host buffers (blockCount skipList)) [0..<length (tupleDescriptor ws1)] ws2
       = Inr ws3"
    "WriteToFile host ws3 (SerializeStripeFooter host sf) = Inr ws4"
    "foldE (AddColumnLengths sf) [0..<length (tupleDescriptor ws1)] (0, 0) = Inr (skipListLen, dataLen)"
    "md = \<lparr>fileOffset = currentFileOffset ws4, skipListLength = skipListLen,
           dataLength = dataLen, footerLength = of_nat (length (SerializeStripeFooter host sf))\<rparr>"
    "ws' = ws4\<lparr>currentFileOffset := currentFileOffset ws4 + skipListLen + dataLen
                  + of_nat (length (SerializeStripeFooter host sf))\<rparr>"
  using assms unfolding FlushStripe_def Let_def
  by (auto simp: bindE_eq_Inr split: prod.splits)

lemma WriteToFile_streamInv:
  assumes "WriteToFile host ws data = Inr ws'" "streamInv ws0 ws"
  shows "streamInv ws0 ws' \<and> dataStream ws' = dataStream ws @ data"
  using WriteToFile_stream[OF assms(1)] assms(2) sameSession_trans
  unfolding streamInv_def by blast

lemma FlushSkipListBuffers_stream:
  assumes "foldE (FlushSkipListBuffer host bufs) cols ws = Inr ws'" "streamInv ws0 ws"
  shows "streamInv ws0 ws' \<and> dataStream ws' = dataStream ws @ concat (map (\<lambda>c. bufs ! c) cols)"
proof (rule foldE_emit[where I="streamInv ws0" and out=dataStream and g="\<lambda>c. bufs ! c", OF assms])
  fix x t t'
  assume "streamInv ws0 t" "FlushSkipListBuffer host bufs x t = Inr t'"
  then show "streamInv ws0 t' \<and> dataStream t' = dataStream t @ bufs ! x"
    using WriteToFile_streamInv
    by (auto simp: FlushSkipListBuffer_def bindE_eq_Inr nth_chk_Inr)
qed

lemma FlushExistsBuffers_stream:
  assumes "foldE (FlushExistsBuffer host cb) blocks ws = Inr ws'" "streamInv ws0 ws"
  shows "streamInv ws0 ws'
       \<and> dataStream ws' = dataStream ws @ concat (map (\<lambda>b. the (existsBuffer (cb ! b))) blocks)"
proof (rule foldE_emit[where I="streamInv ws0" and out=dataStream and g="\<lambda>b. the (existsBuffer (cb ! b))", OF assms])
  fix x t t'
  assume "streamInv ws0 t" "FlushExistsBuffer host cb x t = Inr t'"
  then show "streamInv ws0 t' \<and> dataStream t' = dataStream t @ the (existsBuffer (cb ! x))"
    using WriteToFile_streamInv
    by (auto simp: FlushExistsBuffer_def bindE_eq_Inr nth_chk_Inr deref_Inr)
qed

lemma FlushValueBuffers_stream:
  assumes "foldE (FlushValueBuffer host cb) blocks ws = Inr ws'" "streamInv ws0 ws"
  shows "streamInv ws0 ws'
       \<and> dataStream ws' = dataStream ws @ concat (map (\<lambda>b. the (valueBuffer (cb ! b))) blocks)"
proof (rule foldE_emit[where I="streamInv ws0" and out=dataStream and g="\<lambda>b. the (valueBuffer (cb ! b))", OF assms])
  fix x t t'
  assume "streamInv ws0 t" "FlushValueBuffer host cb x t = Inr t'"
  then show "streamInv ws0 t' \<and> dataStream t' = dataStream t @ the (valueBuffer (cb ! x))"
    using WriteToFile_streamInv
    by (auto simp: FlushValueBuffer_def bindE_eq_Inr nth_chk_Inr deref_Inr)
qed

lemma FlushColumnData_stream:
  assumes "foldE (FlushColumnData host buffers n) cols ws = Inr ws'" "streamInv ws0 ws"
  shows "streamInv ws0 ws'
       \<and> dataStream ws' = dataStream ws
           @ concat (map (\<lambda>c. concat (map (\<lambda>b. the (existsBuffer (columnBuffersArray buffers ! c ! b))) [0..<n])
                              @ concat (map (\<lambda>b. the (valueBuffer (columnBuffersArray buffers ! c ! b))) [0..<n]))
                      cols)"
proof (rule foldE_emit[where I="streamInv ws0" and out=dataStream and g="\<lambda>c. concat (map (\<lambda>b. the (existsBuffer (columnBuffersArray buffers ! c ! b))) [0..<n])
                              @ concat (map (\<lambda>b. the (valueBuffer (columnBuffersArray buffers ! c ! b))) [0..<n])", OF assms])
  fix x t t'
  assume inv: "streamInv ws0 t" and run: "FlushColumnData host buffers n x t = Inr t'"
  from run obtain t1 where
    a: "foldE (FlushExistsBuffer host (columnBuffersArray buffers ! x)) [0..<n] t = Inr t1"
    and b: "foldE (FlushValueBuffer host (columnBuffersArray buffers ! x)) [0..<n] t1 = Inr t'"
    by (auto simp: FlushColumnData_def bindE_eq_Inr nth_chk_Inr)
  from FlushExistsBuffers_stream[OF a inv] have 1: "streamInv ws0 t1" and
    2: "dataStream t1 = dataStream t
          @ concat (map (\<lambda>b. the (existsBuffer (columnBuffersArray buffers ! x ! b))) [0..<n])"
    by simp_all
  from FlushValueBuffers_stream[OF b 1] 2
  show "streamInv ws0 t' \<and> dataStream t' = dataStream t
           @ (concat (map (\<lambda>b. the (existsBuffer (columnBuffersArray buffers ! x ! b))) [0..<n])
              @ concat (map (\<lambda>b. the (valueBuffer (columnBuffersArray buffers ! x ! b))) [0..<n]))"
    by simp
qed

lemma mapE_Inr:
  "mapE f xs = Inr ys \<Longrightarrow> length ys = length xs \<and> (\<forall>i < length xs. f (xs ! i) = Inr (ys ! i))"
proof (induction xs arbitrary: ys)
  case Nil
  then show ?case by simp
next
  case (Cons x xs)
  from Cons.prems obtain y zs where y: "f x = Inr y" and zs: "mapE f xs = Inr zs" and ys: "ys = y # zs"
    by (auto simp: bindE_eq_Inr)
  from Cons.IH[OF zs] y ys show ?case
    by (auto simp: nth_Cons split: nat.splits)
qed

lemma CreateSkipListBufferArray_nth:
  assumes "CreateSkipListBufferArray host skipList tupleDesc = Inr bufs"
  shows "length bufs = columnCount_sl skipList
       \<and> (\<forall>c < columnCount_sl skipList.
             bufs ! c = SerializeColumnSkipList host (blockSkipNodeArray skipList ! c)
                          (blockCount skipList) (attbyval (tupleDesc ! c)) (attlen (tupleDesc ! c)))"
proof -
  from mapE_Inr[OF assms[unfolded CreateSkipListBufferArray_def]]
  show ?thesis by (auto simp: bindE_eq_Inr nth_chk_Inr)
qed

subsection \<open>The bytes of a stripe\<close>

text \<open>
  Claim C3. \<^verbatim>\<open>FlushStripe\<close> appends to the stream of the data fork exactly: the serialized
  skip list of each column, in column order; then for each column, in column order, the
  exists buffers of all its blocks in block order followed by the value buffers of all its
  blocks in block order; then the serialized stripe footer.
\<close>

theorem stripe_byte_layout:
  assumes run: "FlushStripe host ws = Inr (md, ws')" and inv: "forkInv ws"
  shows "\<exists>ws1 buffers skipList bufs sf.
           PrepareStripe host ws = Inr (ws1, buffers, skipList, bufs, sf)
         \<and> (\<forall>c < columnCount_sl skipList.
               bufs ! c = SerializeColumnSkipList host (blockSkipNodeArray skipList ! c)
                            (blockCount skipList) (attbyval (tupleDescriptor ws ! c))
                            (attlen (tupleDescriptor ws ! c)))
         \<and> dataStream ws' =
             dataStream ws
             @ concat (map (\<lambda>c. bufs ! c) [0..<length (tupleDescriptor ws)])
             @ concat (map (\<lambda>c.
                   concat (map (\<lambda>b. the (existsBuffer (columnBuffersArray buffers ! c ! b)))
                             [0..<blockCount skipList])
                 @ concat (map (\<lambda>b. the (valueBuffer (columnBuffersArray buffers ! c ! b)))
                             [0..<blockCount skipList]))
                 [0..<length (tupleDescriptor ws)])
             @ SerializeStripeFooter host sf
         \<and> forkInv ws'"
proof (rule FlushStripe_Inr[OF run])
  fix ws1 buffers skipList bufs sf ws2 ws3 ws4 skipListLen dataLen
  assume prep: "PrepareStripe host ws = Inr (ws1, buffers, skipList, bufs, sf)"
    and f1: "foldE (FlushSkipListBuffer host bufs) [0..<length (tupleDescriptor ws1)] ws1 = Inr ws2"
    and f2: "foldE (FlushColumnData host buffers (blockCount skipList))
               [0..<length (tupleDescriptor ws1)] ws2 = Inr ws3"
    and f3: "WriteToFile host ws3 (SerializeStripeFooter host sf) = Inr ws4"
    and ws': "ws' = ws4\<lparr>currentFileOffset := currentFileOffset ws4 + skipListLen + dataLen
                  + of_nat (length (SerializeStripeFooter host sf))\<rparr>"
  have fr: "relation ws1 = relation ws" "activeBlockNumber ws1 = activeBlockNumber ws"
    "tupleDescriptor ws1 = tupleDescriptor ws"
    using PrepareStripe_frame[OF prep] by simp_all
  have i1: "streamInv ws1 ws1"
    using inv fr by (simp add: streamInv_def forkInv_def split: option.splits)
  have s1: "dataStream ws1 = dataStream ws" using fr by (simp add: dataStream_def)
  from FlushSkipListBuffers_stream[OF f1 i1] have i2: "streamInv ws1 ws2"
    and s2: "dataStream ws2 = dataStream ws1
               @ concat (map (\<lambda>c. bufs ! c) [0..<length (tupleDescriptor ws1)])"
    by simp_all
  from FlushColumnData_stream[OF f2 i2] have i3: "streamInv ws1 ws3"
    and s3: "dataStream ws3 = dataStream ws2
           @ concat (map (\<lambda>c. concat (map (\<lambda>b. the (existsBuffer (columnBuffersArray buffers ! c ! b))) [0..<blockCount skipList])
                              @ concat (map (\<lambda>b. the (valueBuffer (columnBuffersArray buffers ! c ! b))) [0..<blockCount skipList]))
                      [0..<length (tupleDescriptor ws1)])"
    by simp_all
  from WriteToFile_streamInv[OF f3 i3] have i4: "streamInv ws1 ws4"
    and s4: "dataStream ws4 = dataStream ws3 @ SerializeStripeFooter host sf"
    by simp_all
  have s': "dataStream ws' = dataStream ws4" "forkInv ws'"
    using i4 by (simp_all add: ws' dataStream_def forkInv_def streamInv_def split: option.splits)
  have bufs: "\<forall>c < columnCount_sl skipList.
               bufs ! c = SerializeColumnSkipList host (blockSkipNodeArray skipList ! c)
                            (blockCount skipList) (attbyval (tupleDescriptor ws ! c))
                            (attlen (tupleDescriptor ws ! c))"
  proof (rule PrepareStripe_Inr[OF prep])
    fix buffers0 skipList0 ws0 nodes
    assume c: "CreateSkipListBufferArray host skipList (tupleDescriptor ws0) = Inr bufs"
      and w: "ws1 = ws0\<lparr>stripeSkipList := Some skipList\<rparr>"
    have "tupleDescriptor ws0 = tupleDescriptor ws" using fr(3) w by simp
    with CreateSkipListBufferArray_nth[OF c] show ?thesis by simp
  qed
  from prep bufs s' s4 s3 s2 s1 fr(3) show ?thesis by simp
qed

lemma WriteToFile_sameSession:
  assumes "WriteToFile host t d = Inr t'"
  shows "sameSession t t'"
proof (cases "dataFork (relation t)")
  case None
  then show ?thesis using assms by (simp add: WriteToFile_def)
next
  case (Some pages)
  show ?thesis
  proof (cases "d = []")
    case True
    with assms Some show ?thesis by (simp add: WriteToFile_def)
  next
    case False
    with assms Some obtain a p e where
      "t' = t\<lparr>activeBlockNumber := a,
               relation := (relation t)\<lparr>dataFork := Some p, bufferEvents := e\<rparr>\<rparr>"
      by (auto simp: WriteToFile_def bindE_eq_Inr split: if_splits)
    then show ?thesis by (simp add: sameSession_def)
  qed
qed

lemma FlushStripe_offsets:
  assumes run: "FlushStripe host ws = Inr (md, ws')"
  shows "fileOffset md = currentFileOffset ws \<and> currentFileOffset ws' = stripeEnd md
       \<and> tableFooter ws' = tableFooter ws \<and> stripeMaxRowCount ws' = stripeMaxRowCount ws
       \<and> tupleDescriptor ws' = tupleDescriptor ws"
proof (rule FlushStripe_Inr[OF run])
  fix ws1 buffers skipList bufs sf ws2 ws3 ws4 skipListLen dataLen
  assume prep: "PrepareStripe host ws = Inr (ws1, buffers, skipList, bufs, sf)"
    and f1: "foldE (FlushSkipListBuffer host bufs) [0..<length (tupleDescriptor ws1)] ws1 = Inr ws2"
    and f2: "foldE (FlushColumnData host buffers (blockCount skipList))
               [0..<length (tupleDescriptor ws1)] ws2 = Inr ws3"
    and f3: "WriteToFile host ws3 (SerializeStripeFooter host sf) = Inr ws4"
    and md: "md = \<lparr>fileOffset = currentFileOffset ws4, skipListLength = skipListLen,
           dataLength = dataLen, footerLength = of_nat (length (SerializeStripeFooter host sf))\<rparr>"
    and ws': "ws' = ws4\<lparr>currentFileOffset := currentFileOffset ws4 + skipListLen + dataLen
                  + of_nat (length (SerializeStripeFooter host sf))\<rparr>"
  have fr: "tableFooter ws1 = tableFooter ws" "currentFileOffset ws1 = currentFileOffset ws"
    "stripeMaxRowCount ws1 = stripeMaxRowCount ws" "tupleDescriptor ws1 = tupleDescriptor ws"
    using PrepareStripe_frame[OF prep] by simp_all
  have wtf: "sameSession ws1 t'" if "sameSession ws1 t" "WriteToFile host t d = Inr t'" for t t' d
    using sameSession_trans[OF that(1) WriteToFile_sameSession[OF that(2)]] .
  have s2: "sameSession ws1 ws2"
    by (rule foldE_inv[OF f1, where P="sameSession ws1"])
      (use wtf in \<open>auto simp: FlushSkipListBuffer_def bindE_eq_Inr\<close>)
  have s3: "sameSession ws1 ws3"
  proof (rule foldE_inv[OF f2, where P="sameSession ws1"])
    show "sameSession ws1 ws2" by (rule s2)
  next
    fix x t t'
    assume t: "sameSession ws1 t" and r: "FlushColumnData host buffers (blockCount skipList) x t = Inr t'"
    from r obtain t1 where
      a: "foldE (FlushExistsBuffer host (columnBuffersArray buffers ! x)) [0..<blockCount skipList] t = Inr t1"
      and b: "foldE (FlushValueBuffer host (columnBuffersArray buffers ! x)) [0..<blockCount skipList] t1 = Inr t'"
      by (auto simp: FlushColumnData_def bindE_eq_Inr nth_chk_Inr)
    have "sameSession ws1 t1"
      by (rule foldE_inv[OF a, where P="sameSession ws1"])
        (use t wtf in \<open>auto simp: FlushExistsBuffer_def bindE_eq_Inr\<close>)
    then show "sameSession ws1 t'"
      by (rule foldE_inv[OF b, where P="sameSession ws1"])
        (use wtf in \<open>auto simp: FlushValueBuffer_def bindE_eq_Inr\<close>)
  qed
  have s4: "sameSession ws1 ws4" using wtf[OF s3 f3] .
  then have "currentFileOffset ws4 = currentFileOffset ws" "tableFooter ws4 = tableFooter ws"
    "stripeMaxRowCount ws4 = stripeMaxRowCount ws" "tupleDescriptor ws4 = tupleDescriptor ws"
    using fr by (simp_all add: sameSession_def)
  then show ?thesis by (simp add: md ws' stripeEnd_def)
qed

lemma InsertRow_Inr:
  assumes "InsertRow host ws columnValues columnNulls = Inr ws'"
  obtains ws1 buffers skipList blockDatas skipNodes ws3 buffers3 where
    "blockRowCount (tableFooter ws) \<noteq> 0"
    "(if stripeBuffers ws = None then InitStripe ws else Inr ws) = Inr ws1"
    "stripeBuffers ws1 = Some buffers" "stripeSkipList ws1 = Some skipList"
    "foldE (WriteColumn host ws1 (rowCount_sb buffers div blockRowCount (tableFooter ws))
              (rowCount_sb buffers mod blockRowCount (tableFooter ws)) columnValues columnNulls)
       [0..<length (tupleDescriptor ws)] (blockDataArray ws1, blockSkipNodeArray skipList)
     = Inr (blockDatas, skipNodes)"
    "(if rowCount_sb buffers mod blockRowCount (tableFooter ws) = blockRowCount (tableFooter ws) - 1
      then SerializeBlockData host
             (ws1\<lparr>blockDataArray := blockDatas,
                  stripeSkipList := Some (skipList\<lparr>blockSkipNodeArray := skipNodes,
                      blockCount := rowCount_sb buffers div blockRowCount (tableFooter ws) + 1\<rparr>)\<rparr>)
             (rowCount_sb buffers div blockRowCount (tableFooter ws)) (blockRowCount (tableFooter ws))
      else Inr (ws1\<lparr>blockDataArray := blockDatas,
                  stripeSkipList := Some (skipList\<lparr>blockSkipNodeArray := skipNodes,
                      blockCount := rowCount_sb buffers div blockRowCount (tableFooter ws) + 1\<rparr>)\<rparr>))
     = Inr ws3"
    "stripeBuffers ws3 = Some buffers3"
    "ws' = ws3\<lparr>stripeBuffers := Some (buffers3\<lparr>rowCount_sb := rowCount_sb buffers3 + 1\<rparr>)\<rparr>"
proof -
  have nz: "blockRowCount (tableFooter ws) \<noteq> 0"
    using assms unfolding InsertRow_def Let_def by (auto split: if_splits)
  show ?thesis
    using assms nz that unfolding InsertRow_def Let_def
    by (auto simp: bindE_eq_Inr deref_Inr split: prod.splits)
qed

lemma InitStripe_frame:
  assumes "(if stripeBuffers ws = None then InitStripe ws else Inr ws) = Inr ws1"
  shows "relation ws1 = relation ws \<and> activeBlockNumber ws1 = activeBlockNumber ws
       \<and> tableFooter ws1 = tableFooter ws \<and> currentFileOffset ws1 = currentFileOffset ws
       \<and> tupleDescriptor ws1 = tupleDescriptor ws
       \<and> stripeMaxRowCount ws1 = stripeMaxRowCount ws \<and> logging ws1 = logging ws
       \<and> comparisonFunctionArray ws1 = comparisonFunctionArray ws
       \<and> compressionType ws1 = compressionType ws"
  using assms by (auto simp: InitStripe_def Let_def split: if_splits)

lemma InsertRow_frame:
  assumes "InsertRow host ws columnValues columnNulls = Inr ws'"
  shows "relation ws' = relation ws \<and> activeBlockNumber ws' = activeBlockNumber ws
       \<and> tableFooter ws' = tableFooter ws \<and> currentFileOffset ws' = currentFileOffset ws
       \<and> tupleDescriptor ws' = tupleDescriptor ws
       \<and> stripeMaxRowCount ws' = stripeMaxRowCount ws \<and> logging ws' = logging ws
       \<and> stripeBuffers ws' \<noteq> None"
proof (rule InsertRow_Inr[OF assms])
  fix ws1 ws3 :: TableWriteState and buffers buffers3 :: StripeBuffers
    and skipList :: StripeSkipList and blockDatas :: "ColumnBlockData list"
    and skipNodes :: "ColumnBlockSkipNode list list"
  let ?ws2 = "ws1\<lparr>blockDataArray := blockDatas,
                  stripeSkipList := Some (skipList\<lparr>blockSkipNodeArray := skipNodes,
                      blockCount := rowCount_sb buffers div blockRowCount (tableFooter ws) + 1\<rparr>)\<rparr>"
  assume i: "(if stripeBuffers ws = None then InitStripe ws else Inr ws) = Inr ws1"
    and s: "(if rowCount_sb buffers mod blockRowCount (tableFooter ws) = blockRowCount (tableFooter ws) - 1
      then SerializeBlockData host ?ws2
             (rowCount_sb buffers div blockRowCount (tableFooter ws)) (blockRowCount (tableFooter ws))
      else Inr ?ws2) = Inr ws3"
    and w: "ws' = ws3\<lparr>stripeBuffers := Some (buffers3\<lparr>rowCount_sb := rowCount_sb buffers3 + 1\<rparr>)\<rparr>"
  have "relation ws3 = relation ?ws2 \<and> activeBlockNumber ws3 = activeBlockNumber ?ws2
       \<and> tableFooter ws3 = tableFooter ?ws2 \<and> currentFileOffset ws3 = currentFileOffset ?ws2
       \<and> tupleDescriptor ws3 = tupleDescriptor ?ws2
       \<and> stripeMaxRowCount ws3 = stripeMaxRowCount ?ws2 \<and> logging ws3 = logging ?ws2"
  proof (cases "rowCount_sb buffers mod blockRowCount (tableFooter ws) = blockRowCount (tableFooter ws) - 1")
    case True
    with s have "SerializeBlockData host ?ws2
             (rowCount_sb buffers div blockRowCount (tableFooter ws)) (blockRowCount (tableFooter ws)) = Inr ws3"
      by simp
    from SerializeBlockData_frame[OF this] show ?thesis by simp
  next
    case False
    with s show ?thesis by simp
  qed
  with InitStripe_frame[OF i] show ?thesis by (simp add: w)
qed

lemma offsetsChained_snoc:
  "offsetsChained (ms @ [m]) \<longleftrightarrow>
     offsetsChained ms \<and> (ms \<noteq> [] \<longrightarrow> fileOffset m = stripeEnd (last ms))"
  by (induction ms rule: offsetsChained.induct) auto

lemma offsetsChained_adjacent:
  "offsetsChained ms \<Longrightarrow> i + 1 < length ms \<Longrightarrow> fileOffset (ms ! (i + 1)) = stripeEnd (ms ! i)"
proof (induction ms arbitrary: i rule: offsetsChained.induct)
  case (3 m n rest)
  then show ?case by (cases i) auto
qed simp_all

lemma FlushStripe_append_cursor:
  assumes inv: "cursorInv ws" and run: "FlushStripe host ws = Inr (md, ws1)"
    and ws': "tableFooter ws' = AppendStripeMetadata (tableFooter ws1) md"
             "currentFileOffset ws' = currentFileOffset ws1"
  shows "cursorInv ws'"
proof -
  from FlushStripe_offsets[OF run] have
    a: "fileOffset md = currentFileOffset ws" and b: "currentFileOffset ws1 = stripeEnd md"
    and c: "tableFooter ws1 = tableFooter ws"
    by simp_all
  show ?thesis
    using inv a b c ws'
    by (auto simp: cursorInv_def AppendStripeMetadata_def offsetsChained_snoc)
qed

lemma FlushAndAppend_cursor:
  assumes inv: "cursorInv ws" and run: "FlushAndAppend host ws = Inr ws'"
  shows "cursorInv ws'"
proof -
  from run obtain md ws1 where f: "FlushStripe host ws = Inr (md, ws1)"
    and w: "ws' = (ResetStripeContext ws1)\<lparr>stripeBuffers := None, stripeSkipList := None,
              tableFooter := AppendStripeMetadata (tableFooter (ResetStripeContext ws1)) md\<rparr>"
    unfolding FlushAndAppend_def Let_def by (auto simp: bindE_eq_Inr)
  show ?thesis
    by (rule FlushStripe_append_cursor[OF inv f]) (simp_all add: w ResetStripeContext_def)
qed

lemma CStoreWriteRow_cursor:
  assumes inv: "cursorInv ws" and run: "CStoreWriteRow host ws columnValues columnNulls = Inr ws'"
  shows "cursorInv ws'"
proof -
  from run obtain ws1 and buffers :: StripeBuffers
    where i: "InsertRow host ws columnValues columnNulls = Inr ws1"
    and r: "(if stripeMaxRowCount ws1 \<le> rowCount_sb buffers then FlushAndAppend host ws1 else Inr ws1)
            = Inr ws'"
    unfolding CStoreWriteRow_def by (auto simp: bindE_eq_Inr)
  have inv1: "cursorInv ws1" using inv InsertRow_frame[OF i] by (simp add: cursorInv_def)
  show ?thesis
  proof (cases "stripeMaxRowCount ws1 \<le> rowCount_sb buffers")
    case True
    with r FlushAndAppend_cursor[OF inv1] show ?thesis by simp
  next
    case False
    with r inv1 show ?thesis by simp
  qed
qed

lemma FlushPending_cursor:
  assumes inv: "cursorInv ws" and run: "FlushPending host ws = Inr ws'"
  shows "cursorInv ws'"
proof (cases "stripeBuffers ws = None")
  case True
  with run inv show ?thesis by (simp add: FlushPending_def)
next
  case False
  with run obtain md ws1 where f: "FlushStripe host ws = Inr (md, ws1)"
    and w: "ws' = (ResetStripeContext ws1)\<lparr>
              tableFooter := AppendStripeMetadata (tableFooter (ResetStripeContext ws1)) md\<rparr>"
    unfolding FlushPending_def Let_def by (auto simp: bindE_eq_Inr)
  show ?thesis
    by (rule FlushStripe_append_cursor[OF inv f]) (simp_all add: w ResetStripeContext_def)
qed

lemma CStoreBeginWrite_cursor:
  assumes "offsetsChained (stripeMetadataList
             (case CStoreReadFooter host rel of
                None \<Rightarrow> \<lparr>stripeMetadataList = [], blockRowCount = blockRows\<rparr>
              | Some existing \<Rightarrow> existing))"
  shows "cursorInv (CStoreBeginWrite host rel compression stripeMaxRows blockRows loggingOn tupleDesc)"
  using assms
  by (simp add: cursorInv_def CStoreBeginWrite_def Let_def stripeEnd_def add.assoc)

lemmas eval_defs = CStoreWriteRow_def InsertRow_def InitStripe_def WriteColumn_def
  CreateEmptyStripeBuffers_def CreateEmptyStripeSkipList_def CreateEmptyBlockDataArray_def
  SerializeBlockData_def SerializeBlockExists_def SerializeBlockValues_def SerializeBoolArray_def
  SerializeSingleDatum_def att_addlength_datum_def att_align_nominal_def store_att_byval_def
  DatumGetPointer_def DatumCopy_def UpdateBlockSkipNodeMinMax_def emptyBlockBuffers_def
  emptySkipNode_def FlushAndAppend_def FlushStripe_def PrepareStripe_def UpdateColumnOffsets_def
  UpdateBlockOffsets_def CreateSkipListBufferArray_def CreateStripeFooter_def ColumnFooterSizes_def
  FlushSkipListBuffer_def FlushColumnData_def FlushExistsBuffer_def FlushValueBuffer_def
  AddColumnLengths_def AppendStripeMetadata_def ResetStripeContext_def WriteToFile_def
  CStoreBeginWrite_def EnsureDataForkExists_def nth_chk_def store_chk_def deref_def Assert_def
  MaxAllocSize_def Let_def

lemma noColumns_two_rows:
  "\<exists>ws2. bindE (CStoreWriteRow demoHost noColumnsState [] [])
               (\<lambda>ws1. CStoreWriteRow demoHost ws1 [] []) = Inr ws2
         \<and> stripeMetadataList (tableFooter ws2)
             = [\<lparr>fileOffset = 0, skipListLength = 0, dataLength = 0, footerLength = 0\<rparr>,
                \<lparr>fileOffset = 0, skipListLength = 0, dataLength = 0, footerLength = 0\<rparr>]"
  by (simp add: noColumnsState_def demoHost_def eval_defs)

subsection \<open>The offsets of the stripes\<close>

text \<open>
  Claim C1 says that the file offsets of the stripes of the footer are strictly increasing.
  They are not for a table without columns and a serializer that encodes an empty stripe
  footer in no bytes: two rows give two stripes of length 0 at offset 0.
\<close>

theorem stripe_offsets_counterexample:
  "\<exists>ws1 ws2. CStoreWriteRow demoHost noColumnsState [] [] = Inr ws1
      \<and> CStoreWriteRow demoHost ws1 [] [] = Inr ws2
      \<and> length (stripeMetadataList (tableFooter ws2)) = 2
      \<and> \<not> fileOffset (stripeMetadataList (tableFooter ws2) ! 0)
            < fileOffset (stripeMetadataList (tableFooter ws2) ! 1)"
proof -
  from noColumns_two_rows obtain ws1 ws2 where
    "CStoreWriteRow demoHost noColumnsState [] [] = Inr ws1"
    "CStoreWriteRow demoHost ws1 [] [] = Inr ws2"
    "stripeMetadataList (tableFooter ws2)
             = [\<lparr>fileOffset = 0, skipListLength = 0, dataLength = 0, footerLength = 0\<rparr>,
                \<lparr>fileOffset = 0, skipListLength = 0, dataLength = 0, footerLength = 0\<rparr>]"
    by (auto simp: bindE_eq_Inr)
  then show ?thesis by auto
qed

lemma demo_two_rows:
  "\<exists>ws2. bindE (CStoreWriteRow demoHost demoState [DatumWord 5] [False])
               (\<lambda>ws1. CStoreWriteRow demoHost ws1 [DatumWord 7] [False]) = Inr ws2"
  by (simp add: demoState_def demoHost_def demoTupleDesc_def eval_defs upt_rec
      WriteToFile_loop.simps PageInit_def BLCKSZ_def SizeOfPageHeaderData_def
      CSTORE_PAGE_DATA_SIZE_def)

lemma demo_insert_flush:
  "\<exists>r. bindE (InsertRow demoHost demoState [DatumWord 5] [False]) (FlushStripe demoHost) = Inr r"
  by (simp add: demoState_def demoHost_def demoTupleDesc_def eval_defs upt_rec
      WriteToFile_loop.simps PageInit_def BLCKSZ_def SizeOfPageHeaderData_def
      CSTORE_PAGE_DATA_SIZE_def)

lemma unat_add64:
  fixes a b :: uint64
  assumes "unat a + unat b < 2 ^ 64"
  shows "unat (a + b) = unat a + unat b"
  using assms unat_add_lem[of a b] by simp

lemma stripeEnd_strict:
  fixes m :: StripeMetadata
  assumes pos: "0 < unat (skipListLength m) + unat (dataLength m) + unat (footerLength m)"
    and fit: "unat (fileOffset m) + unat (skipListLength m) + unat (dataLength m)
                + unat (footerLength m) < 2 ^ 64"
  shows "fileOffset m < stripeEnd m"
proof -
  have 1: "unat (fileOffset m + skipListLength m) = unat (fileOffset m) + unat (skipListLength m)"
    using fit by (intro unat_add64) simp
  have 2: "unat (fileOffset m + skipListLength m + dataLength m)
           = unat (fileOffset m) + unat (skipListLength m) + unat (dataLength m)"
    using fit 1 by (subst unat_add64) simp_all
  have 3: "unat (stripeEnd m)
           = unat (fileOffset m) + unat (skipListLength m) + unat (dataLength m)
             + unat (footerLength m)"
    unfolding stripeEnd_def using fit 2 by (subst unat_add64) simp_all
  show ?thesis
    using pos by (simp add: word_less_nat_alt 3)
qed

text \<open>
  Claim C1, amended. \<^verbatim>\<open>FlushStripe\<close> returns metadata whose file offset is the cursor before
  the flush, and advances the cursor by the three lengths it reports. The cursor that
  \<^verbatim>\<open>CStoreBeginWrite\<close> computes, every \<^verbatim>\<open>CStoreWriteRow\<close> and the flush of
  \<^verbatim>\<open>CStoreEndWrite\<close> keep the stripes of the footer chained: each stripe starts where the
  one before it ends, in \<^verbatim>\<open>uint64\<close> arithmetic. The offset of the next stripe is greater
  when the three lengths of a stripe are not all zero and its end does not exceed the
  \<^verbatim>\<open>uint64\<close> range.
\<close>

theorem stripe_offsets_chained:
  "(FlushStripe host ws = Inr (md, ws1) \<longrightarrow>
      fileOffset md = currentFileOffset ws
    \<and> currentFileOffset ws1
        = currentFileOffset ws + skipListLength md + dataLength md + footerLength md)
   \<and> (offsetsChained (stripeMetadataList
          (case CStoreReadFooter host rel of
             None \<Rightarrow> \<lparr>stripeMetadataList = [], blockRowCount = blockRows\<rparr>
           | Some existing \<Rightarrow> existing)) \<longrightarrow>
       cursorInv (CStoreBeginWrite host rel compression stripeMaxRows blockRows loggingOn tupleDesc))
   \<and> (cursorInv ws \<and> CStoreWriteRow host ws columnValues columnNulls = Inr ws2 \<longrightarrow> cursorInv ws2)
   \<and> (cursorInv ws \<and> FlushPending host ws = Inr ws3 \<longrightarrow> cursorInv ws3)
   \<and> (offsetsChained ms \<and> i + 1 < length ms \<longrightarrow>
        fileOffset (ms ! (i + 1))
          = fileOffset (ms ! i) + skipListLength (ms ! i) + dataLength (ms ! i)
              + footerLength (ms ! i)
      \<and> (0 < unat (skipListLength (ms ! i)) + unat (dataLength (ms ! i))
                + unat (footerLength (ms ! i))
          \<and> unat (fileOffset (ms ! i)) + unat (skipListLength (ms ! i))
                + unat (dataLength (ms ! i)) + unat (footerLength (ms ! i)) < 2 ^ 64
          \<longrightarrow> fileOffset (ms ! i) < fileOffset (ms ! (i + 1))))"
proof (intro conjI impI)
  assume "FlushStripe host ws = Inr (md, ws1)"
  from FlushStripe_offsets[OF this]
  show "fileOffset md = currentFileOffset ws"
    and "currentFileOffset ws1
        = currentFileOffset ws + skipListLength md + dataLength md + footerLength md"
    by (simp_all add: stripeEnd_def)
next
  assume "offsetsChained (stripeMetadataList
          (case CStoreReadFooter host rel of
             None \<Rightarrow> \<lparr>stripeMetadataList = [], blockRowCount = blockRows\<rparr>
           | Some existing \<Rightarrow> existing))"
  then show "cursorInv (CStoreBeginWrite host rel compression stripeMaxRows blockRows loggingOn tupleDesc)"
    by (rule CStoreBeginWrite_cursor)
next
  assume "cursorInv ws \<and> CStoreWriteRow host ws columnValues columnNulls = Inr ws2"
  then show "cursorInv ws2" using CStoreWriteRow_cursor by blast
next
  assume "cursorInv ws \<and> FlushPending host ws = Inr ws3"
  then show "cursorInv ws3" using FlushPending_cursor by blast
next
  assume a: "offsetsChained ms \<and> i + 1 < length ms"
  then show adj: "fileOffset (ms ! (i + 1))
          = fileOffset (ms ! i) + skipListLength (ms ! i) + dataLength (ms ! i)
              + footerLength (ms ! i)"
    using offsetsChained_adjacent[of ms i] by (simp add: stripeEnd_def)
  assume "0 < unat (skipListLength (ms ! i)) + unat (dataLength (ms ! i))
                + unat (footerLength (ms ! i))
          \<and> unat (fileOffset (ms ! i)) + unat (skipListLength (ms ! i))
                + unat (dataLength (ms ! i)) + unat (footerLength (ms ! i)) < 2 ^ 64"
  then have "fileOffset (ms ! i) < stripeEnd (ms ! i)"
    using stripeEnd_strict[of "ms ! i"] by simp
  then show "fileOffset (ms ! i) < fileOffset (ms ! (i + 1))"
    using adj by (simp add: stripeEnd_def)
qed

lemma cursorInv_demoState: "cursorInv demoState"
  by (simp add: cursorInv_def demoState_def CStoreBeginWrite_def demoHost_def Let_def)

lemma demo_insert_pending:
  "\<exists>r. bindE (InsertRow demoHost demoState [DatumWord 5] [False]) (FlushPending demoHost) = Inr r"
  by (simp add: demoState_def demoHost_def demoTupleDesc_def eval_defs upt_rec FlushPending_def
      WriteToFile_loop.simps PageInit_def BLCKSZ_def SizeOfPageHeaderData_def
      CSTORE_PAGE_DATA_SIZE_def)

theorem stripe_offsets_chained_witness:
  "\<exists>st md ws1 ws2 ws3.
      InsertRow demoHost demoState [DatumWord 5] [False] = Inr st
    \<and> FlushStripe demoHost st = Inr (md, ws1)
    \<and> fileOffset md = currentFileOffset st
    \<and> currentFileOffset ws1
        = currentFileOffset st + skipListLength md + dataLength md + footerLength md
    \<and> offsetsChained (stripeMetadataList
          (case CStoreReadFooter resumeHost demoRelation of
             None \<Rightarrow> \<lparr>stripeMetadataList = [], blockRowCount = 2\<rparr>
           | Some existing \<Rightarrow> existing))
    \<and> cursorInv (CStoreBeginWrite resumeHost demoRelation COMPRESSION_NONE 2 2 False demoTupleDesc)
    \<and> currentFileOffset (CStoreBeginWrite resumeHost demoRelation COMPRESSION_NONE 2 2 False
         demoTupleDesc) = 9
    \<and> cursorInv demoState
    \<and> CStoreWriteRow demoHost demoState [DatumWord 5] [False] = Inr ws2
    \<and> cursorInv ws2
    \<and> cursorInv st
    \<and> FlushPending demoHost st = Inr ws3
    \<and> cursorInv ws3
    \<and> offsetsChained demoStripes \<and> 0 + 1 < length demoStripes
    \<and> fileOffset (demoStripes ! (0 + 1))
          = fileOffset (demoStripes ! 0) + skipListLength (demoStripes ! 0)
              + dataLength (demoStripes ! 0) + footerLength (demoStripes ! 0)
    \<and> 0 < unat (skipListLength (demoStripes ! 0)) + unat (dataLength (demoStripes ! 0))
                + unat (footerLength (demoStripes ! 0))
    \<and> unat (fileOffset (demoStripes ! 0)) + unat (skipListLength (demoStripes ! 0))
                + unat (dataLength (demoStripes ! 0)) + unat (footerLength (demoStripes ! 0)) < 2 ^ 64
    \<and> fileOffset (demoStripes ! 0) < fileOffset (demoStripes ! (0 + 1))"
proof -
  from demo_insert_flush obtain st md ws1 where
    ins: "InsertRow demoHost demoState [DatumWord 5] [False] = Inr st"
    and fl: "FlushStripe demoHost st = Inr (md, ws1)"
    by (auto simp: bindE_eq_Inr)
  from demo_insert_pending ins obtain ws3 where pend: "FlushPending demoHost st = Inr ws3"
    by (auto simp: bindE_eq_Inr)
  from demo_two_rows obtain ws2 where
    wr: "CStoreWriteRow demoHost demoState [DatumWord 5] [False] = Inr ws2"
    by (auto simp: bindE_eq_Inr)
  have cst: "cursorInv st"
    using cursorInv_demoState InsertRow_frame[OF ins] by (simp add: cursorInv_def)
  have ch: "offsetsChained (stripeMetadataList
          (case CStoreReadFooter resumeHost demoRelation of
             None \<Rightarrow> \<lparr>stripeMetadataList = [], blockRowCount = 2\<rparr>
           | Some existing \<Rightarrow> existing))"
    by (simp add: resumeHost_def demoStripes_def stripeEnd_def)
  have off9: "currentFileOffset (CStoreBeginWrite resumeHost demoRelation COMPRESSION_NONE 2 2 False
         demoTupleDesc) = 9"
    by (simp add: CStoreBeginWrite_def resumeHost_def demoStripes_def Let_def)
  have ch2: "offsetsChained demoStripes \<and> 0 + 1 < length demoStripes"
    by (simp add: demoStripes_def stripeEnd_def)
  have pos: "0 < unat (skipListLength (demoStripes ! 0)) + unat (dataLength (demoStripes ! 0))
                + unat (footerLength (demoStripes ! 0))
    \<and> unat (fileOffset (demoStripes ! 0)) + unat (skipListLength (demoStripes ! 0))
                + unat (dataLength (demoStripes ! 0)) + unat (footerLength (demoStripes ! 0)) < 2 ^ 64"
    by (simp add: demoStripes_def)
  note thm1 = stripe_offsets_chained[where host=demoHost and ws=st and md=md and ?ws1.0=ws1
      and ?ws3.0=ws3 and ms=demoStripes and i=0]
  note thm2 = stripe_offsets_chained[where host=resumeHost and rel=demoRelation
      and compression=COMPRESSION_NONE and stripeMaxRows=2 and blockRows=2 and loggingOn=False
      and tupleDesc=demoTupleDesc]
  note thm3 = stripe_offsets_chained[where host=demoHost and ws=demoState
      and columnValues="[DatumWord 5]" and columnNulls="[False]" and ?ws2.0=ws2]
  have c1: "fileOffset md = currentFileOffset st
    \<and> currentFileOffset ws1
        = currentFileOffset st + skipListLength md + dataLength md + footerLength md"
    using thm1 fl by blast
  have c2: "cursorInv (CStoreBeginWrite resumeHost demoRelation COMPRESSION_NONE 2 2 False demoTupleDesc)"
    using thm2 ch by blast
  have c3: "cursorInv ws2" using thm3 cursorInv_demoState wr by blast
  have c4: "cursorInv ws3" using thm1 cst pend by blast
  have c5: "fileOffset (demoStripes ! (0 + 1))
          = fileOffset (demoStripes ! 0) + skipListLength (demoStripes ! 0)
              + dataLength (demoStripes ! 0) + footerLength (demoStripes ! 0)
      \<and> fileOffset (demoStripes ! 0) < fileOffset (demoStripes ! (0 + 1))"
    using thm1 ch2 pos by blast
  from ins fl c1 ch c2 off9 cursorInv_demoState wr c3 cst pend c4 ch2 c5 pos
  show ?thesis by blast
qed

lemma forkInv_demoState: "forkInv demoState"
  by (simp add: forkInv_def demoState_def CStoreBeginWrite_def EnsureDataForkExists_def Let_def
      demoHost_def wf_page_def PageInit_def BLCKSZ_def SizeOfPageHeaderData_def
      CSTORE_PAGE_DATA_SIZE_def)

lemma demo_insert_flush_stream:
  "\<exists>st md ws'. InsertRow demoHost demoState [DatumWord 5] [False] = Inr st
      \<and> FlushStripe demoHost st = Inr (md, ws')
      \<and> dataStream ws' = [1, 1, 5, 0, 0, 0, 2]"
proof -
  have "\<exists>r. bindE (InsertRow demoHost demoState [DatumWord 5] [False]) (FlushStripe demoHost) = Inr r
          \<and> dataStream (snd r) = [1, 1, 5, 0, 0, 0, 2]"
    by (simp add: demoState_def demoHost_def demoTupleDesc_def eval_defs upt_rec
      WriteToFile_loop.simps PageInit_def BLCKSZ_def SizeOfPageHeaderData_def
      CSTORE_PAGE_DATA_SIZE_def dataStream_def forkStream_def payload_def memcpy_def)
  then show ?thesis by (auto simp: bindE_eq_Inr)
qed

theorem stripe_byte_layout_witness:
  "\<exists>st md ws'.
      InsertRow demoHost demoState [DatumWord 5] [False] = Inr st
    \<and> FlushStripe demoHost st = Inr (md, ws')
    \<and> forkInv st
    \<and> dataStream ws' = [1, 1, 5, 0, 0, 0, 2]
    \<and> (\<exists>ws1 buffers skipList bufs sf.
           PrepareStripe demoHost st = Inr (ws1, buffers, skipList, bufs, sf)
         \<and> dataStream ws' =
             dataStream st
             @ concat (map (\<lambda>c. bufs ! c) [0..<length (tupleDescriptor st)])
             @ concat (map (\<lambda>c.
                   concat (map (\<lambda>b. the (existsBuffer (columnBuffersArray buffers ! c ! b)))
                             [0..<blockCount skipList])
                 @ concat (map (\<lambda>b. the (valueBuffer (columnBuffersArray buffers ! c ! b)))
                             [0..<blockCount skipList]))
                 [0..<length (tupleDescriptor st)])
             @ SerializeStripeFooter demoHost sf
         \<and> forkInv ws')"
proof -
  from demo_insert_flush_stream obtain st md ws' where
    ins: "InsertRow demoHost demoState [DatumWord 5] [False] = Inr st"
    and fl: "FlushStripe demoHost st = Inr (md, ws')"
    and str: "dataStream ws' = [1, 1, 5, 0, 0, 0, 2]"
    by blast
  have inv: "forkInv st"
    using forkInv_demoState InsertRow_frame[OF ins]
    by (simp add: forkInv_def split: option.splits)
  from stripe_byte_layout[OF fl inv] ins fl inv str show ?thesis by blast
qed

subsection \<open>The rows of a stripe\<close>

lemma WriteColumn_Inr:
  assumes "WriteColumn host ws bi bri vals nulls c (X, Y) = Inr (X', Y')"
  obtains bd' n1 where
    "c < length X" "c < length nulls" "c < length Y" "bi < length (Y ! c)"
    "bri < length (existsArray (X ! c))"
    "X' = X[c := bd']"
    "Y' = Y[c := (Y ! c)[bi := n1\<lparr>rowCount := rowCount n1 + 1\<rparr>]]"
    "nulls ! c \<Longrightarrow>
       bd' = (X ! c)\<lparr>existsArray := (existsArray (X ! c))[bri := False]\<rparr> \<and> n1 = Y ! c ! bi"
    "\<not> nulls ! c \<Longrightarrow>
       c < length vals \<and> c < length (comparisonFunctionArray ws) \<and> c < length (tupleDescriptor ws)
     \<and> (\<exists>vb vb'. valueBuffer_bd (X ! c) = Some vb
           \<and> SerializeSingleDatum host vb (vals ! c) (attbyval (tupleDescriptor ws ! c))
               (attlen (tupleDescriptor ws ! c)) (attalign (tupleDescriptor ws ! c)) = Inr vb'
           \<and> bd' = (X ! c)\<lparr>existsArray := (existsArray (X ! c))[bri := True],
                              valueBuffer_bd := Some vb'\<rparr>)
     \<and> UpdateBlockSkipNodeMinMax host (Y ! c ! bi) (vals ! c) (attbyval (tupleDescriptor ws ! c))
          (attlen (tupleDescriptor ws ! c)) (attcollation (tupleDescriptor ws ! c))
          (comparisonFunctionArray ws ! c) = Inr n1"
proof (cases "nulls ! c")
  case True
  with assms that show ?thesis
    unfolding WriteColumn_def
    by (auto simp: bindE_eq_Inr nth_chk_Inr store_chk_Inr deref_Inr)
next
  case False
  with assms that show ?thesis
    unfolding WriteColumn_def
    by (auto simp: bindE_eq_Inr nth_chk_Inr store_chk_Inr deref_Inr)
qed

lemma DatumCopy_Inr: "DatumCopy host d bv len = Inr d' \<Longrightarrow> d' = d"
  unfolding DatumCopy_def DatumGetPointer_def
  by (cases d) (auto simp: bindE_eq_Inr split: if_splits)

lemma Update_rowCount:
  assumes "UpdateBlockSkipNodeMinMax host node v bv len coll cmp = Inr n1"
  shows "rowCount n1 = rowCount node"
  using assms unfolding UpdateBlockSkipNodeMinMax_def Let_def
  by (auto simp: bindE_eq_Inr split: option.splits if_splits)

lemma Update_None: "UpdateBlockSkipNodeMinMax host node v bv len coll None = Inr node"
  unfolding UpdateBlockSkipNodeMinMax_def by simp

lemma Update_Some:
  assumes "UpdateBlockSkipNodeMinMax host node v bv len coll (Some f) = Inr n1"
  shows "n1 = node\<lparr>hasMinMax := True,
     minimumValue := (if hasMinMax node \<and> \<not> f coll v (minimumValue node) < 0
                      then minimumValue node else v),
     maximumValue := (if hasMinMax node \<and> \<not> 0 < f coll v (maximumValue node)
                      then maximumValue node else v)\<rparr>"
  using assms unfolding UpdateBlockSkipNodeMinMax_def Let_def
  by (auto simp: bindE_eq_Inr split: if_splits dest!: DatumCopy_Inr)

lemma totalOrder_refl: "totalOrder f \<Longrightarrow> f a a = 0"
  unfolding totalOrder_def by (metis less_le not_le)

lemma totalOrder_flip: "totalOrder f \<Longrightarrow> \<not> f a b < 0 \<Longrightarrow> f b a \<le> 0"
  unfolding totalOrder_def by (metis not_le)

lemma totalOrder_flip2: "totalOrder f \<Longrightarrow> 0 < f a b \<Longrightarrow> f b a \<le> 0"
  unfolding totalOrder_def by (metis less_le)

lemma totalOrder_flip3: "totalOrder f \<Longrightarrow> f b a \<le> 0 \<Longrightarrow> 0 \<le> f a b"
  unfolding totalOrder_def by (metis not_le)

lemma totalOrder_flip4: "totalOrder f \<Longrightarrow> 0 \<le> f a b \<Longrightarrow> f b a \<le> 0"
  unfolding totalOrder_def by (metis not_le)

lemma totalOrder_trans: "totalOrder f \<Longrightarrow> f a b \<le> 0 \<Longrightarrow> f b c \<le> 0 \<Longrightarrow> f a c \<le> 0"
  unfolding totalOrder_def by blast

lemma Update_covers:
  assumes run: "UpdateBlockSkipNodeMinMax host node v bv len coll (Some f) = Inr n1"
    and tot: "totalOrder (f coll)"
    and cov: "if hasMinMax node
              then list_all (\<lambda>u. f coll (minimumValue node) u \<le> 0 \<and> 0 \<le> f coll (maximumValue node) u) vs
              else vs = []"
  shows "list_all (\<lambda>u. f coll (minimumValue n1) u \<le> 0 \<and> 0 \<le> f coll (maximumValue n1) u) (vs @ [v])"
proof (cases "hasMinMax node")
  case False
  with cov have "vs = []" by simp
  with False show ?thesis
    unfolding Update_Some[OF run] using totalOrder_refl[OF tot] by simp
next
  case True
  with cov have all: "\<And>u. u \<in> set vs \<Longrightarrow>
      f coll (minimumValue node) u \<le> 0 \<and> 0 \<le> f coll (maximumValue node) u"
    by (simp add: list_all_iff)
  have mn: "f coll (minimumValue n1) u \<le> 0" if "u \<in> set vs \<or> u = v" for u
  proof (cases "f coll v (minimumValue node) < 0")
    case lt: True
    then have m: "minimumValue n1 = v" unfolding Update_Some[OF run] by simp
    from lt have "f coll v (minimumValue node) \<le> 0" by simp
    with that all totalOrder_trans[OF tot] totalOrder_refl[OF tot] show ?thesis
      unfolding m by (metis order_refl)
  next
    case ge: False
    then have m: "minimumValue n1 = minimumValue node" unfolding Update_Some[OF run] using True by simp
    from that all totalOrder_flip[OF tot ge] show ?thesis unfolding m by auto
  qed
  have mx: "0 \<le> f coll (maximumValue n1) u" if "u \<in> set vs \<or> u = v" for u
  proof (cases "0 < f coll v (maximumValue node)")
    case gt: True
    then have m: "maximumValue n1 = v" unfolding Update_Some[OF run] by simp
    have "f coll u v \<le> 0"
    proof (cases "u = v")
      case True then show ?thesis using totalOrder_refl[OF tot] by simp
    next
      case False
      with that have "u \<in> set vs" by simp
      with all have "0 \<le> f coll (maximumValue node) u" by simp
      from totalOrder_flip4[OF tot this] totalOrder_flip2[OF tot gt] totalOrder_trans[OF tot]
      show ?thesis by blast
    qed
    from totalOrder_flip3[OF tot this] show ?thesis unfolding m .
  next
    case le: False
    then have m: "maximumValue n1 = maximumValue node" unfolding Update_Some[OF run] using True by simp
    have "0 \<le> f coll (maximumValue node) v"
    proof -
      from le have "f coll v (maximumValue node) \<le> 0" by simp
      from totalOrder_flip3[OF tot this] show ?thesis .
    qed
    with that all show ?thesis unfolding m by auto
  qed
  from mn mx show ?thesis by (auto simp: list_all_iff)
qed

lemma columnStep_step:
  assumes "WriteColumn host ws bi bri vals nulls c (X, Y) = Inr (X', Y')"
  shows "length X' = length X \<and> length Y' = length Y
       \<and> c < length X \<and> c < length Y \<and> bi < length (Y ! c) \<and> bri < length (existsArray (X ! c))
       \<and> (\<forall>k. k \<noteq> c \<longrightarrow> X' ! k = X ! k \<and> Y' ! k = Y ! k)
       \<and> length (Y' ! c) = length (Y ! c)
       \<and> (\<forall>b. b \<noteq> bi \<longrightarrow> Y' ! c ! b = Y ! c ! b)
       \<and> columnStep host (tupleDescriptor ws ! c) (comparisonFunctionArray ws ! c) bri
            (vals ! c) (nulls ! c) (X ! c) (Y ! c ! bi) (X' ! c) (Y' ! c ! bi)"
proof (rule WriteColumn_Inr[OF assms])
  fix bd' :: ColumnBlockData and n1 :: ColumnBlockSkipNode
  assume b: "c < length X" "c < length nulls" "c < length Y" "bi < length (Y ! c)"
      "bri < length (existsArray (X ! c))"
    and x: "X' = X[c := bd']"
    and y: "Y' = Y[c := (Y ! c)[bi := n1\<lparr>rowCount := rowCount n1 + 1\<rparr>]]"
    and n: "nulls ! c \<Longrightarrow>
       bd' = (X ! c)\<lparr>existsArray := (existsArray (X ! c))[bri := False]\<rparr> \<and> n1 = Y ! c ! bi"
    and v: "\<not> nulls ! c \<Longrightarrow>
       c < length vals \<and> c < length (comparisonFunctionArray ws) \<and> c < length (tupleDescriptor ws)
     \<and> (\<exists>vb vb'. valueBuffer_bd (X ! c) = Some vb
           \<and> SerializeSingleDatum host vb (vals ! c) (attbyval (tupleDescriptor ws ! c))
               (attlen (tupleDescriptor ws ! c)) (attalign (tupleDescriptor ws ! c)) = Inr vb'
           \<and> bd' = (X ! c)\<lparr>existsArray := (existsArray (X ! c))[bri := True],
                              valueBuffer_bd := Some vb'\<rparr>)
     \<and> UpdateBlockSkipNodeMinMax host (Y ! c ! bi) (vals ! c) (attbyval (tupleDescriptor ws ! c))
          (attlen (tupleDescriptor ws ! c)) (attcollation (tupleDescriptor ws ! c))
          (comparisonFunctionArray ws ! c) = Inr n1"
  have xc: "X' ! c = bd'" and yc: "Y' ! c ! bi = n1\<lparr>rowCount := rowCount n1 + 1\<rparr>"
    using b x y by simp_all
  have cw: "columnStep host (tupleDescriptor ws ! c) (comparisonFunctionArray ws ! c) bri
            (vals ! c) (nulls ! c) (X ! c) (Y ! c ! bi) (X' ! c) (Y' ! c ! bi)"
  proof (cases "nulls ! c")
    case True
    with n show ?thesis unfolding columnStep_def xc yc by simp
  next
    case False
    from v[OF False] obtain vb vb' where
      "valueBuffer_bd (X ! c) = Some vb"
      "SerializeSingleDatum host vb (vals ! c) (attbyval (tupleDescriptor ws ! c))
               (attlen (tupleDescriptor ws ! c)) (attalign (tupleDescriptor ws ! c)) = Inr vb'"
      "bd' = (X ! c)\<lparr>existsArray := (existsArray (X ! c))[bri := True],
                              valueBuffer_bd := Some vb'\<rparr>"
      and u: "UpdateBlockSkipNodeMinMax host (Y ! c ! bi) (vals ! c) (attbyval (tupleDescriptor ws ! c))
          (attlen (tupleDescriptor ws ! c)) (attcollation (tupleDescriptor ws ! c))
          (comparisonFunctionArray ws ! c) = Inr n1"
      by blast
    with False Update_rowCount[OF u] show ?thesis unfolding columnStep_def xc yc by simp
  qed
  show ?thesis using b cw unfolding x y by (simp add: nth_list_update)
qed

lemma WriteColumns_fold:
  assumes "foldE (WriteColumn host ws bi bri vals nulls) [0..<n] (X, Y) = Inr (X', Y')"
  shows "length X' = length X \<and> length Y' = length Y
       \<and> (\<forall>k. n \<le> k \<longrightarrow> X' ! k = X ! k \<and> Y' ! k = Y ! k)
       \<and> (\<forall>c<n. c < length X \<and> c < length Y \<and> bi < length (Y ! c)
              \<and> bri < length (existsArray (X ! c))
              \<and> length (Y' ! c) = length (Y ! c)
              \<and> (\<forall>b. b \<noteq> bi \<longrightarrow> Y' ! c ! b = Y ! c ! b)
              \<and> columnStep host (tupleDescriptor ws ! c) (comparisonFunctionArray ws ! c) bri
                   (vals ! c) (nulls ! c) (X ! c) (Y ! c ! bi) (X' ! c) (Y' ! c ! bi))"
  using assms
proof (induction n arbitrary: X' Y')
  case 0
  then show ?case by simp
next
  case (Suc n)
  from Suc.prems obtain X1 Y1 where
    f: "foldE (WriteColumn host ws bi bri vals nulls) [0..<n] (X, Y) = Inr (X1, Y1)"
    and w: "WriteColumn host ws bi bri vals nulls n (X1, Y1) = Inr (X', Y')"
    by (auto simp: foldE_append bindE_eq_Inr)
  note ih = Suc.IH[OF f]
  note st = columnStep_step[OF w]
  from ih have same: "X1 ! n = X ! n" "Y1 ! n = Y ! n" by simp_all
  have l: "length X' = length X \<and> length Y' = length Y" using ih st by simp
  have k: "X' ! k = X ! k \<and> Y' ! k = Y ! k" if "Suc n \<le> k" for k
  proof -
    from that have "k \<noteq> n" "n \<le> k" by simp_all
    with ih st show ?thesis by simp
  qed
  have c: "c < length X \<and> c < length Y \<and> bi < length (Y ! c)
              \<and> bri < length (existsArray (X ! c))
              \<and> length (Y' ! c) = length (Y ! c)
              \<and> (\<forall>b. b \<noteq> bi \<longrightarrow> Y' ! c ! b = Y ! c ! b)
              \<and> columnStep host (tupleDescriptor ws ! c) (comparisonFunctionArray ws ! c) bri
                   (vals ! c) (nulls ! c) (X ! c) (Y ! c ! bi) (X' ! c) (Y' ! c ! bi)"
    if c: "c < Suc n" for c
  proof (cases "c = n")
    case True
    with st same ih show ?thesis by simp
  next
    case False
    with c have lt: "c < n" by simp
    from False st have "X' ! c = X1 ! c" "Y' ! c = Y1 ! c" by simp_all
    with ih lt show ?thesis by simp
  qed
  from l k c show ?case by blast
qed

lemma InsertRow_effect:
  assumes "InsertRow host s vals nulls = Inr s'"
  obtains ws1 buffers skipList blockDatas skipNodes where
    "blockRowCount (tableFooter s) \<noteq> 0"
    "(if stripeBuffers s = None then InitStripe s else Inr s) = Inr ws1"
    "stripeBuffers ws1 = Some buffers" "stripeSkipList ws1 = Some skipList"
    "foldE (WriteColumn host ws1 (rowCount_sb buffers div blockRowCount (tableFooter s))
              (rowCount_sb buffers mod blockRowCount (tableFooter s)) vals nulls)
       [0..<length (tupleDescriptor s)] (blockDataArray ws1, blockSkipNodeArray skipList)
     = Inr (blockDatas, skipNodes)"
    "stripeSkipList s' = Some (skipList\<lparr>blockSkipNodeArray := skipNodes,
        blockCount := rowCount_sb buffers div blockRowCount (tableFooter s) + 1\<rparr>)"
    "\<exists>b'. stripeBuffers s' = Some b' \<and> rowCount_sb b' = rowCount_sb buffers + 1"
    "tableFooter s' = tableFooter s" "tupleDescriptor s' = tupleDescriptor s"
    "comparisonFunctionArray s' = comparisonFunctionArray s"
    "rowCount_sb buffers mod blockRowCount (tableFooter s) \<noteq> blockRowCount (tableFooter s) - 1
       \<Longrightarrow> blockDataArray s' = blockDatas"
proof (rule InsertRow_Inr[OF assms])
  fix ws1 ws3 :: TableWriteState and buffers buffers3 :: StripeBuffers
    and skipList :: StripeSkipList and blockDatas :: "ColumnBlockData list"
    and skipNodes :: "ColumnBlockSkipNode list list"
  let ?ws2 = "ws1\<lparr>blockDataArray := blockDatas,
                  stripeSkipList := Some (skipList\<lparr>blockSkipNodeArray := skipNodes,
                      blockCount := rowCount_sb buffers div blockRowCount (tableFooter s) + 1\<rparr>)\<rparr>"
  assume nz: "blockRowCount (tableFooter s) \<noteq> 0"
    and i: "(if stripeBuffers s = None then InitStripe s else Inr s) = Inr ws1"
    and sb: "stripeBuffers ws1 = Some buffers" and sl: "stripeSkipList ws1 = Some skipList"
    and f: "foldE (WriteColumn host ws1 (rowCount_sb buffers div blockRowCount (tableFooter s))
              (rowCount_sb buffers mod blockRowCount (tableFooter s)) vals nulls)
       [0..<length (tupleDescriptor s)] (blockDataArray ws1, blockSkipNodeArray skipList)
     = Inr (blockDatas, skipNodes)"
    and s: "(if rowCount_sb buffers mod blockRowCount (tableFooter s) = blockRowCount (tableFooter s) - 1
      then SerializeBlockData host ?ws2
             (rowCount_sb buffers div blockRowCount (tableFooter s)) (blockRowCount (tableFooter s))
      else Inr ?ws2) = Inr ws3"
    and b3: "stripeBuffers ws3 = Some buffers3"
    and w: "s' = ws3\<lparr>stripeBuffers := Some (buffers3\<lparr>rowCount_sb := rowCount_sb buffers3 + 1\<rparr>)\<rparr>"
  have fr: "tableFooter ws3 = tableFooter ?ws2 \<and> tupleDescriptor ws3 = tupleDescriptor ?ws2
       \<and> comparisonFunctionArray ws3 = comparisonFunctionArray ?ws2
       \<and> stripeSkipList ws3 = stripeSkipList ?ws2
       \<and> rowCount_sb buffers3 = rowCount_sb buffers
       \<and> (rowCount_sb buffers mod blockRowCount (tableFooter s) \<noteq> blockRowCount (tableFooter s) - 1
           \<longrightarrow> blockDataArray ws3 = blockDatas)"
  proof (cases "rowCount_sb buffers mod blockRowCount (tableFooter s) = blockRowCount (tableFooter s) - 1")
    case True
    with s have "SerializeBlockData host ?ws2
             (rowCount_sb buffers div blockRowCount (tableFooter s)) (blockRowCount (tableFooter s)) = Inr ws3"
      by simp
    from SerializeBlockData_frame[OF this] b3 sb True show ?thesis by simp
  next
    case False
    with s b3 sb show ?thesis by auto
  qed
  note fi = InitStripe_frame[OF i]
  show ?thesis
  proof (rule that[OF nz i sb sl f])
    show "stripeSkipList s' = Some (skipList\<lparr>blockSkipNodeArray := skipNodes,
        blockCount := rowCount_sb buffers div blockRowCount (tableFooter s) + 1\<rparr>)"
      using fr by (simp add: w)
    show "\<exists>b'. stripeBuffers s' = Some b' \<and> rowCount_sb b' = rowCount_sb buffers + 1"
      using fr by (simp add: w)
    show "tableFooter s' = tableFooter s" using fr fi by (simp add: w)
    show "tupleDescriptor s' = tupleDescriptor s" using fr fi by (simp add: w)
    show "comparisonFunctionArray s' = comparisonFunctionArray s" using fr fi by (simp add: w)
    show "blockDataArray s' = blockDatas"
      if "rowCount_sb buffers mod blockRowCount (tableFooter s) \<noteq> blockRowCount (tableFooter s) - 1"
      using fr that by (simp add: w)
  qed
qed

lemma rowsOfBlock_snoc:
  "rowsOfBlock R (rows @ [r]) b = rowsOfBlock R rows b @ (if length rows div R = b then [r] else [])"
proof -
  have "map (\<lambda>i. (rows @ [r]) ! i) (filter (\<lambda>i. i div R = b) [0..<length rows])
      = map (\<lambda>i. rows ! i) (filter (\<lambda>i. i div R = b) [0..<length rows])"
    by (rule map_cong) (auto simp: nth_append)
  then show ?thesis unfolding rowsOfBlock_def by simp
qed

lemma blockValues_snoc:
  "blockValues R (rows @ [(vals, nulls)]) c b
     = blockValues R rows c b @ (if length rows div R = b \<and> \<not> nulls ! c then [vals ! c] else [])"
  unfolding blockValues_def rowsOfBlock_snoc by simp

lemma rowsOfBlock_Nil: "rowsOfBlock R [] b = []"
  unfolding rowsOfBlock_def by simp

lemma blockValues_Nil: "blockValues R [] c b = []"
  unfolding blockValues_def rowsOfBlock_Nil by simp

lemma nodeInv_cong:
  assumes "tableFooter s' = tableFooter s" "tupleDescriptor s' = tupleDescriptor s"
    "comparisonFunctionArray s' = comparisonFunctionArray s"
  shows "nodeInv s' rows c b node = nodeInv s rows c b node"
  unfolding nodeInv_def assms ..

lemma InitStripe_inv:
  assumes i: "(if stripeBuffers s = None then InitStripe s else Inr s) = Inr ws1"
    and pre: "stripeBuffers s = None \<and> rows = [] \<or> stripeRowsInv s rows"
  shows "stripeRowsInv ws1 rows"
proof (cases "stripeBuffers s = None")
  case True
  with pre have r: "rows = []" unfolding stripeRowsInv_def by auto
  from True i have "InitStripe s = Inr ws1" by simp
  then have ws1: "stripeBuffers ws1 = Some (CreateEmptyStripeBuffers (stripeMaxRowCount s)
          (blockRowCount (tableFooter s)) (length (tupleDescriptor s)))"
      "stripeSkipList ws1 = Some (CreateEmptyStripeSkipList (stripeMaxRowCount s)
          (blockRowCount (tableFooter s)) (length (tupleDescriptor s)))"
    by (auto simp: InitStripe_def Let_def split: if_splits)
  have e: "blockSkipNodeArray (CreateEmptyStripeSkipList M R C) ! c ! b = emptySkipNode"
    if "c < length (blockSkipNodeArray (CreateEmptyStripeSkipList M R C))"
      "b < length (blockSkipNodeArray (CreateEmptyStripeSkipList M R C) ! c)" for M R C c b
    using that unfolding CreateEmptyStripeSkipList_def Let_def
    by (simp del: replicate_Suc replicate.simps)
  have z: "rowCount_sb (CreateEmptyStripeBuffers M R C) = 0" for M R C
    unfolding CreateEmptyStripeBuffers_def Let_def by simp
  show ?thesis
    unfolding r stripeRowsInv_def nodeInv_def ws1
    by (simp add: e z rowsOfBlock_Nil blockValues_Nil emptySkipNode_def)
next
  case False
  with pre i show ?thesis by auto
qed

lemma node_step:
  assumes inv: "nodeInv s rows c b node"
    and cw: "columnStep host (tupleDescriptor s ! c) (comparisonFunctionArray s ! c) bri
               (vals ! c) (nulls ! c) bd node bd' node'"
    and b: "length rows div blockRowCount (tableFooter s) = b"
  shows "nodeInv s (rows @ [(vals, nulls)]) c b node'"
proof (cases "nulls ! c")
  case True
  with cw have n: "node' = node\<lparr>rowCount := rowCount node + 1\<rparr>"
    unfolding columnStep_def by simp
  from inv True b show ?thesis
    unfolding nodeInv_def n blockValues_snoc rowsOfBlock_snoc by simp
next
  case False
  with cw obtain n1 where
    u: "UpdateBlockSkipNodeMinMax host node (vals ! c) (attbyval (tupleDescriptor s ! c))
          (attlen (tupleDescriptor s ! c)) (attcollation (tupleDescriptor s ! c))
          (comparisonFunctionArray s ! c) = Inr n1"
    and n: "node' = n1\<lparr>rowCount := rowCount node + 1\<rparr>"
    unfolding columnStep_def by (auto split: option.splits sum.splits)
  have rc: "rowCount node' = length (rowsOfBlock (blockRowCount (tableFooter s)) (rows @ [(vals, nulls)]) b)"
    using inv b unfolding nodeInv_def n rowsOfBlock_snoc by simp
  have cov: "hasMinMax node' \<and> (totalOrder (f (attcollation (tupleDescriptor s ! c))) \<longrightarrow>
       list_all (\<lambda>v. f (attcollation (tupleDescriptor s ! c)) (minimumValue node') v \<le> 0
                   \<and> 0 \<le> f (attcollation (tupleDescriptor s ! c)) (maximumValue node') v)
         (blockValues (blockRowCount (tableFooter s)) rows c b @ [vals ! c]))"
    if f: "comparisonFunctionArray s ! c = Some f" and l: "c < length (comparisonFunctionArray s)" for f
  proof -
    from u f have u': "UpdateBlockSkipNodeMinMax host node (vals ! c) (attbyval (tupleDescriptor s ! c))
          (attlen (tupleDescriptor s ! c)) (attcollation (tupleDescriptor s ! c)) (Some f) = Inr n1"
      by simp
    have h: "hasMinMax node'" unfolding n Update_Some[OF u'] by simp
    have "list_all (\<lambda>v. f (attcollation (tupleDescriptor s ! c)) (minimumValue n1) v \<le> 0
                   \<and> 0 \<le> f (attcollation (tupleDescriptor s ! c)) (maximumValue n1) v)
         (blockValues (blockRowCount (tableFooter s)) rows c b @ [vals ! c])"
      if tot: "totalOrder (f (attcollation (tupleDescriptor s ! c)))"
    proof (rule Update_covers[OF u' tot])
      from inv f l tot
      show "if hasMinMax node
        then list_all (\<lambda>u. f (attcollation (tupleDescriptor s ! c)) (minimumValue node) u \<le> 0
                         \<and> 0 \<le> f (attcollation (tupleDescriptor s ! c)) (maximumValue node) u)
               (blockValues (blockRowCount (tableFooter s)) rows c b)
        else blockValues (blockRowCount (tableFooter s)) rows c b = []"
        unfolding nodeInv_def by (auto split: if_splits)
    qed
    with h show ?thesis unfolding n by simp
  qed
  show ?thesis
    unfolding nodeInv_def blockValues_snoc using rc cov False b by auto
qed

lemma node_other:
  assumes inv: "nodeInv s rows c b node"
    and b: "length rows div blockRowCount (tableFooter s) \<noteq> b"
  shows "nodeInv s (rows @ [(vals, nulls)]) c b node"
  using assms unfolding nodeInv_def blockValues_snoc rowsOfBlock_snoc by simp

lemma InsertRow_inv:
  assumes run: "InsertRow host s vals nulls = Inr s'"
    and pre: "stripeBuffers s = None \<and> rows = [] \<or> stripeRowsInv s rows"
  shows "stripeRowsInv s' (rows @ [(vals, nulls)])"
proof (rule InsertRow_effect[OF run])
  fix ws1 :: TableWriteState and buffers :: StripeBuffers
    and skipList :: StripeSkipList and blockDatas :: "ColumnBlockData list"
    and skipNodes :: "ColumnBlockSkipNode list list"
  let ?R = "blockRowCount (tableFooter s)"
  let ?bi = "rowCount_sb buffers div ?R"
  assume i: "(if stripeBuffers s = None then InitStripe s else Inr s) = Inr ws1"
    and sb: "stripeBuffers ws1 = Some buffers" and sl: "stripeSkipList ws1 = Some skipList"
    and f: "foldE (WriteColumn host ws1 ?bi (rowCount_sb buffers mod ?R) vals nulls)
       [0..<length (tupleDescriptor s)] (blockDataArray ws1, blockSkipNodeArray skipList)
     = Inr (blockDatas, skipNodes)"
    and sl': "stripeSkipList s' = Some (skipList\<lparr>blockSkipNodeArray := skipNodes,
        blockCount := ?bi + 1\<rparr>)"
    and sb': "\<exists>b'. stripeBuffers s' = Some b' \<and> rowCount_sb b' = rowCount_sb buffers + 1"
    and fr: "tableFooter s' = tableFooter s" "tupleDescriptor s' = tupleDescriptor s"
      "comparisonFunctionArray s' = comparisonFunctionArray s"
  note fi = InitStripe_frame[OF i]
  from fi have fr1: "tableFooter ws1 = tableFooter s" "tupleDescriptor ws1 = tupleDescriptor s"
      "comparisonFunctionArray ws1 = comparisonFunctionArray s" by simp_all
  from InitStripe_inv[OF i pre] sb sl
  have len: "rowCount_sb buffers = length rows"
    and nodes: "\<And>c b. c < length (tupleDescriptor s) \<Longrightarrow> c < length (blockSkipNodeArray skipList)
        \<Longrightarrow> b < length (blockSkipNodeArray skipList ! c)
        \<Longrightarrow> nodeInv s rows c b (blockSkipNodeArray skipList ! c ! b)"
    unfolding stripeRowsInv_def by (auto simp: fr1 nodeInv_cong[OF fr1])
  note fold = WriteColumns_fold[OF f]
  have step: "nodeInv s' (rows @ [(vals, nulls)]) c b (skipNodes ! c ! b)"
    if c: "c < length (tupleDescriptor s)" and b: "b < length (skipNodes ! c)" for c b
  proof -
    from fold c have cl: "c < length (blockSkipNodeArray skipList)"
      and ll: "length (skipNodes ! c) = length (blockSkipNodeArray skipList ! c)"
      and oth: "\<And>k. k \<noteq> ?bi \<Longrightarrow> skipNodes ! c ! k = blockSkipNodeArray skipList ! c ! k"
      and bil: "?bi < length (blockSkipNodeArray skipList ! c)"
      and cw: "columnStep host (tupleDescriptor ws1 ! c) (comparisonFunctionArray ws1 ! c)
                 (rowCount_sb buffers mod ?R) (vals ! c) (nulls ! c) (blockDataArray ws1 ! c)
                 (blockSkipNodeArray skipList ! c ! ?bi) (blockDatas ! c) (skipNodes ! c ! ?bi)"
      by simp_all
    have "nodeInv s (rows @ [(vals, nulls)]) c b (skipNodes ! c ! b)"
    proof (cases "b = ?bi")
      case True
      from cw have cw': "columnStep host (tupleDescriptor s ! c) (comparisonFunctionArray s ! c)
                 (rowCount_sb buffers mod ?R) (vals ! c) (nulls ! c) (blockDataArray ws1 ! c)
                 (blockSkipNodeArray skipList ! c ! ?bi) (blockDatas ! c) (skipNodes ! c ! ?bi)"
        unfolding fr1 .
      from len have "length rows div ?R = ?bi" by simp
      from node_step[OF nodes[OF c cl bil] cw' this] show ?thesis unfolding True .
    next
      case False
      with b ll nodes[OF c cl, of b] oth[of b] len show ?thesis
        by (simp add: node_other)
    qed
    then show ?thesis by (simp add: nodeInv_cong[OF fr])
  qed
  from sb' obtain b' where b': "stripeBuffers s' = Some b'" "rowCount_sb b' = rowCount_sb buffers + 1"
    by blast
  show ?thesis
    unfolding stripeRowsInv_def using b' sl' len step by (simp add: fr)
qed

lemma InsertRows_snoc:
  "InsertRows host s (rows @ [r]) = bindE (InsertRows host s rows) (\<lambda>t. InsertRow host t (fst r) (snd r))"
  unfolding InsertRows_def foldE_append by (simp add: bindE_def split: sum.splits)

lemma InsertRows_inv:
  assumes "InsertRows host s rows = Inr s'" and "stripeBuffers s = None"
  shows "(rows = [] \<and> s' = s \<or> stripeRowsInv s' rows)
       \<and> tableFooter s' = tableFooter s \<and> tupleDescriptor s' = tupleDescriptor s
       \<and> comparisonFunctionArray s' = comparisonFunctionArray s"
  using assms
proof (induction rows arbitrary: s' rule: rev_induct)
  case Nil
  then show ?case by (simp add: InsertRows_def)
next
  case (snoc r rows)
  from snoc.prems(1) obtain t where t: "InsertRows host s rows = Inr t"
    and r: "InsertRow host t (fst r) (snd r) = Inr s'"
    unfolding InsertRows_snoc by (auto simp: bindE_eq_Inr)
  note ih = snoc.IH[OF t snoc.prems(2)]
  from ih snoc.prems(2) have pre: "stripeBuffers t = None \<and> rows = [] \<or> stripeRowsInv t rows"
    by auto
  from InsertRow_inv[OF r pre] have "stripeRowsInv s' (rows @ [r])" by simp
  moreover have "tableFooter s' = tableFooter s \<and> tupleDescriptor s' = tupleDescriptor s
       \<and> comparisonFunctionArray s' = comparisonFunctionArray s"
    using ih by (auto intro: InsertRow_effect[OF r])
  ultimately show ?case by simp
qed

lemma totalOrder_btint4cmp: "totalOrder (btint4cmp collation)"
  unfolding totalOrder_def btint4cmp_def by auto

lemma demo_rows_run:
  "\<exists>ws' skipList. InsertRows compareHost compareState demoRows = Inr ws'
      \<and> stripeSkipList ws' = Some skipList
      \<and> length (blockSkipNodeArray skipList) = 1
      \<and> length (blockSkipNodeArray skipList ! 0) = 6
      \<and> hasMinMax (blockSkipNodeArray skipList ! 0 ! 1)
      \<and> minimumValue (blockSkipNodeArray skipList ! 0 ! 1) = DatumWord 3
      \<and> maximumValue (blockSkipNodeArray skipList ! 0 ! 1) = DatumWord 9
      \<and> rowCount (blockSkipNodeArray skipList ! 0 ! 0) = 2"
  by (simp add: InsertRows_def demoRows_def compareState_def compareHost_def demoHost_def
      demoTupleDesc_def eval_defs upt_rec btint4cmp_def datumInt4_def)

lemma demo_blockValues: "blockValues 2 demoRows 0 1 = [DatumWord 3, DatumWord 9]"
  by (simp add: blockValues_def rowsOfBlock_def demoRows_def upt_rec)

lemma resume_run:
  "tableFooter resumeState = \<lparr>stripeMetadataList = demoStripes, blockRowCount = 4\<rparr>
   \<and> map (\<lambda>blockData. length (existsArray blockData)) (blockDataArray resumeState) = [2]
   \<and> (\<exists>ws1 ws2. CStoreWriteRow resumeHost resumeState [DatumWord 5] [False] = Inr ws1
          \<and> CStoreWriteRow resumeHost ws1 [DatumWord 7] [False] = Inr ws2
          \<and> CStoreWriteRow resumeHost ws2 [DatumWord 9] [False] = Inl OutOfBounds)"
  by (simp add: resumeState_def resumeHost_def demoHost_def demoRelation_def demoStripes_def
      demoTupleDesc_def eval_defs upt_rec)

lemma CStoreWriteRow_Inr:
  assumes "CStoreWriteRow host ws vals nulls = Inr wsF"
  obtains ws' where "InsertRow host ws vals nulls = Inr ws'"
    "wsF = ws' \<or> FlushAndAppend host ws' = Inr wsF"
  using assms unfolding CStoreWriteRow_def
  by (auto simp: bindE_eq_Inr split: if_splits)

subsection \<open>The minimum and maximum of a block\<close>

text \<open>
  Claim C2. The rows of a stripe are inserted one after the other into a writer that holds
  no stripe, as \<^verbatim>\<open>CStoreWriteRow\<close> does between two flushes. For a column with a
  comparison function that implements a total order, and a block whose skip node has its
  minimum and maximum, every value of the column written into the block that is not null
  lies between them: the minimum compares less or equal to it, the maximum greater or
  equal. A value that compares equal to the minimum (to the maximum) leaves it as it is.
\<close>

theorem block_min_max_covers:
  "(stripeBuffers ws = None \<and> InsertRows host ws rows = Inr ws'
      \<and> stripeSkipList ws' = Some skipList
      \<and> c < length (tupleDescriptor ws) \<and> c < length (blockSkipNodeArray skipList)
      \<and> b < length (blockSkipNodeArray skipList ! c)
      \<and> c < length (comparisonFunctionArray ws) \<and> comparisonFunctionArray ws ! c = Some compare
      \<and> totalOrder (compare (attcollation (tupleDescriptor ws ! c)))
      \<and> hasMinMax (blockSkipNodeArray skipList ! c ! b)
    \<longrightarrow> list_all (\<lambda>v. compare (attcollation (tupleDescriptor ws ! c))
                          (minimumValue (blockSkipNodeArray skipList ! c ! b)) v \<le> 0
                    \<and> 0 \<le> compare (attcollation (tupleDescriptor ws ! c))
                              (maximumValue (blockSkipNodeArray skipList ! c ! b)) v)
          (blockValues (blockRowCount (tableFooter ws)) rows c b))
   \<and> (hasMinMax node
      \<and> UpdateBlockSkipNodeMinMax host node columnValue byValue typeLength collation (Some compare')
          = Inr node'
    \<longrightarrow> (compare' collation columnValue (minimumValue node) = 0
            \<longrightarrow> minimumValue node' = minimumValue node)
      \<and> (compare' collation columnValue (maximumValue node) = 0
            \<longrightarrow> maximumValue node' = maximumValue node))"
proof (intro conjI impI)
  assume a: "stripeBuffers ws = None \<and> InsertRows host ws rows = Inr ws'
      \<and> stripeSkipList ws' = Some skipList
      \<and> c < length (tupleDescriptor ws) \<and> c < length (blockSkipNodeArray skipList)
      \<and> b < length (blockSkipNodeArray skipList ! c)
      \<and> c < length (comparisonFunctionArray ws) \<and> comparisonFunctionArray ws ! c = Some compare
      \<and> totalOrder (compare (attcollation (tupleDescriptor ws ! c)))
      \<and> hasMinMax (blockSkipNodeArray skipList ! c ! b)"
  then have run: "InsertRows host ws rows = Inr ws'" and none: "stripeBuffers ws = None" by simp_all
  note inv = InsertRows_inv[OF run none]
  then have fr: "tableFooter ws' = tableFooter ws" "tupleDescriptor ws' = tupleDescriptor ws"
      "comparisonFunctionArray ws' = comparisonFunctionArray ws" by simp_all
  show "list_all (\<lambda>v. compare (attcollation (tupleDescriptor ws ! c))
                          (minimumValue (blockSkipNodeArray skipList ! c ! b)) v \<le> 0
                    \<and> 0 \<le> compare (attcollation (tupleDescriptor ws ! c))
                              (maximumValue (blockSkipNodeArray skipList ! c ! b)) v)
          (blockValues (blockRowCount (tableFooter ws)) rows c b)"
  proof (cases "rows = []")
    case True
    then show ?thesis by (simp add: blockValues_Nil)
  next
    case False
    with inv have "stripeRowsInv ws' rows" by simp
    with a have "nodeInv ws' rows c b (blockSkipNodeArray skipList ! c ! b)"
      unfolding stripeRowsInv_def by (auto simp: fr)
    then have "nodeInv ws rows c b (blockSkipNodeArray skipList ! c ! b)"
      by (simp add: nodeInv_cong[OF fr])
    with a show ?thesis unfolding nodeInv_def by simp
  qed
next
  assume "hasMinMax node
      \<and> UpdateBlockSkipNodeMinMax host node columnValue byValue typeLength collation (Some compare')
          = Inr node'"
  then have h: "hasMinMax node"
    and u: "UpdateBlockSkipNodeMinMax host node columnValue byValue typeLength collation (Some compare')
          = Inr node'" by simp_all
  {
    assume "compare' collation columnValue (minimumValue node) = 0"
    with h show "minimumValue node' = minimumValue node" unfolding Update_Some[OF u] by simp
  }
  {
    assume "compare' collation columnValue (maximumValue node) = 0"
    with h show "maximumValue node' = maximumValue node" unfolding Update_Some[OF u] by simp
  }
qed

theorem block_min_max_covers_witness:
  "\<exists>ws' skipList node'.
      stripeBuffers compareState = None \<and> InsertRows compareHost compareState demoRows = Inr ws'
    \<and> stripeSkipList ws' = Some skipList
    \<and> 0 < length (tupleDescriptor compareState) \<and> 0 < length (blockSkipNodeArray skipList)
    \<and> 1 < length (blockSkipNodeArray skipList ! 0)
    \<and> 0 < length (comparisonFunctionArray compareState)
    \<and> comparisonFunctionArray compareState ! 0 = Some btint4cmp
    \<and> totalOrder (btint4cmp (attcollation (tupleDescriptor compareState ! 0)))
    \<and> hasMinMax (blockSkipNodeArray skipList ! 0 ! 1)
    \<and> blockValues (blockRowCount (tableFooter compareState)) demoRows 0 1 = [DatumWord 3, DatumWord 9]
    \<and> list_all (\<lambda>v. btint4cmp (attcollation (tupleDescriptor compareState ! 0))
                          (minimumValue (blockSkipNodeArray skipList ! 0 ! 1)) v \<le> 0
                    \<and> 0 \<le> btint4cmp (attcollation (tupleDescriptor compareState ! 0))
                              (maximumValue (blockSkipNodeArray skipList ! 0 ! 1)) v)
          (blockValues (blockRowCount (tableFooter compareState)) demoRows 0 1)
    \<and> hasMinMax tieNode
    \<and> UpdateBlockSkipNodeMinMax compareHost tieNode (DatumWord 3) True 4 0 (Some btint4cmp) = Inr node'
    \<and> btint4cmp 0 (DatumWord 3) (minimumValue tieNode) = 0
    \<and> minimumValue node' = minimumValue tieNode
    \<and> btint4cmp 0 (DatumWord 3) (maximumValue tieNode) = 0
    \<and> maximumValue node' = maximumValue tieNode"
proof -
  from demo_rows_run obtain ws' skipList where
    run: "InsertRows compareHost compareState demoRows = Inr ws'"
    and sl: "stripeSkipList ws' = Some skipList"
    and len: "length (blockSkipNodeArray skipList) = 1" "length (blockSkipNodeArray skipList ! 0) = 6"
    and h: "hasMinMax (blockSkipNodeArray skipList ! 0 ! 1)"
    by blast
  from len have ne: "0 < length (blockSkipNodeArray skipList)"
    "1 < length (blockSkipNodeArray skipList ! 0)" by simp_all
  have st: "stripeBuffers compareState = None" "0 < length (tupleDescriptor compareState)"
    "0 < length (comparisonFunctionArray compareState)"
    "comparisonFunctionArray compareState ! 0 = Some btint4cmp"
    "blockRowCount (tableFooter compareState) = 2"
    by (simp_all add: compareState_def compareHost_def demoHost_def demoTupleDesc_def
        CStoreBeginWrite_def Let_def)
  obtain node' where
    u: "UpdateBlockSkipNodeMinMax compareHost tieNode (DatumWord 3) True 4 0 (Some btint4cmp) = Inr node'"
    by (simp add: UpdateBlockSkipNodeMinMax_def tieNode_def btint4cmp_def datumInt4_def Let_def)
  have t: "hasMinMax tieNode" "btint4cmp 0 (DatumWord 3) (minimumValue tieNode) = 0"
    "btint4cmp 0 (DatumWord 3) (maximumValue tieNode) = 0"
    by (simp_all add: tieNode_def btint4cmp_def)
  from block_min_max_covers[where ws=compareState and host=compareHost and rows=demoRows
      and ws'=ws' and skipList=skipList and c=0 and b=1 and compare=btint4cmp and node=tieNode
      and columnValue="DatumWord 3" and byValue=True and typeLength=4 and collation=0
      and compare'=btint4cmp and node'=node']
    run sl ne h st u t totalOrder_btint4cmp demo_blockValues
  show ?thesis by simp
qed

lemma SerializeSingleDatum_Inr:
  assumes "SerializeSingleDatum host vb d bv len al = Inr vb'"
  shows "vb' = vb @ paddedDatum d len al"
proof (cases d)
  case (DatumWord w)
  with assms show ?thesis
    unfolding SerializeSingleDatum_def att_addlength_datum_def store_att_byval_def
      DatumGetPointer_def paddedDatum_def datumBytes_def Let_def
    by (auto simp: bindE_eq_Inr split: if_splits)
next
  case (DatumPointer bs)
  with assms show ?thesis
    unfolding SerializeSingleDatum_def att_addlength_datum_def store_att_byval_def
      DatumGetPointer_def paddedDatum_def datumBytes_def Let_def
    by (auto simp: bindE_eq_Inr Assert_def split: if_splits)
qed

lemma columnStep_written:
  assumes "columnStep host a cmp bri v isNull bd node bd' node'"
  shows "columnWritten a cmp bri v isNull bd node bd' node'"
proof (cases isNull)
  case True
  with assms show ?thesis unfolding columnStep_def columnWritten_def by simp
next
  case False
  with assms obtain vb vb' n1 where
    vb: "valueBuffer_bd bd = Some vb"
    and s: "SerializeSingleDatum host vb v (attbyval a) (attlen a) (attalign a) = Inr vb'"
    and bd': "bd' = bd\<lparr>existsArray := (existsArray bd)[bri := True], valueBuffer_bd := Some vb'\<rparr>"
    and u: "UpdateBlockSkipNodeMinMax host node v (attbyval a) (attlen a) (attcollation a) cmp = Inr n1"
    and n: "node' = n1\<lparr>rowCount := rowCount node + 1\<rparr>"
    unfolding columnStep_def by (auto split: option.splits sum.splits)
  have n1: "n1 = (case cmp of None \<Rightarrow> node
        | Some compare \<Rightarrow> node\<lparr>hasMinMax := True,
             minimumValue := (if hasMinMax node \<and> \<not> compare (attcollation a) v (minimumValue node) < 0
                              then minimumValue node else v),
             maximumValue := (if hasMinMax node \<and> \<not> 0 < compare (attcollation a) v (maximumValue node)
                              then maximumValue node else v)\<rparr>)"
  proof (cases cmp)
    case None
    with u show ?thesis by (simp add: Update_None)
  next
    case (Some f)
    with u Update_Some[of host node v "attbyval a" "attlen a" "attcollation a" f n1]
    show ?thesis by simp
  qed
  show ?thesis
    unfolding columnWritten_def using False vb bd' n n1 SerializeSingleDatum_Inr[OF s]
    by (auto split: option.splits)
qed

lemma bit_set_byte:
  fixes x :: byte
  assumes "k < 8" "j < 8"
  shows "bit (x OR push_bit k 1) j = (bit x j \<or> j = k)"
  using assms by (auto simp: bit_simps)

lemma SerializeBoolArray_fold:
  fixes flags :: "bool list"
  assumes "m \<le> n" "n \<le> 8 * B"
  defines "step \<equiv> (\<lambda>buffer boolArrayIndex.
                            if flags ! boolArrayIndex
                            then let byteIndex = boolArrayIndex div 8;
                                     bitIndex = boolArrayIndex mod 8
                                 in buffer[byteIndex := (buffer ! byteIndex) OR push_bit bitIndex 1]
                            else buffer)"
  shows "length (foldl step (replicate B (0::byte)) [0..<m]) = B
       \<and> (\<forall>i < 8 * B. bit (foldl step (replicate B (0::byte)) [0..<m] ! (i div 8)) (i mod 8)
                         = (i < m \<and> flags ! i))"
  using assms(1)
proof (induction m)
  case 0
  then show ?case by simp
next
  case (Suc m)
  let ?buf = "foldl step (replicate B (0::byte)) [0..<m]"
  from Suc have ih: "length ?buf = B"
    "\<And>i. i < 8 * B \<Longrightarrow> bit (?buf ! (i div 8)) (i mod 8) = (i < m \<and> flags ! i)"
    by simp_all
  from Suc.prems assms(2) have mB: "m div 8 < B" by simp
  have f: "foldl step (replicate B (0::byte)) [0..<Suc m] = step ?buf m" by simp
  show ?case
  proof (cases "flags ! m")
    case False
    then have "step ?buf m = ?buf" by (simp add: step_def)
    with ih False show ?thesis unfolding f by (auto simp: less_Suc_eq)
  next
    case True
    then have s: "step ?buf m = ?buf[m div 8 := (?buf ! (m div 8)) OR push_bit (m mod 8) 1]"
      by (simp add: step_def Let_def)
    have "bit (step ?buf m ! (i div 8)) (i mod 8) = (i < Suc m \<and> flags ! i)" if i: "i < 8 * B" for i
    proof (cases "i div 8 = m div 8")
      case same: True
      have eq: "(i mod 8 = m mod 8) = (i = m)"
        using same by (metis div_mult_mod_eq)
      from same have e: "step ?buf m ! (i div 8) = (?buf ! (i div 8)) OR push_bit (m mod 8) 1"
        unfolding s using ih(1) mB by simp
      have "bit (step ?buf m ! (i div 8)) (i mod 8)
              = (bit (?buf ! (i div 8)) (i mod 8) \<or> i mod 8 = m mod 8)"
        unfolding e by (rule bit_set_byte) simp_all
      also have "\<dots> = ((i < m \<and> flags ! i) \<or> i = m)"
        unfolding ih(2)[OF i] eq ..
      also have "\<dots> = (i < Suc m \<and> flags ! i)"
        using True by (auto simp: less_Suc_eq)
      finally show ?thesis .
    next
      case diff: False
      then have "i \<noteq> m" by auto
      from diff have "step ?buf m ! (i div 8) = ?buf ! (i div 8)"
        unfolding s by simp
      then show ?thesis using ih(2)[OF i] \<open>i \<noteq> m\<close> by (auto simp: less_Suc_eq)
    qed
    moreover have "length (step ?buf m) = B" unfolding s using ih(1) by simp
    ultimately show ?thesis unfolding f by blast
  qed
qed

lemma SerializeBoolArray_bits:
  assumes "SerializeBoolArray flags n = Inr bits"
  shows "n \<le> length flags \<and> length bits = (n + 7) div 8
       \<and> list_all (\<lambda>i. bit (bits ! (i div 8)) (i mod 8) = (i < n \<and> flags ! i))
           [0..<8 * ((n + 7) div 8)]"
proof -
  have le: "n \<le> 8 * ((n + 7) div 8)" by simp
  from assms have n: "n \<le> length flags" and
    b: "bits = foldl (\<lambda>buffer boolArrayIndex.
                            if flags ! boolArrayIndex
                            then let byteIndex = boolArrayIndex div 8;
                                     bitIndex = boolArrayIndex mod 8
                                 in buffer[byteIndex := (buffer ! byteIndex) OR push_bit bitIndex 1]
                            else buffer)
                     (replicate ((n + 7) div 8) 0) [0..<n]"
    unfolding SerializeBoolArray_def Let_def by (auto split: if_splits)
  from SerializeBoolArray_fold[OF order_refl le, of flags] n show ?thesis
    unfolding b by (simp add: list_all_iff)
qed

lemma SerializeBlockExists_fold:
  assumes "foldE (SerializeBlockExists ws bi n) [0..<m] A = Inr A'"
  shows "length A' = length A
       \<and> (\<forall>k. m \<le> k \<longrightarrow> A' ! k = A ! k)
       \<and> (\<forall>k<m. k < length A \<and> bi < length (A ! k) \<and> k < length (blockDataArray ws)
              \<and> (\<exists>bits. SerializeBoolArray (existsArray (blockDataArray ws ! k)) n = Inr bits
                    \<and> A' ! k = (A ! k)[bi := (A ! k ! bi)\<lparr>existsBuffer := Some bits\<rparr>]))"
  using assms
proof (induction m arbitrary: A')
  case 0
  then show ?case by simp
next
  case (Suc m)
  from Suc.prems obtain A1 where
    f: "foldE (SerializeBlockExists ws bi n) [0..<m] A = Inr A1"
    and w: "SerializeBlockExists ws bi n m A1 = Inr A'"
    by (auto simp: foldE_append bindE_eq_Inr)
  note ih = Suc.IH[OF f]
  from w obtain bits where st: "m < length A1" "bi < length (A1 ! m)" "m < length (blockDataArray ws)"
    "SerializeBoolArray (existsArray (blockDataArray ws ! m)) n = Inr bits"
    "A' = A1[m := (A1 ! m)[bi := (A1 ! m ! bi)\<lparr>existsBuffer := Some bits\<rparr>]]"
    unfolding SerializeBlockExists_def by (auto simp: bindE_eq_Inr nth_chk_Inr)
  from ih have same: "A1 ! m = A ! m" by simp
  have l: "length A' = length A" using ih st by simp
  have k: "A' ! k = A ! k" if "Suc m \<le> k" for k
  proof -
    from that have "k \<noteq> m" "m \<le> k" by simp_all
    with ih st show ?thesis by simp
  qed
  have c: "k < length A \<and> bi < length (A ! k) \<and> k < length (blockDataArray ws)
              \<and> (\<exists>bits. SerializeBoolArray (existsArray (blockDataArray ws ! k)) n = Inr bits
                    \<and> A' ! k = (A ! k)[bi := (A ! k ! bi)\<lparr>existsBuffer := Some bits\<rparr>])"
    if c: "k < Suc m" for k
  proof (cases "k = m")
    case True
    with st same ih show ?thesis by simp
  next
    case False
    with c have lt: "k < m" by simp
    from False st have "A' ! k = A1 ! k" by simp
    with ih lt show ?thesis by simp
  qed
  from l k c show ?case by blast
qed

lemma SerializeBlockValues_fold:
  assumes "foldE (SerializeBlockValues host ct bi) [0..<m] (A, D) = Inr (A', D')"
  shows "length A' = length A \<and> length D' = length D
       \<and> (\<forall>k. m \<le> k \<longrightarrow> A' ! k = A ! k \<and> D' ! k = D ! k)
       \<and> (\<forall>k<m. k < length A \<and> bi < length (A ! k) \<and> k < length D
              \<and> (\<exists>vb. valueBuffer_bd (D ! k) = Some vb
                    \<and> A' ! k = (A ! k)[bi := (A ! k ! bi)
                         \<lparr>valueCompressionType_bb :=
                            (case CompressBuffer host vb ct of
                               Some compressed \<Rightarrow> COMPRESSION_PG_LZ | None \<Rightarrow> COMPRESSION_NONE),
                          valueBuffer :=
                            Some (case CompressBuffer host vb ct of
                                    Some compressed \<Rightarrow> compressed | None \<Rightarrow> vb)\<rparr>]
                    \<and> D' ! k = (D ! k)\<lparr>valueBuffer_bd := Some []\<rparr>))"
  using assms
proof (induction m arbitrary: A' D')
  case 0
  then show ?case by simp
next
  case (Suc m)
  from Suc.prems obtain A1 D1 where
    f: "foldE (SerializeBlockValues host ct bi) [0..<m] (A, D) = Inr (A1, D1)"
    and w: "SerializeBlockValues host ct bi m (A1, D1) = Inr (A', D')"
    by (auto simp: foldE_append bindE_eq_Inr)
  note ih = Suc.IH[OF f]
  from w obtain vb where st: "m < length A1" "bi < length (A1 ! m)" "m < length D1"
    "valueBuffer_bd (D1 ! m) = Some vb"
    "A' = A1[m := (A1 ! m)[bi := (A1 ! m ! bi)
                         \<lparr>valueCompressionType_bb :=
                            (case CompressBuffer host vb ct of
                               Some compressed \<Rightarrow> COMPRESSION_PG_LZ | None \<Rightarrow> COMPRESSION_NONE),
                          valueBuffer :=
                            Some (case CompressBuffer host vb ct of
                                    Some compressed \<Rightarrow> compressed | None \<Rightarrow> vb)\<rparr>]]"
    "D' = D1[m := (D1 ! m)\<lparr>valueBuffer_bd := Some []\<rparr>]"
    unfolding SerializeBlockValues_def
    by (auto simp: bindE_eq_Inr nth_chk_Inr deref_Inr Let_def split: option.splits)
  from ih have same: "A1 ! m = A ! m" "D1 ! m = D ! m" by simp_all
  have l: "length A' = length A \<and> length D' = length D" using ih st by simp
  have k: "A' ! k = A ! k \<and> D' ! k = D ! k" if "Suc m \<le> k" for k
  proof -
    from that have "k \<noteq> m" "m \<le> k" by simp_all
    with ih st show ?thesis by simp
  qed
  have c: "k < length A \<and> bi < length (A ! k) \<and> k < length D
              \<and> (\<exists>vb. valueBuffer_bd (D ! k) = Some vb
                    \<and> A' ! k = (A ! k)[bi := (A ! k ! bi)
                         \<lparr>valueCompressionType_bb :=
                            (case CompressBuffer host vb ct of
                               Some compressed \<Rightarrow> COMPRESSION_PG_LZ | None \<Rightarrow> COMPRESSION_NONE),
                          valueBuffer :=
                            Some (case CompressBuffer host vb ct of
                                    Some compressed \<Rightarrow> compressed | None \<Rightarrow> vb)\<rparr>]
                    \<and> D' ! k = (D ! k)\<lparr>valueBuffer_bd := Some []\<rparr>)"
    if c: "k < Suc m" for k
  proof (cases "k = m")
    case True
    with st same ih show ?thesis by simp
  next
    case False
    with c have lt: "k < m" by simp
    from False st have "A' ! k = A1 ! k" "D' ! k = D1 ! k" by simp_all
    with ih lt show ?thesis by simp
  qed
  from l k c show ?case by blast
qed

lemma SerializeBlockData_frozen:
  assumes run: "SerializeBlockData host ws bi n = Inr ws'" and sb: "stripeBuffers ws = Some b"
  shows "\<exists>b'. stripeBuffers ws' = Some b' \<and> rowCount_sb b' = rowCount_sb b
           \<and> columnCount_sb b' = columnCount_sb b
           \<and> (\<forall>k < columnCount_sb b.
                 blockFrozen host (compressionType ws) n (blockDataArray ws ! k)
                   (columnBuffersArray b' ! k ! bi) (blockDataArray ws' ! k))"
proof -
  from run sb obtain A1 A2 D2 where
    e: "foldE (SerializeBlockExists ws bi n) [0..<columnCount_sb b] (columnBuffersArray b) = Inr A1"
    and v: "foldE (SerializeBlockValues host (compressionType ws) bi) [0..<columnCount_sb b]
              (A1, blockDataArray ws) = Inr (A2, D2)"
    and ws': "ws' = ws\<lparr>stripeBuffers := Some (b\<lparr>columnBuffersArray := A2\<rparr>), blockDataArray := D2\<rparr>"
    unfolding SerializeBlockData_def Let_def
    by (auto simp: bindE_eq_Inr deref_Inr)
  note fe = SerializeBlockExists_fold[OF e]
  note fv = SerializeBlockValues_fold[OF v]
  have "blockFrozen host (compressionType ws) n (blockDataArray ws ! k) (A2 ! k ! bi) (D2 ! k)"
    if k: "k < columnCount_sb b" for k
  proof -
    from fe k obtain bits where
      be: "bi < length (columnBuffersArray b ! k)"
      and bits: "SerializeBoolArray (existsArray (blockDataArray ws ! k)) n = Inr bits"
      and a1: "A1 ! k = (columnBuffersArray b ! k)
                 [bi := (columnBuffersArray b ! k ! bi)\<lparr>existsBuffer := Some bits\<rparr>]"
      by blast
    from fv k obtain vb where
      bv: "bi < length (A1 ! k)"
      and vb: "valueBuffer_bd (blockDataArray ws ! k) = Some vb"
      and a2: "A2 ! k = (A1 ! k)[bi := (A1 ! k ! bi)
                         \<lparr>valueCompressionType_bb :=
                            (case CompressBuffer host vb (compressionType ws) of
                               Some compressed \<Rightarrow> COMPRESSION_PG_LZ | None \<Rightarrow> COMPRESSION_NONE),
                          valueBuffer :=
                            Some (case CompressBuffer host vb (compressionType ws) of
                                    Some compressed \<Rightarrow> compressed | None \<Rightarrow> vb)\<rparr>]"
      and d2: "D2 ! k = (blockDataArray ws ! k)\<lparr>valueBuffer_bd := Some []\<rparr>"
      by blast
    have ex: "existsBuffer (A2 ! k ! bi) = Some bits"
      unfolding a2 a1 using be by simp
    have va: "valueBuffer (A2 ! k ! bi) = Some (case CompressBuffer host vb (compressionType ws) of
                                    Some compressed \<Rightarrow> compressed | None \<Rightarrow> vb)"
      "valueCompressionType_bb (A2 ! k ! bi) = (case CompressBuffer host vb (compressionType ws) of
                               Some compressed \<Rightarrow> COMPRESSION_PG_LZ | None \<Rightarrow> COMPRESSION_NONE)"
      unfolding a2 using bv by simp_all
    from SerializeBoolArray_bits[OF bits] ex va vb d2 show ?thesis
      unfolding blockFrozen_def by (simp split: option.splits)
  qed
  then show ?thesis unfolding ws' by simp
qed

lemma InsertRow_frozen:
  assumes "InsertRow host s vals nulls = Inr s'"
  obtains ws1 buffers skipList blockDatas skipNodes buffers' where
    "(if stripeBuffers s = None then InitStripe s else Inr s) = Inr ws1"
    "stripeBuffers ws1 = Some buffers" "stripeSkipList ws1 = Some skipList"
    "stripeBuffers s = None \<Longrightarrow> columnCount_sb buffers = length (tupleDescriptor s)"
    "foldE (WriteColumn host ws1 (rowCount_sb buffers div blockRowCount (tableFooter s))
              (rowCount_sb buffers mod blockRowCount (tableFooter s)) vals nulls)
       [0..<length (tupleDescriptor s)] (blockDataArray ws1, blockSkipNodeArray skipList)
     = Inr (blockDatas, skipNodes)"
    "stripeSkipList s' = Some (skipList\<lparr>blockSkipNodeArray := skipNodes,
        blockCount := rowCount_sb buffers div blockRowCount (tableFooter s) + 1\<rparr>)"
    "stripeBuffers s' = Some buffers'" "rowCount_sb buffers' = rowCount_sb buffers + 1"
    "if rowCount_sb buffers mod blockRowCount (tableFooter s) = blockRowCount (tableFooter s) - 1
     then \<forall>k < columnCount_sb buffers.
            blockFrozen host (compressionType s) (blockRowCount (tableFooter s)) (blockDatas ! k)
              (columnBuffersArray buffers' ! k ! (rowCount_sb buffers div blockRowCount (tableFooter s)))
              (blockDataArray s' ! k)
     else blockDataArray s' = blockDatas \<and> columnBuffersArray buffers' = columnBuffersArray buffers"
proof (rule InsertRow_Inr[OF assms])
  fix ws1 ws3 :: TableWriteState and buffers buffers3 :: StripeBuffers
    and skipList :: StripeSkipList and blockDatas :: "ColumnBlockData list"
    and skipNodes :: "ColumnBlockSkipNode list list"
  let ?R = "blockRowCount (tableFooter s)"
  let ?bi = "rowCount_sb buffers div ?R"
  let ?ws2 = "ws1\<lparr>blockDataArray := blockDatas,
                  stripeSkipList := Some (skipList\<lparr>blockSkipNodeArray := skipNodes,
                      blockCount := ?bi + 1\<rparr>)\<rparr>"
  assume i: "(if stripeBuffers s = None then InitStripe s else Inr s) = Inr ws1"
    and sb: "stripeBuffers ws1 = Some buffers" and sl: "stripeSkipList ws1 = Some skipList"
    and f: "foldE (WriteColumn host ws1 ?bi (rowCount_sb buffers mod ?R) vals nulls)
       [0..<length (tupleDescriptor s)] (blockDataArray ws1, blockSkipNodeArray skipList)
     = Inr (blockDatas, skipNodes)"
    and s: "(if rowCount_sb buffers mod ?R = ?R - 1
      then SerializeBlockData host ?ws2 ?bi ?R else Inr ?ws2) = Inr ws3"
    and b3: "stripeBuffers ws3 = Some buffers3"
    and w: "s' = ws3\<lparr>stripeBuffers := Some (buffers3\<lparr>rowCount_sb := rowCount_sb buffers3 + 1\<rparr>)\<rparr>"
  note fi = InitStripe_frame[OF i]
  have cc: "columnCount_sb buffers = length (tupleDescriptor s)" if "stripeBuffers s = None"
    using that i sb
    by (auto simp: InitStripe_def Let_def CreateEmptyStripeBuffers_def split: if_splits)
  have fr: "stripeSkipList ws3 = stripeSkipList ?ws2 \<and> rowCount_sb buffers3 = rowCount_sb buffers
       \<and> (if rowCount_sb buffers mod ?R = ?R - 1
           then \<forall>k < columnCount_sb buffers.
                  blockFrozen host (compressionType s) ?R (blockDatas ! k)
                    (columnBuffersArray buffers3 ! k ! ?bi) (blockDataArray ws3 ! k)
           else blockDataArray ws3 = blockDatas
                \<and> columnBuffersArray buffers3 = columnBuffersArray buffers)"
  proof (cases "rowCount_sb buffers mod ?R = ?R - 1")
    case True
    with s have run: "SerializeBlockData host ?ws2 ?bi ?R = Inr ws3" by simp
    have sb2: "stripeBuffers ?ws2 = Some buffers" using sb by simp
    from SerializeBlockData_frozen[OF run sb2] b3 fi
    have "rowCount_sb buffers3 = rowCount_sb buffers
       \<and> (\<forall>k < columnCount_sb buffers.
                  blockFrozen host (compressionType s) ?R (blockDatas ! k)
                    (columnBuffersArray buffers3 ! k ! ?bi) (blockDataArray ws3 ! k))"
      by auto
    with SerializeBlockData_frame[OF run] True show ?thesis by simp
  next
    case False
    with s b3 sb show ?thesis by auto
  qed
  show ?thesis
  proof (rule that[OF i sb sl cc f])
    show "stripeSkipList s' = Some (skipList\<lparr>blockSkipNodeArray := skipNodes, blockCount := ?bi + 1\<rparr>)"
      using fr by (simp add: w)
    show "stripeBuffers s' = Some (buffers3\<lparr>rowCount_sb := rowCount_sb buffers3 + 1\<rparr>)"
      by (simp add: w)
    show "rowCount_sb (buffers3\<lparr>rowCount_sb := rowCount_sb buffers3 + 1\<rparr>) = rowCount_sb buffers + 1"
      using fr by simp
    show "if rowCount_sb buffers mod ?R = ?R - 1
     then \<forall>k < columnCount_sb buffers.
            blockFrozen host (compressionType s) ?R (blockDatas ! k)
              (columnBuffersArray (buffers3\<lparr>rowCount_sb := rowCount_sb buffers3 + 1\<rparr>) ! k ! ?bi)
              (blockDataArray s' ! k)
     else blockDataArray s' = blockDatas
          \<and> columnBuffersArray (buffers3\<lparr>rowCount_sb := rowCount_sb buffers3 + 1\<rparr>)
              = columnBuffersArray buffers"
      using fr by (simp add: w)
  qed
qed

subsection \<open>The columns of a row\<close>

text \<open>
  Claim C7. A call of \<^verbatim>\<open>CStoreWriteRow\<close> that returns has inserted the row into the
  stripe (and then has flushed the stripe or not). The insertion sets up the stripe when
  there is none, and then, for every column of the table, does to the block data and to the
  skip node of the current block what \<open>columnWritten\<close> says: for a null the exists flag at
  the row's position is cleared, the value buffer and the minimum and maximum are left as
  they are, and the row count of the skip node grows by one; for a value the flag is set,
  the image of the value is appended to the value buffer, the minimum and maximum are
  updated, and the row count grows by one. The skip nodes are those of the state after the
  insertion. So are the block data when the row does not complete its block; when it does,
  the block data, with the flag and the value of the row, are frozen into the buffers of
  the block as \<open>blockFrozen\<close> says. Hence, after the rows of a stripe, the row count of
  every skip node is the number of rows written into its block.
\<close>

theorem write_row_column_effects:
  "(CStoreWriteRow host ws columnValues columnNulls = Inr wsF \<longrightarrow>
      (\<exists>ws' ws1 buffers skipList blockDatas skipNodes buffers'.
          InsertRow host ws columnValues columnNulls = Inr ws'
        \<and> (wsF = ws' \<or> FlushAndAppend host ws' = Inr wsF)
        \<and> (if stripeBuffers ws = None then InitStripe ws else Inr ws) = Inr ws1
        \<and> stripeBuffers ws1 = Some buffers \<and> stripeSkipList ws1 = Some skipList
        \<and> (stripeBuffers ws = None \<longrightarrow> columnCount_sb buffers = length (tupleDescriptor ws))
        \<and> stripeSkipList ws' = Some (skipList\<lparr>blockSkipNodeArray := skipNodes,
              blockCount := rowCount_sb buffers div blockRowCount (tableFooter ws) + 1\<rparr>)
        \<and> stripeBuffers ws' = Some buffers' \<and> rowCount_sb buffers' = rowCount_sb buffers + 1
        \<and> (\<forall>k < length (tupleDescriptor ws).
              rowCount_sb buffers mod blockRowCount (tableFooter ws)
                < length (existsArray (blockDataArray ws1 ! k))
            \<and> columnWritten (tupleDescriptor ws ! k) (comparisonFunctionArray ws ! k)
                (rowCount_sb buffers mod blockRowCount (tableFooter ws))
                (columnValues ! k) (columnNulls ! k)
                (blockDataArray ws1 ! k)
                (blockSkipNodeArray skipList ! k ! (rowCount_sb buffers div blockRowCount (tableFooter ws)))
                (blockDatas ! k)
                (skipNodes ! k ! (rowCount_sb buffers div blockRowCount (tableFooter ws))))
        \<and> (if rowCount_sb buffers mod blockRowCount (tableFooter ws) = blockRowCount (tableFooter ws) - 1
           then \<forall>k < columnCount_sb buffers.
                  blockFrozen host (compressionType ws) (blockRowCount (tableFooter ws)) (blockDatas ! k)
                    (columnBuffersArray buffers' ! k
                       ! (rowCount_sb buffers div blockRowCount (tableFooter ws)))
                    (blockDataArray ws' ! k)
           else blockDataArray ws' = blockDatas
                \<and> columnBuffersArray buffers' = columnBuffersArray buffers)))
   \<and> (stripeBuffers first = None \<and> rows \<noteq> [] \<and> InsertRows host first rows = Inr after
      \<and> stripeSkipList after = Some lastList
      \<and> c < length (tupleDescriptor first) \<and> c < length (blockSkipNodeArray lastList)
      \<and> b < length (blockSkipNodeArray lastList ! c)
    \<longrightarrow> rowCount (blockSkipNodeArray lastList ! c ! b)
          = length (rowsOfBlock (blockRowCount (tableFooter first)) rows b))"
proof (intro conjI impI)
  assume run: "CStoreWriteRow host ws columnValues columnNulls = Inr wsF"
  from run obtain ws' where ins: "InsertRow host ws columnValues columnNulls = Inr ws'"
    and fl: "wsF = ws' \<or> FlushAndAppend host ws' = Inr wsF"
    by (rule CStoreWriteRow_Inr)
  show "\<exists>ws' ws1 buffers skipList blockDatas skipNodes buffers'.
          InsertRow host ws columnValues columnNulls = Inr ws'
        \<and> (wsF = ws' \<or> FlushAndAppend host ws' = Inr wsF)
        \<and> (if stripeBuffers ws = None then InitStripe ws else Inr ws) = Inr ws1
        \<and> stripeBuffers ws1 = Some buffers \<and> stripeSkipList ws1 = Some skipList
        \<and> (stripeBuffers ws = None \<longrightarrow> columnCount_sb buffers = length (tupleDescriptor ws))
        \<and> stripeSkipList ws' = Some (skipList\<lparr>blockSkipNodeArray := skipNodes,
              blockCount := rowCount_sb buffers div blockRowCount (tableFooter ws) + 1\<rparr>)
        \<and> stripeBuffers ws' = Some buffers' \<and> rowCount_sb buffers' = rowCount_sb buffers + 1
        \<and> (\<forall>k < length (tupleDescriptor ws).
              rowCount_sb buffers mod blockRowCount (tableFooter ws)
                < length (existsArray (blockDataArray ws1 ! k))
            \<and> columnWritten (tupleDescriptor ws ! k) (comparisonFunctionArray ws ! k)
                (rowCount_sb buffers mod blockRowCount (tableFooter ws))
                (columnValues ! k) (columnNulls ! k)
                (blockDataArray ws1 ! k)
                (blockSkipNodeArray skipList ! k ! (rowCount_sb buffers div blockRowCount (tableFooter ws)))
                (blockDatas ! k)
                (skipNodes ! k ! (rowCount_sb buffers div blockRowCount (tableFooter ws))))
        \<and> (if rowCount_sb buffers mod blockRowCount (tableFooter ws) = blockRowCount (tableFooter ws) - 1
           then \<forall>k < columnCount_sb buffers.
                  blockFrozen host (compressionType ws) (blockRowCount (tableFooter ws)) (blockDatas ! k)
                    (columnBuffersArray buffers' ! k
                       ! (rowCount_sb buffers div blockRowCount (tableFooter ws)))
                    (blockDataArray ws' ! k)
           else blockDataArray ws' = blockDatas
                \<and> columnBuffersArray buffers' = columnBuffersArray buffers)"
  proof (rule InsertRow_frozen[OF ins])
    fix ws1 :: TableWriteState and buffers buffers' :: StripeBuffers
      and skipList :: StripeSkipList and blockDatas :: "ColumnBlockData list"
      and skipNodes :: "ColumnBlockSkipNode list list"
    let ?R = "blockRowCount (tableFooter ws)"
    assume i: "(if stripeBuffers ws = None then InitStripe ws else Inr ws) = Inr ws1"
      and sb: "stripeBuffers ws1 = Some buffers" and sl: "stripeSkipList ws1 = Some skipList"
      and cc: "stripeBuffers ws = None \<Longrightarrow> columnCount_sb buffers = length (tupleDescriptor ws)"
      and f: "foldE (WriteColumn host ws1 (rowCount_sb buffers div ?R) (rowCount_sb buffers mod ?R)
                columnValues columnNulls)
         [0..<length (tupleDescriptor ws)] (blockDataArray ws1, blockSkipNodeArray skipList)
       = Inr (blockDatas, skipNodes)"
      and sl': "stripeSkipList ws' = Some (skipList\<lparr>blockSkipNodeArray := skipNodes,
          blockCount := rowCount_sb buffers div ?R + 1\<rparr>)"
      and sb': "stripeBuffers ws' = Some buffers'" "rowCount_sb buffers' = rowCount_sb buffers + 1"
      and fz: "if rowCount_sb buffers mod ?R = ?R - 1
           then \<forall>k < columnCount_sb buffers.
                  blockFrozen host (compressionType ws) ?R (blockDatas ! k)
                    (columnBuffersArray buffers' ! k ! (rowCount_sb buffers div ?R))
                    (blockDataArray ws' ! k)
           else blockDataArray ws' = blockDatas
                \<and> columnBuffersArray buffers' = columnBuffersArray buffers"
    from InitStripe_frame[OF i] have fr1: "tupleDescriptor ws1 = tupleDescriptor ws"
      "comparisonFunctionArray ws1 = comparisonFunctionArray ws" by simp_all
    from WriteColumns_fold[OF f]
    have cols: "\<forall>k < length (tupleDescriptor ws).
              rowCount_sb buffers mod ?R < length (existsArray (blockDataArray ws1 ! k))
            \<and> columnWritten (tupleDescriptor ws ! k) (comparisonFunctionArray ws ! k)
                (rowCount_sb buffers mod ?R) (columnValues ! k) (columnNulls ! k)
                (blockDataArray ws1 ! k)
                (blockSkipNodeArray skipList ! k ! (rowCount_sb buffers div ?R))
                (blockDatas ! k)
                (skipNodes ! k ! (rowCount_sb buffers div ?R))"
      unfolding fr1 by (auto intro: columnStep_written)
    from cc have cc': "stripeBuffers ws = None \<longrightarrow> columnCount_sb buffers = length (tupleDescriptor ws)"
      by blast
    show ?thesis
      by (rule exI[of _ ws'], rule exI[of _ ws1], rule exI[of _ buffers], rule exI[of _ skipList],
          rule exI[of _ blockDatas], rule exI[of _ skipNodes], rule exI[of _ buffers'],
          intro conjI)
        (rule ins fl i sb sl cc' sl' sb' cols fz)+
  qed
next
  assume a: "stripeBuffers first = None \<and> rows \<noteq> [] \<and> InsertRows host first rows = Inr after
      \<and> stripeSkipList after = Some lastList
      \<and> c < length (tupleDescriptor first) \<and> c < length (blockSkipNodeArray lastList)
      \<and> b < length (blockSkipNodeArray lastList ! c)"
  then have run: "InsertRows host first rows = Inr after" and none: "stripeBuffers first = None" by simp_all
  note inv = InsertRows_inv[OF run none]
  then have fr: "tableFooter after = tableFooter first" "tupleDescriptor after = tupleDescriptor first"
      "comparisonFunctionArray after = comparisonFunctionArray first" by simp_all
  from inv a have "stripeRowsInv after rows" by simp
  with a have "nodeInv after rows c b (blockSkipNodeArray lastList ! c ! b)"
    unfolding stripeRowsInv_def by (auto simp: fr)
  then show "rowCount (blockSkipNodeArray lastList ! c ! b)
          = length (rowsOfBlock (blockRowCount (tableFooter first)) rows b)"
    unfolding nodeInv_def by (simp add: fr)
qed

lemma demo_block_completed:
  "\<exists>ws0 wsF. CStoreWriteRow compareHost compareState [DatumWord 5] [False] = Inr ws0
      \<and> CStoreWriteRow compareHost ws0 [DatumWord 7] [False] = Inr wsF
      \<and> InsertRow compareHost ws0 [DatumWord 7] [False] = Inr wsF
      \<and> blockRowCount (tableFooter ws0) = 2 \<and> tupleDescriptor ws0 = demoTupleDesc
      \<and> compressionType ws0 = COMPRESSION_NONE
      \<and> (\<exists>b0. stripeBuffers ws0 = Some b0 \<and> rowCount_sb b0 = 1 \<and> columnCount_sb b0 = 1)
      \<and> valueBuffer_bd (blockDataArray ws0 ! 0) = Some [5, 0, 0, 0]
      \<and> (\<exists>b'. stripeBuffers wsF = Some b'
             \<and> existsBuffer (columnBuffersArray b' ! 0 ! 0) = Some [3]
             \<and> valueBuffer (columnBuffersArray b' ! 0 ! 0) = Some [5, 0, 0, 0, 7, 0, 0, 0])"
  by (simp add: compareState_def compareHost_def demoHost_def demoTupleDesc_def eval_defs upt_rec
      btint4cmp_def datumInt4_def)

lemma demo_paddedDatum: "paddedDatum (DatumWord 7) 4 CHR ''i'' = [7, 0, 0, 0]"
  by (simp add: paddedDatum_def datumBytes_def att_align_nominal_def upt_rec)

lemma demo_null_row:
  "\<exists>wsN. CStoreWriteRow compareHost compareState [DatumWord 0] [True] = Inr wsN"
  by (simp add: compareState_def compareHost_def demoHost_def demoTupleDesc_def eval_defs upt_rec)

lemma demo_rowsOfBlock: "length (rowsOfBlock 2 demoRows 0) = 2"
  by (simp add: rowsOfBlock_def demoRows_def upt_rec)

theorem write_row_column_effects_witness:
  "(\<exists>wsN ws1 buffers skipList blockDatas skipNodes.
      CStoreWriteRow compareHost compareState [DatumWord 0] [True] = Inr wsN
    \<and> (if stripeBuffers compareState = None then InitStripe compareState else Inr compareState)
         = Inr ws1
    \<and> stripeBuffers ws1 = Some buffers \<and> stripeSkipList ws1 = Some skipList
    \<and> rowCount_sb buffers = 0
    \<and> list_all (\<lambda>k.
          columnWritten (tupleDescriptor compareState ! k) (comparisonFunctionArray compareState ! k)
            (rowCount_sb buffers mod blockRowCount (tableFooter compareState))
            ([DatumWord 0] ! k) ([True] ! k)
            (blockDataArray ws1 ! k)
            (blockSkipNodeArray skipList ! k
               ! (rowCount_sb buffers div blockRowCount (tableFooter compareState)))
            (blockDatas ! k)
            (skipNodes ! k ! (rowCount_sb buffers div blockRowCount (tableFooter compareState))))
        [0..<length (tupleDescriptor compareState)]
    \<and> blockDataArray wsN = blockDatas
    \<and> valueBuffer_bd (blockDataArray ws1 ! 0) = Some []
    \<and> valueBuffer_bd (blockDatas ! 0) = Some []
    \<and> existsArray (blockDatas ! 0) = [False, False]
    \<and> skipNodes ! 0 ! 0 = emptySkipNode\<lparr>rowCount := 1\<rparr>)
   \<and> (\<exists>ws0 wsF ws1 buffers skipList blockDatas skipNodes buffers' ws2 skipList2.
      CStoreWriteRow compareHost compareState [DatumWord 5] [False] = Inr ws0
    \<and> CStoreWriteRow compareHost ws0 [DatumWord 7] [False] = Inr wsF
    \<and> InsertRow compareHost ws0 [DatumWord 7] [False] = Inr wsF
    \<and> (if stripeBuffers ws0 = None then InitStripe ws0 else Inr ws0) = Inr ws1
    \<and> stripeBuffers ws1 = Some buffers \<and> stripeSkipList ws1 = Some skipList
    \<and> stripeSkipList wsF = Some (skipList\<lparr>blockSkipNodeArray := skipNodes,
          blockCount := rowCount_sb buffers div blockRowCount (tableFooter ws0) + 1\<rparr>)
    \<and> stripeBuffers wsF = Some buffers' \<and> rowCount_sb buffers' = rowCount_sb buffers + 1
    \<and> length (tupleDescriptor ws0) = 1
    \<and> list_all (\<lambda>k.
          rowCount_sb buffers mod blockRowCount (tableFooter ws0)
            < length (existsArray (blockDataArray ws1 ! k))
        \<and> columnWritten (tupleDescriptor ws0 ! k) (comparisonFunctionArray ws0 ! k)
            (rowCount_sb buffers mod blockRowCount (tableFooter ws0))
            ([DatumWord 7] ! k) ([False] ! k)
            (blockDataArray ws1 ! k)
            (blockSkipNodeArray skipList ! k
               ! (rowCount_sb buffers div blockRowCount (tableFooter ws0)))
            (blockDatas ! k)
            (skipNodes ! k ! (rowCount_sb buffers div blockRowCount (tableFooter ws0))))
        [0..<length (tupleDescriptor ws0)]
    \<and> valueBuffer_bd (blockDataArray ws1 ! 0) = Some [5, 0, 0, 0]
    \<and> valueBuffer_bd (blockDatas ! 0) = Some [5, 0, 0, 0, 7, 0, 0, 0]
    \<and> rowCount_sb buffers mod blockRowCount (tableFooter ws0) = blockRowCount (tableFooter ws0) - 1
    \<and> columnCount_sb buffers = 1
    \<and> list_all (\<lambda>k.
          blockFrozen compareHost (compressionType ws0) (blockRowCount (tableFooter ws0))
            (blockDatas ! k)
            (columnBuffersArray buffers' ! k
               ! (rowCount_sb buffers div blockRowCount (tableFooter ws0)))
            (blockDataArray wsF ! k))
        [0..<columnCount_sb buffers]
    \<and> rowCount_sb buffers div blockRowCount (tableFooter ws0) = 0
    \<and> existsBuffer (columnBuffersArray buffers' ! 0 ! 0) = Some [3]
    \<and> valueBuffer (columnBuffersArray buffers' ! 0 ! 0) = Some [5, 0, 0, 0, 7, 0, 0, 0]
    \<and> stripeBuffers compareState = None \<and> demoRows \<noteq> []
    \<and> InsertRows compareHost compareState demoRows = Inr ws2
    \<and> stripeSkipList ws2 = Some skipList2
    \<and> 0 < length (tupleDescriptor compareState) \<and> 0 < length (blockSkipNodeArray skipList2)
    \<and> 0 < length (blockSkipNodeArray skipList2 ! 0)
    \<and> rowCount (blockSkipNodeArray skipList2 ! 0 ! 0)
          = length (rowsOfBlock (blockRowCount (tableFooter compareState)) demoRows 0)
    \<and> length (rowsOfBlock (blockRowCount (tableFooter compareState)) demoRows 0) = 2)"
proof (rule conjI)
  from demo_null_row obtain wsN where
    run: "CStoreWriteRow compareHost compareState [DatumWord 0] [True] = Inr wsN" by blast
  have st: "stripeBuffers compareState = None" "length (tupleDescriptor compareState) = 1"
    "blockRowCount (tableFooter compareState) = 2"
    by (simp_all add: compareState_def compareHost_def demoHost_def demoTupleDesc_def
        CStoreBeginWrite_def Let_def)
  note inst = write_row_column_effects[where host=compareHost and ws=compareState
      and columnValues="[DatumWord 0]" and columnNulls="[True]" and wsF=wsN,
      THEN conjunct1, rule_format]
  from inst[OF run] obtain ws' ws1 buffers skipList blockDatas skipNodes buffers' where
      e: "InsertRow compareHost compareState [DatumWord 0] [True] = Inr ws'"
        "wsN = ws' \<or> FlushAndAppend compareHost ws' = Inr wsN"
        "(if stripeBuffers compareState = None then InitStripe compareState else Inr compareState)
           = Inr ws1"
        "stripeBuffers ws1 = Some buffers" "stripeSkipList ws1 = Some skipList"
        "stripeBuffers ws' = Some buffers'" "rowCount_sb buffers' = rowCount_sb buffers + 1"
      and cols: "\<forall>k < length (tupleDescriptor compareState).
          rowCount_sb buffers mod blockRowCount (tableFooter compareState)
            < length (existsArray (blockDataArray ws1 ! k))
        \<and> columnWritten (tupleDescriptor compareState ! k) (comparisonFunctionArray compareState ! k)
            (rowCount_sb buffers mod blockRowCount (tableFooter compareState))
            ([DatumWord 0] ! k) ([True] ! k)
            (blockDataArray ws1 ! k)
            (blockSkipNodeArray skipList ! k
               ! (rowCount_sb buffers div blockRowCount (tableFooter compareState)))
            (blockDatas ! k)
            (skipNodes ! k ! (rowCount_sb buffers div blockRowCount (tableFooter compareState)))"
      and fz: "if rowCount_sb buffers mod blockRowCount (tableFooter compareState)
                  = blockRowCount (tableFooter compareState) - 1
           then \<forall>k < columnCount_sb buffers.
                  blockFrozen compareHost (compressionType compareState)
                    (blockRowCount (tableFooter compareState)) (blockDatas ! k)
                    (columnBuffersArray buffers' ! k
                       ! (rowCount_sb buffers div blockRowCount (tableFooter compareState)))
                    (blockDataArray ws' ! k)
           else blockDataArray ws' = blockDatas
                \<and> columnBuffersArray buffers' = columnBuffersArray buffers"
    by blast
  from e(3) st(1) have i: "InitStripe compareState = Inr ws1" by simp
  have two: "replicate 2 False = [False, False]" by (simp add: numeral_2_eq_2)
  from i e(4,5) have fresh: "rowCount_sb buffers = 0"
      "valueBuffer_bd (blockDataArray ws1 ! 0) = Some []"
      "existsArray (blockDataArray ws1 ! 0) = [False, False]"
      "blockSkipNodeArray skipList ! 0 ! 0 = emptySkipNode"
    by (auto simp: InitStripe_def compareState_def compareHost_def demoHost_def demoTupleDesc_def
        CStoreBeginWrite_def CreateEmptyBlockDataArray_def CreateEmptyStripeBuffers_def
        CreateEmptyStripeSkipList_def Let_def upt_rec two)
  have smr: "stripeMaxRowCount ws' = 10"
    using InsertRow_frame[OF e(1)] by (simp add: compareState_def CStoreBeginWrite_def Let_def)
  from run have w: "wsN = ws'"
    unfolding CStoreWriteRow_def by (simp add: e(1,6,7) fresh(1) smr deref_def)
  from fz fresh(1) st have bd: "blockDataArray wsN = blockDatas" by (simp add: w)
  from cols have cols': "list_all (\<lambda>k.
          columnWritten (tupleDescriptor compareState ! k) (comparisonFunctionArray compareState ! k)
            (rowCount_sb buffers mod blockRowCount (tableFooter compareState))
            ([DatumWord 0] ! k) ([True] ! k)
            (blockDataArray ws1 ! k)
            (blockSkipNodeArray skipList ! k
               ! (rowCount_sb buffers div blockRowCount (tableFooter compareState)))
            (blockDatas ! k)
            (skipNodes ! k ! (rowCount_sb buffers div blockRowCount (tableFooter compareState))))
        [0..<length (tupleDescriptor compareState)]"
    by (simp add: list_all_iff)
  from cols st have "columnWritten (tupleDescriptor compareState ! 0) (comparisonFunctionArray compareState ! 0)
            (rowCount_sb buffers mod blockRowCount (tableFooter compareState))
            (DatumWord 0) True
            (blockDataArray ws1 ! 0)
            (blockSkipNodeArray skipList ! 0
               ! (rowCount_sb buffers div blockRowCount (tableFooter compareState)))
            (blockDatas ! 0)
            (skipNodes ! 0 ! (rowCount_sb buffers div blockRowCount (tableFooter compareState)))"
    by auto
  then have out: "valueBuffer_bd (blockDatas ! 0) = Some []"
      "existsArray (blockDatas ! 0) = [False, False]"
      "skipNodes ! 0 ! 0 = emptySkipNode\<lparr>rowCount := 1\<rparr>"
    unfolding columnWritten_def using fresh st by (simp_all add: emptySkipNode_def)
  show "\<exists>wsN ws1 buffers skipList blockDatas skipNodes.
      CStoreWriteRow compareHost compareState [DatumWord 0] [True] = Inr wsN
    \<and> (if stripeBuffers compareState = None then InitStripe compareState else Inr compareState)
         = Inr ws1
    \<and> stripeBuffers ws1 = Some buffers \<and> stripeSkipList ws1 = Some skipList
    \<and> rowCount_sb buffers = 0
    \<and> list_all (\<lambda>k.
          columnWritten (tupleDescriptor compareState ! k) (comparisonFunctionArray compareState ! k)
            (rowCount_sb buffers mod blockRowCount (tableFooter compareState))
            ([DatumWord 0] ! k) ([True] ! k)
            (blockDataArray ws1 ! k)
            (blockSkipNodeArray skipList ! k
               ! (rowCount_sb buffers div blockRowCount (tableFooter compareState)))
            (blockDatas ! k)
            (skipNodes ! k ! (rowCount_sb buffers div blockRowCount (tableFooter compareState))))
        [0..<length (tupleDescriptor compareState)]
    \<and> blockDataArray wsN = blockDatas
    \<and> valueBuffer_bd (blockDataArray ws1 ! 0) = Some []
    \<and> valueBuffer_bd (blockDatas ! 0) = Some []
    \<and> existsArray (blockDatas ! 0) = [False, False]
    \<and> skipNodes ! 0 ! 0 = emptySkipNode\<lparr>rowCount := 1\<rparr>"
    by (rule exI[of _ wsN], rule exI[of _ ws1], rule exI[of _ buffers], rule exI[of _ skipList],
        rule exI[of _ blockDatas], rule exI[of _ skipNodes], intro conjI)
      (rule run e(3,4,5) fresh(1,2) cols' bd out)+
next
  from demo_block_completed obtain ws0 wsF b0 b' where
    r0: "CStoreWriteRow compareHost compareState [DatumWord 5] [False] = Inr ws0"
    and run: "CStoreWriteRow compareHost ws0 [DatumWord 7] [False] = Inr wsF"
    and ins: "InsertRow compareHost ws0 [DatumWord 7] [False] = Inr wsF"
    and R: "blockRowCount (tableFooter ws0) = 2" and td: "tupleDescriptor ws0 = demoTupleDesc"
    and ct: "compressionType ws0 = COMPRESSION_NONE"
    and b0: "stripeBuffers ws0 = Some b0" "rowCount_sb b0 = 1" "columnCount_sb b0 = 1"
    and vb0: "valueBuffer_bd (blockDataArray ws0 ! 0) = Some [5, 0, 0, 0]"
    and b': "stripeBuffers wsF = Some b'"
      "existsBuffer (columnBuffersArray b' ! 0 ! 0) = Some [3]"
      "valueBuffer (columnBuffersArray b' ! 0 ! 0) = Some [5, 0, 0, 0, 7, 0, 0, 0]"
    by blast
  from demo_rows_run obtain ws2 skipList2 where
    rows: "InsertRows compareHost compareState demoRows = Inr ws2"
    and sl2: "stripeSkipList ws2 = Some skipList2"
    and len: "length (blockSkipNodeArray skipList2) = 1" "length (blockSkipNodeArray skipList2 ! 0) = 6"
    by blast
  from len have ne: "0 < length (blockSkipNodeArray skipList2)"
    "0 < length (blockSkipNodeArray skipList2 ! 0)" by simp_all
  have st: "stripeBuffers compareState = None" "0 < length (tupleDescriptor compareState)"
    "blockRowCount (tableFooter compareState) = 2" "demoRows \<noteq> []"
    by (simp_all add: compareState_def compareHost_def demoHost_def demoTupleDesc_def
        CStoreBeginWrite_def Let_def demoRows_def)
  note inst = write_row_column_effects[where host=compareHost and ws=ws0
      and columnValues="[DatumWord 7]" and columnNulls="[False]" and wsF=wsF
      and first=compareState and rows=demoRows and after=ws2 and lastList=skipList2
      and c=0 and b=0]
  from inst run obtain ws' ws1 buffers skipList blockDatas skipNodes buffers' where
      e: "InsertRow compareHost ws0 [DatumWord 7] [False] = Inr ws'"
        "(if stripeBuffers ws0 = None then InitStripe ws0 else Inr ws0) = Inr ws1"
        "stripeBuffers ws1 = Some buffers" "stripeSkipList ws1 = Some skipList"
        "stripeSkipList ws' = Some (skipList\<lparr>blockSkipNodeArray := skipNodes,
          blockCount := rowCount_sb buffers div blockRowCount (tableFooter ws0) + 1\<rparr>)"
        "stripeBuffers ws' = Some buffers'" "rowCount_sb buffers' = rowCount_sb buffers + 1"
      and cols: "\<forall>k < length (tupleDescriptor ws0).
          rowCount_sb buffers mod blockRowCount (tableFooter ws0)
            < length (existsArray (blockDataArray ws1 ! k))
        \<and> columnWritten (tupleDescriptor ws0 ! k) (comparisonFunctionArray ws0 ! k)
            (rowCount_sb buffers mod blockRowCount (tableFooter ws0))
            ([DatumWord 7] ! k) ([False] ! k)
            (blockDataArray ws1 ! k)
            (blockSkipNodeArray skipList ! k
               ! (rowCount_sb buffers div blockRowCount (tableFooter ws0)))
            (blockDatas ! k)
            (skipNodes ! k ! (rowCount_sb buffers div blockRowCount (tableFooter ws0)))"
      and fz: "if rowCount_sb buffers mod blockRowCount (tableFooter ws0)
                  = blockRowCount (tableFooter ws0) - 1
           then \<forall>k < columnCount_sb buffers.
                  blockFrozen compareHost (compressionType ws0) (blockRowCount (tableFooter ws0))
                    (blockDatas ! k)
                    (columnBuffersArray buffers' ! k
                       ! (rowCount_sb buffers div blockRowCount (tableFooter ws0)))
                    (blockDataArray ws' ! k)
           else blockDataArray ws' = blockDatas
                \<and> columnBuffersArray buffers' = columnBuffersArray buffers"
    by blast
  from e(1) ins have w: "ws' = wsF" by simp
  from e(2) b0 have w1: "ws1 = ws0" by simp
  from e(3) b0 w1 have bb: "buffers = b0" by simp
  from e(6) b' w have bb': "buffers' = b'" by simp
  have full: "rowCount_sb buffers mod blockRowCount (tableFooter ws0) = blockRowCount (tableFooter ws0) - 1"
    "rowCount_sb buffers div blockRowCount (tableFooter ws0) = 0" "columnCount_sb buffers = 1"
    using b0 bb R by simp_all
  have tdl: "length (tupleDescriptor ws0) = 1" by (simp add: td demoTupleDesc_def)
  from cols have cols': "list_all (\<lambda>k.
          rowCount_sb buffers mod blockRowCount (tableFooter ws0)
            < length (existsArray (blockDataArray ws1 ! k))
        \<and> columnWritten (tupleDescriptor ws0 ! k) (comparisonFunctionArray ws0 ! k)
            (rowCount_sb buffers mod blockRowCount (tableFooter ws0))
            ([DatumWord 7] ! k) ([False] ! k)
            (blockDataArray ws1 ! k)
            (blockSkipNodeArray skipList ! k
               ! (rowCount_sb buffers div blockRowCount (tableFooter ws0)))
            (blockDatas ! k)
            (skipNodes ! k ! (rowCount_sb buffers div blockRowCount (tableFooter ws0))))
        [0..<length (tupleDescriptor ws0)]"
    by (simp add: list_all_iff)
  from cols tdl have "columnWritten (tupleDescriptor ws0 ! 0) (comparisonFunctionArray ws0 ! 0)
            (rowCount_sb buffers mod blockRowCount (tableFooter ws0))
            (DatumWord 7) False
            (blockDataArray ws1 ! 0)
            (blockSkipNodeArray skipList ! 0
               ! (rowCount_sb buffers div blockRowCount (tableFooter ws0)))
            (blockDatas ! 0)
            (skipNodes ! 0 ! (rowCount_sb buffers div blockRowCount (tableFooter ws0)))"
    by auto
  then have vb1: "valueBuffer_bd (blockDatas ! 0) = Some [5, 0, 0, 0, 7, 0, 0, 0]"
    unfolding columnWritten_def using vb0 w1
    by (simp add: td demoTupleDesc_def demo_paddedDatum)
  from fz full have fz': "list_all (\<lambda>k.
          blockFrozen compareHost (compressionType ws0) (blockRowCount (tableFooter ws0))
            (blockDatas ! k)
            (columnBuffersArray buffers' ! k
               ! (rowCount_sb buffers div blockRowCount (tableFooter ws0)))
            (blockDataArray wsF ! k))
        [0..<columnCount_sb buffers]"
    by (simp add: list_all_iff w)
  from inst rows sl2 ne st
  have cnt: "rowCount (blockSkipNodeArray skipList2 ! 0 ! 0)
          = length (rowsOfBlock (blockRowCount (tableFooter compareState)) demoRows 0)"
    by simp
  have two: "length (rowsOfBlock (blockRowCount (tableFooter compareState)) demoRows 0) = 2"
    using demo_rowsOfBlock st by simp
  have vb0': "valueBuffer_bd (blockDataArray ws1 ! 0) = Some [5, 0, 0, 0]" using vb0 w1 by simp
  have e': "stripeSkipList wsF = Some (skipList\<lparr>blockSkipNodeArray := skipNodes,
          blockCount := rowCount_sb buffers div blockRowCount (tableFooter ws0) + 1\<rparr>)"
      "stripeBuffers wsF = Some buffers'"
    using e(5,6) w by simp_all
  have bx: "existsBuffer (columnBuffersArray buffers' ! 0 ! 0) = Some [3]"
      "valueBuffer (columnBuffersArray buffers' ! 0 ! 0) = Some [5, 0, 0, 0, 7, 0, 0, 0]"
    using b' bb' by simp_all
  show "\<exists>ws0 wsF ws1 buffers skipList blockDatas skipNodes buffers' ws2 skipList2.
      CStoreWriteRow compareHost compareState [DatumWord 5] [False] = Inr ws0
    \<and> CStoreWriteRow compareHost ws0 [DatumWord 7] [False] = Inr wsF
    \<and> InsertRow compareHost ws0 [DatumWord 7] [False] = Inr wsF
    \<and> (if stripeBuffers ws0 = None then InitStripe ws0 else Inr ws0) = Inr ws1
    \<and> stripeBuffers ws1 = Some buffers \<and> stripeSkipList ws1 = Some skipList
    \<and> stripeSkipList wsF = Some (skipList\<lparr>blockSkipNodeArray := skipNodes,
          blockCount := rowCount_sb buffers div blockRowCount (tableFooter ws0) + 1\<rparr>)
    \<and> stripeBuffers wsF = Some buffers' \<and> rowCount_sb buffers' = rowCount_sb buffers + 1
    \<and> length (tupleDescriptor ws0) = 1
    \<and> list_all (\<lambda>k.
          rowCount_sb buffers mod blockRowCount (tableFooter ws0)
            < length (existsArray (blockDataArray ws1 ! k))
        \<and> columnWritten (tupleDescriptor ws0 ! k) (comparisonFunctionArray ws0 ! k)
            (rowCount_sb buffers mod blockRowCount (tableFooter ws0))
            ([DatumWord 7] ! k) ([False] ! k)
            (blockDataArray ws1 ! k)
            (blockSkipNodeArray skipList ! k
               ! (rowCount_sb buffers div blockRowCount (tableFooter ws0)))
            (blockDatas ! k)
            (skipNodes ! k ! (rowCount_sb buffers div blockRowCount (tableFooter ws0))))
        [0..<length (tupleDescriptor ws0)]
    \<and> valueBuffer_bd (blockDataArray ws1 ! 0) = Some [5, 0, 0, 0]
    \<and> valueBuffer_bd (blockDatas ! 0) = Some [5, 0, 0, 0, 7, 0, 0, 0]
    \<and> rowCount_sb buffers mod blockRowCount (tableFooter ws0) = blockRowCount (tableFooter ws0) - 1
    \<and> columnCount_sb buffers = 1
    \<and> list_all (\<lambda>k.
          blockFrozen compareHost (compressionType ws0) (blockRowCount (tableFooter ws0))
            (blockDatas ! k)
            (columnBuffersArray buffers' ! k
               ! (rowCount_sb buffers div blockRowCount (tableFooter ws0)))
            (blockDataArray wsF ! k))
        [0..<columnCount_sb buffers]
    \<and> rowCount_sb buffers div blockRowCount (tableFooter ws0) = 0
    \<and> existsBuffer (columnBuffersArray buffers' ! 0 ! 0) = Some [3]
    \<and> valueBuffer (columnBuffersArray buffers' ! 0 ! 0) = Some [5, 0, 0, 0, 7, 0, 0, 0]
    \<and> stripeBuffers compareState = None \<and> demoRows \<noteq> []
    \<and> InsertRows compareHost compareState demoRows = Inr ws2
    \<and> stripeSkipList ws2 = Some skipList2
    \<and> 0 < length (tupleDescriptor compareState) \<and> 0 < length (blockSkipNodeArray skipList2)
    \<and> 0 < length (blockSkipNodeArray skipList2 ! 0)
    \<and> rowCount (blockSkipNodeArray skipList2 ! 0 ! 0)
          = length (rowsOfBlock (blockRowCount (tableFooter compareState)) demoRows 0)
    \<and> length (rowsOfBlock (blockRowCount (tableFooter compareState)) demoRows 0) = 2"
    by (rule exI[of _ ws0], rule exI[of _ wsF], rule exI[of _ ws1], rule exI[of _ buffers],
        rule exI[of _ skipList], rule exI[of _ blockDatas], rule exI[of _ skipNodes],
        rule exI[of _ buffers'], rule exI[of _ ws2], rule exI[of _ skipList2], intro conjI)
      (rule r0 run ins e(2,3,4,7) e' tdl cols' vb0' vb1 full fz' bx st rows sl2 ne cnt two)+
qed

subsection \<open>The block row count of a resumed session\<close>

text \<open>
  Claim C10 says that the block row count passed to \<^verbatim>\<open>CStoreBeginWrite\<close> is ignored when
  the footer fork holds a footer. It is not: the footer's count becomes the one of the
  session, by which \<^verbatim>\<open>CStoreWriteRow\<close> computes the position of a row in its block, but the
  block data arrays are allocated with the count of the call (line 162). With a footer of
  block row count 4 and a call with block row count 2, the exists array has two entries and
  the third row is written at position 2, beyond its end. The same rows are written
  without error when the call passes 4.
\<close>

theorem resumed_session_block_overflow:
  "tableFooter resumeState = \<lparr>stripeMetadataList = demoStripes, blockRowCount = 4\<rparr>
   \<and> map (\<lambda>blockData. length (existsArray blockData)) (blockDataArray resumeState) = [2]
   \<and> (\<exists>ws1 ws2. CStoreWriteRow resumeHost resumeState [DatumWord 5] [False] = Inr ws1
          \<and> CStoreWriteRow resumeHost ws1 [DatumWord 7] [False] = Inr ws2
          \<and> CStoreWriteRow resumeHost ws2 [DatumWord 9] [False] = Inl OutOfBounds)
   \<and> (\<exists>ws1 ws2 ws3.
          CStoreWriteRow resumeHost
            (CStoreBeginWrite resumeHost demoRelation COMPRESSION_NONE 10 4 False demoTupleDesc)
            [DatumWord 5] [False] = Inr ws1
          \<and> CStoreWriteRow resumeHost ws1 [DatumWord 7] [False] = Inr ws2
          \<and> CStoreWriteRow resumeHost ws2 [DatumWord 9] [False] = Inr ws3)"
  by (simp add: resumeState_def resumeHost_def demoHost_def demoRelation_def demoStripes_def
      demoTupleDesc_def eval_defs upt_rec)

end
